(* ===== verification/Prelude.thy ===== *)
theory Prelude
  imports Main "HOL-Library.Word" "HOL-Library.Monad_Syntax"
begin

text \<open>
  Shared vocabulary of the development.

  A block of memory is a list of bytes and an access through a pointer is an index into the
  list.  C does not check such an access; the model does, and the result \<open>None\<close> stands for
  an access outside the block (undefined behaviour of the source), never for an error that the
  source reports.  A multi-byte load comes in the two forms the daemons use: \<open>rd16be\<close> is
  \<open>ntohs(*(uint16_t *)p)\<close> and \<open>rd32le\<close> is the raw load of a 32-bit field, which keeps
  the byte order of a little-endian host.

  The theory also holds the interfaces several components share: the codec of an item of a
  type-length-value stream, a first-in first-out message queue (the \<open>TAILQ\<close> macros) and a
  transition system with an invariant.
\<close>

unbundle bit_operations_syntax

named_theorems mem_simps \<open>loads and stores at offsets of composed blocks\<close>
named_theorems codec_simps \<open>fixed-width big-endian encodings\<close>

type_synonym byte = "8 word"
type_synonym mem = "byte list"

section \<open>Loads and stores\<close>

definition rd8 :: "mem \<Rightarrow> nat \<Rightarrow> byte option" where
  "rd8 m i = (if i < length m then Some (m ! i) else None)"

definition be16 :: "byte \<Rightarrow> byte \<Rightarrow> 16 word" where
  "be16 hi lo = word_cat hi lo"

definition be32 :: "byte \<Rightarrow> byte \<Rightarrow> byte \<Rightarrow> byte \<Rightarrow> 32 word" where
  "be32 a b c d = word_cat (be16 a b) (be16 c d)"

definition rd16be :: "mem \<Rightarrow> nat \<Rightarrow> 16 word option" where
  "rd16be m i = (if i + 2 \<le> length m then Some (be16 (m ! i) (m ! (i + 1))) else None)"

definition rd16le :: "mem \<Rightarrow> nat \<Rightarrow> 16 word option" where
  "rd16le m i = (if i + 2 \<le> length m then Some (be16 (m ! (i + 1)) (m ! i)) else None)"

definition rd32be :: "mem \<Rightarrow> nat \<Rightarrow> 32 word option" where
  "rd32be m i = (if i + 4 \<le> length m
     then Some (be32 (m ! i) (m ! (i + 1)) (m ! (i + 2)) (m ! (i + 3))) else None)"

definition rd32le :: "mem \<Rightarrow> nat \<Rightarrow> 32 word option" where
  "rd32le m i = (if i + 4 \<le> length m
     then Some (be32 (m ! (i + 3)) (m ! (i + 2)) (m ! (i + 1)) (m ! i)) else None)"

definition rdn :: "mem \<Rightarrow> nat \<Rightarrow> nat \<Rightarrow> mem option" where
  "rdn m i n = (if i + n \<le> length m then Some (take n (drop i m)) else None)"

definition wrn :: "mem \<Rightarrow> nat \<Rightarrow> mem \<Rightarrow> mem option" where
  "wrn m i xs = (if i + length xs \<le> length m
     then Some (take i m @ xs @ drop (i + length xs) m) else None)"

definition hi8 :: "16 word \<Rightarrow> byte" where
  "hi8 w = ucast (drop_bit 8 w)"

definition lo8 :: "16 word \<Rightarrow> byte" where
  "lo8 w = ucast w"

definition hi16 :: "32 word \<Rightarrow> 16 word" where
  "hi16 w = ucast (drop_bit 16 w)"

definition lo16 :: "32 word \<Rightarrow> 16 word" where
  "lo16 w = ucast w"

definition enc16 :: "16 word \<Rightarrow> mem" where
  "enc16 w = [hi8 w, lo8 w]"

definition enc16le :: "16 word \<Rightarrow> mem" where
  "enc16le w = [lo8 w, hi8 w]"

definition enc32 :: "32 word \<Rightarrow> mem" where
  "enc32 w = enc16 (hi16 w) @ enc16 (lo16 w)"

definition enc32le :: "32 word \<Rightarrow> mem" where
  "enc32le w = enc16le (lo16 w) @ enc16le (hi16 w)"

section \<open>Facts about loads and stores\<close>

lemma hi8_be16 [simp, codec_simps]: "hi8 (be16 a b) = a"
  unfolding hi8_def be16_def
  by (rule bit_word_eqI) (simp add: bit_simps)

lemma lo8_be16 [simp, codec_simps]: "lo8 (be16 a b) = b"
  unfolding lo8_def be16_def
  by (rule bit_word_eqI) (simp add: bit_simps)

lemma be16_hi_lo [simp, codec_simps]: "be16 (hi8 w) (lo8 w) = w"
  unfolding hi8_def lo8_def be16_def
  by (rule bit_word_eqI) (auto simp: bit_simps)

lemma hi16_be32 [simp, codec_simps]: "hi16 (be32 a b c d) = be16 a b"
  unfolding hi16_def be32_def
  by (rule bit_word_eqI) (simp add: bit_simps)

lemma lo16_be32 [simp, codec_simps]: "lo16 (be32 a b c d) = be16 c d"
  unfolding lo16_def be32_def
  by (rule bit_word_eqI) (simp add: bit_simps)

lemma be32_hi_lo [simp, codec_simps]:
  "be32 (hi8 (hi16 w)) (lo8 (hi16 w)) (hi8 (lo16 w)) (lo8 (lo16 w)) = w"
proof -
  have "word_cat (hi16 w) (lo16 w) = w"
    unfolding hi16_def lo16_def by (rule bit_word_eqI) (auto simp: bit_simps)
  thus ?thesis by (simp add: be32_def)
qed

lemma be16_eq_iff: "be16 a b = w \<longleftrightarrow> a = hi8 w \<and> b = lo8 w"
  by auto

lemma be16_eval: "be16 a b = push_bit 8 (ucast a) + ucast b"
  by (simp add: be16_def word_cat_eq)

lemma be32_eval: "be32 a b c d = push_bit 16 (ucast (be16 a b)) + ucast (be16 c d)"
  by (simp add: be32_def word_cat_eq)

lemma be32_le_iff: "be32 d c b a = w \<longleftrightarrow> [a, b, c, d] = enc32le w"
proof -
  have "be32 d c b a = w \<longleftrightarrow> be16 d c = hi16 w \<and> be16 b a = lo16 w"
    by (metis be16_hi_lo be32_hi_lo hi16_be32 lo16_be32)
  thus ?thesis by (auto simp: be16_eq_iff enc32le_def enc16le_def)
qed

lemma unat_be16: "unat (be16 a b) = 256 * unat a + unat b"
proof -
  have "uint (be16 a b) = 256 * uint a + uint b"
  proof -
    have lt: "uint a * 256 + uint b < 65536"
      using uint_lt2p [of a] uint_lt2p [of b] by simp
    have "uint (be16 a b) = (uint a * 256 + uint b) mod 65536"
      unfolding be16_def word_cat_eq
      by (simp add: push_bit_eq_mult uint_word_ariths take_bit_eq_mod unsigned_ucast_eq mod_simps)
    thus ?thesis using lt by (simp add: mod_pos_pos_trivial)
  qed
  hence "int (unat (be16 a b)) = int (256 * unat a + unat b)"
    by simp
  thus ?thesis by (simp only: of_nat_eq_iff)
qed

lemma length_enc [simp, codec_simps]:
  "length (enc16 w) = 2" "length (enc16le w) = 2" "length (enc32 v) = 4" "length (enc32le v) = 4"
  by (simp_all add: enc16_def enc16le_def enc32_def enc32le_def)

lemma rd8_Some_iff: "rd8 m i = Some b \<longleftrightarrow> i < length m \<and> m ! i = b"
  by (simp add: rd8_def)

lemma rd8_append [mem_simps]:
  "rd8 (xs @ ys) i = (if i < length xs then rd8 xs i else rd8 ys (i - length xs))"
  by (auto simp: rd8_def nth_append)

lemma rd8_Cons_0 [simp]: "rd8 (b # m) 0 = Some b"
  by (simp add: rd8_def)

lemma rd8_Cons_Suc [simp]: "rd8 (b # m) (Suc i) = rd8 m i"
  by (simp add: rd8_def)

lemma rd16be_bytes: "rd16be m i = do { a \<leftarrow> rd8 m i; b \<leftarrow> rd8 m (i + 1); Some (be16 a b) }"
  by (auto simp: rd16be_def rd8_def)

lemma rd16be_None_mono: "rd16be m i = None \<Longrightarrow> i \<le> j \<Longrightarrow> rd16be m j = None"
  by (simp add: rd16be_def split: if_splits)

lemma rd16be_enc16 [mem_simps]: "rd16be (xs @ enc16 w @ ys) (length xs) = Some w"
  by (simp add: rd16be_def enc16_def nth_append)

lemma rd32be_enc32 [mem_simps]: "rd32be (xs @ enc32 w @ ys) (length xs) = Some w"
  by (simp add: rd32be_def enc32_def enc16_def nth_append)

lemma rd32le_enc32le [mem_simps]: "rd32le (xs @ enc32le w @ ys) (length xs) = Some w"
  by (simp add: rd32le_def enc32le_def enc16le_def nth_append)

lemma rdn_append [mem_simps]: "length ys = n \<Longrightarrow> rdn (xs @ ys @ zs) (length xs) n = Some ys"
  by (simp add: rdn_def)

lemma rdn_4:
  assumes "rdn m i 4 = Some xs"
  shows "xs = [m ! i, m ! (i + 1), m ! (i + 2), m ! (i + 3)]" "i + 4 \<le> length m"
proof -
  show len: "i + 4 \<le> length m" using assms by (auto simp: rdn_def split: if_splits)
  have "xs = take 4 (drop i m)" using assms len by (simp add: rdn_def)
  also have "\<dots> = [m ! i, m ! (i + 1), m ! (i + 2), m ! (i + 3)]"
  proof (rule nth_equalityI)
    fix j assume "j < length (take 4 (drop i m))"
    hence "j = 0 \<or> j = 1 \<or> j = 2 \<or> j = 3" by auto
    thus "take 4 (drop i m) ! j = [m ! i, m ! (i + 1), m ! (i + 2), m ! (i + 3)] ! j"
      using len by auto
  qed (use len in simp)
  finally show "xs = [m ! i, m ! (i + 1), m ! (i + 2), m ! (i + 3)]" .
qed

lemma rdn_length: "rdn m i n = Some xs \<Longrightarrow> length xs = n"
  by (auto simp: rdn_def split: if_splits)

lemma wrn_length: "wrn m i xs = Some m' \<Longrightarrow> length m' = length m"
  by (auto simp: wrn_def split: if_splits)

lemma wrn_Some_iff: "(\<exists>m'. wrn m i xs = Some m') \<longleftrightarrow> i + length xs \<le> length m"
  by (simp add: wrn_def)

lemma wrn_append [mem_simps]:
  "length ys = length old \<Longrightarrow> wrn (xs @ old @ zs) (length xs) ys = Some (xs @ ys @ zs)"
  by (simp add: wrn_def)

lemma rdn_wrn_same: "wrn m i xs = Some m' \<Longrightarrow> rdn m' i (length xs) = Some xs"
  by (auto simp: wrn_def rdn_def split: if_splits)

lemma rdn_wrn_before:
  "wrn m i xs = Some m' \<Longrightarrow> j + n \<le> i \<Longrightarrow> rdn m' j n = rdn m j n"
  by (auto simp: wrn_def rdn_def min_def drop_take split: if_splits)

lemma wrn_prefix:
  "length xs \<le> length rest \<Longrightarrow> n = length p \<Longrightarrow> wrn (p @ rest) n xs = Some ((p @ xs) @ drop (length xs) rest)"
  by (simp add: wrn_def)

section \<open>C strings\<close>

text \<open>
  \<open>isspace\<close> in the C locale and \<open>atoi\<close> for values in the range of \<open>int\<close>.
\<close>

definition c_isspace :: "char \<Rightarrow> bool" where
  "c_isspace ch \<longleftrightarrow> ch = CHR '' '' \<or> 9 \<le> (of_char ch :: nat) \<and> (of_char ch :: nat) \<le> 13"

fun atoi_digits :: "int \<Rightarrow> string \<Rightarrow> int" where
  "atoi_digits n [] = n"
| "atoi_digits n (ch # s) =
     (let v = of_char ch in if 48 \<le> v \<and> v \<le> 57 then atoi_digits (10 * n + (v - 48)) s else n)"

definition atoi :: "string \<Rightarrow> int" where
  "atoi s = (case dropWhile c_isspace s of
     [] \<Rightarrow> 0
   | ch # r \<Rightarrow> if ch = CHR ''-'' then - atoi_digits 0 r
              else if ch = CHR ''+'' then atoi_digits 0 r else atoi_digits 0 (ch # r))"

text \<open>Decimal digits, as \<open>%u\<close> and \<open>std::to_string\<close> write them.\<close>

fun dec_string :: "nat \<Rightarrow> string" where
  "dec_string n = (if n < 10 then [char_of (48 + n)] else dec_string (n div 10) @ [char_of (48 + n mod 10)])"

declare dec_string.simps [simp del]

definition dec_value :: "string \<Rightarrow> nat" where
  "dec_value s = foldl (\<lambda>n ch. 10 * n + (of_char ch - 48)) 0 s"

lemma dec_value_dec_string: "dec_value (dec_string n) = n"
proof (induction n rule: dec_string.induct)
  case (1 n)
  show ?case
  proof (cases "n < 10")
    case True
    thus ?thesis by (subst dec_string.simps) (simp add: dec_value_def)
  next
    case False
    hence "dec_value (dec_string n) = 10 * dec_value (dec_string (n div 10)) + n mod 10"
      by (subst dec_string.simps) (simp add: dec_value_def)
    thus ?thesis using "1.IH" [OF False] by simp
  qed
qed

section \<open>Streams of type-length-value items\<close>

function tlv_parse :: "(mem \<Rightarrow> ('a \<times> mem) option) \<Rightarrow> mem \<Rightarrow> 'a list option" where
  "tlv_parse dec m =
     (if m = [] then Some []
      else (case dec m of
              None \<Rightarrow> None
            | Some (x, rest) \<Rightarrow>
                if length rest < length m then map_option (Cons x) (tlv_parse dec rest) else None))"
  by pat_completeness auto
termination
  by (relation "measure (\<lambda>(dec, m). length m)") auto

declare tlv_parse.simps [simp del]

text \<open>
  The contract of an item codec.  From it, a stream of items is read back as it was written.
\<close>

locale tlv_codec =
  fixes enc :: "'a \<Rightarrow> mem"
    and dec :: "mem \<Rightarrow> ('a \<times> mem) option"
    and ok :: "'a \<Rightarrow> bool"
  assumes dec_enc: "ok x \<Longrightarrow> dec (enc x @ rest) = Some (x, rest)"
    and enc_nonempty: "enc x \<noteq> []"
begin

lemma parse_stream: "list_all ok xs \<Longrightarrow> tlv_parse dec (concat (map enc xs)) = Some xs"
proof (induction xs)
  case Nil
  thus ?case by (simp add: tlv_parse.simps)
next
  case (Cons x xs)
  thus ?case using dec_enc [of x] enc_nonempty [of x] by (subst tlv_parse.simps) simp
qed

lemma parse_stream_tail:
  "list_all ok xs \<Longrightarrow> tlv_parse dec (concat (map enc xs) @ rest) = map_option (\<lambda>ys. xs @ ys) (tlv_parse dec rest)"
proof (induction xs)
  case Nil
  thus ?case by (simp add: option.map_ident)
next
  case (Cons x xs)
  thus ?case using dec_enc [of x] enc_nonempty [of x]
    by (subst tlv_parse.simps) (cases "tlv_parse dec rest"; simp)
qed

end

section \<open>Message queues\<close>

text \<open>Taking the next \<open>n\<close> messages.\<close>

primrec drain :: "('s \<Rightarrow> 'm option \<times> 's) \<Rightarrow> nat \<Rightarrow> 's \<Rightarrow> 'm list" where
  "drain deq 0 s = []"
| "drain deq (Suc n) s =
     (case deq s of (None, s') \<Rightarrow> [] | (Some m, s') \<Rightarrow> m # drain deq n s')"

text \<open>
  The contract of a queue inside a larger state: inserting appends to its contents, taking returns
  and removes the head, and an empty queue yields nothing.
\<close>

locale fifo_queue =
  fixes enq :: "'m \<Rightarrow> 's \<Rightarrow> 's"
    and deq :: "'s \<Rightarrow> 'm option \<times> 's"
    and contents :: "'s \<Rightarrow> 'm list"
  assumes contents_enq: "contents (enq m s) = contents s @ [m]"
    and deq_empty: "contents s = [] \<Longrightarrow> deq s = (None, s)"
    and deq_head: "contents s = m # ms \<Longrightarrow> \<exists>s'. deq s = (Some m, s') \<and> contents s' = ms"
begin

lemma contents_enq_all: "contents (fold enq ms s) = contents s @ ms"
  by (induction ms arbitrary: s) (simp_all add: contents_enq)

lemma drain_contents: "drain deq n s = take n (contents s)"
proof (induction n arbitrary: s)
  case (Suc n)
  show ?case
  proof (cases "contents s")
    case Nil
    thus ?thesis by (simp add: deq_empty)
  next
    case (Cons m ms)
    then obtain s' where "deq s = (Some m, s')" "contents s' = ms" using deq_head by blast
    thus ?thesis using Cons Suc.IH by simp
  qed
qed simp

lemma first_in_first_out: "drain deq (length (contents s) + length ms) (fold enq ms s) = contents s @ ms"
  by (simp add: drain_contents contents_enq_all)

end

section \<open>Transition systems\<close>

text \<open>An invariant that holds initially and that every step keeps holds in every reachable state.\<close>

locale invariant_system =
  fixes init :: "'s \<Rightarrow> bool"
    and step :: "'s \<Rightarrow> 's \<Rightarrow> bool"
    and inv :: "'s \<Rightarrow> bool"
  assumes inv_init: "init s \<Longrightarrow> inv s"
    and inv_step: "inv s \<Longrightarrow> step s s' \<Longrightarrow> inv s'"
begin

lemma inv_steps: "step\<^sup>*\<^sup>* s s' \<Longrightarrow> inv s \<Longrightarrow> inv s'"
  by (induction rule: rtranclp_induct) (auto intro: inv_step)

lemma inv_reachable: "init s \<Longrightarrow> step\<^sup>*\<^sup>* s s' \<Longrightarrow> inv s'"
  by (blast intro: inv_init inv_steps)

end

text \<open>
  Handlers of events: a handler that returns from every state of the invariant, and leads to such
  a state again, handles every sequence of events.
\<close>

fun run_events :: "('e \<Rightarrow> 's \<Rightarrow> 's option) \<Rightarrow> 'e list \<Rightarrow> 's \<Rightarrow> 's option" where
  "run_events handle [] s = Some s"
| "run_events handle (e # es) s = do { s \<leftarrow> handle e s; run_events handle es s }"

locale event_system =
  fixes handle :: "'e \<Rightarrow> 's \<Rightarrow> 's option"
    and event :: "'e \<Rightarrow> bool"
    and init :: "'s \<Rightarrow> bool"
    and inv :: "'s \<Rightarrow> bool"
  assumes start: "init s \<Longrightarrow> inv s"
    and handle_inv: "inv s \<Longrightarrow> event e \<Longrightarrow> \<exists>s'. handle e s = Some s' \<and> inv s'"
begin

lemma run_inv: "inv s \<Longrightarrow> list_all event es \<Longrightarrow> \<exists>s'. run_events handle es s = Some s' \<and> inv s'"
proof (induction es arbitrary: s)
  case (Cons e es)
  then obtain s1 where "handle e s = Some s1" "inv s1" using handle_inv by fastforce
  then show ?case using Cons by simp
qed simp

lemma run_sound: "init s \<Longrightarrow> list_all event es \<Longrightarrow> \<exists>s'. run_events handle es s = Some s' \<and> inv s'"
  by (blast intro: start run_inv)

end

sublocale event_system \<subseteq> invariant_system init "\<lambda>s s'. \<exists>e. event e \<and> handle e s = Some s'" inv
  by unfold_locales (auto simp: start dest: handle_inv)

end
