(* ===== verification/Bpf.thy ===== *)
theory Bpf
  imports Prelude
begin

text \<open>
  The classic BPF language.  Two programs of the repository are written in it as arrays of
  \<open>struct sock_filter\<close>: the capture filter of dhcpmon and the one of dhcp6relay.  The
  instructions are those the two arrays use, with the meaning the language gives them: a load
  outside the packet ends the program with the value 0, a jump is relative to the next
  instruction and only goes forward, and the value returned is the number of bytes to keep, so
  that 0 drops the packet.
\<close>

datatype sock_filter = Sock_Filter (sf_code: nat) (sf_jt: nat) (sf_jf: nat) (sf_k: "32 word")

datatype bpf_outcome = Ret "32 word" | Next nat "32 word" "32 word"

abbreviation OP_LDW :: nat where "OP_LDW \<equiv> 0x20"
abbreviation OP_LDHA :: nat where "OP_LDHA \<equiv> 0x28"
abbreviation OP_LDHI :: nat where "OP_LDHI \<equiv> 0x48"
abbreviation OP_LDB :: nat where "OP_LDB \<equiv> 0x30"
abbreviation OP_JEQ :: nat where "OP_JEQ \<equiv> 0x15"
abbreviation OP_JSET :: nat where "OP_JSET \<equiv> 0x45"
abbreviation OP_LDXB :: nat where "OP_LDXB \<equiv> 0xb1"
abbreviation OP_RET :: nat where "OP_RET \<equiv> 0x06"

definition bpf_load :: "nat \<Rightarrow> 32 word option \<Rightarrow> 32 word \<Rightarrow> bpf_outcome" where
  "bpf_load pc v x = (case v of None \<Rightarrow> Ret 0 | Some a \<Rightarrow> Next (pc + 1) a x)"

definition bpf_step :: "sock_filter \<Rightarrow> mem \<Rightarrow> nat \<Rightarrow> 32 word \<Rightarrow> 32 word \<Rightarrow> bpf_outcome" where
  "bpf_step i pkt pc a x =
     (let k = sf_k i; c = sf_code i in
      if c = OP_LDW then bpf_load pc (rd32be pkt (unat k)) x
      else if c = OP_LDHA then bpf_load pc (map_option ucast (rd16be pkt (unat k))) x
      else if c = OP_LDHI then bpf_load pc (map_option ucast (rd16be pkt (unat (x + k)))) x
      else if c = OP_LDB then bpf_load pc (map_option ucast (rd8 pkt (unat k))) x
      else if c = OP_LDXB then
        (case rd8 pkt (unat k) of None \<Rightarrow> Ret 0 | Some b \<Rightarrow> Next (pc + 1) a (4 * (ucast b AND 0xf)))
      else if c = OP_JEQ then Next (pc + 1 + (if a = k then sf_jt i else sf_jf i)) a x
      else if c = OP_JSET then Next (pc + 1 + (if a AND k \<noteq> 0 then sf_jt i else sf_jf i)) a x
      else if c = OP_RET then Ret k
      else Ret 0)"

lemma bpf_step_forward: "bpf_step i pkt pc a x = Next pc' a' x' \<Longrightarrow> pc < pc'"
  by (auto simp: bpf_step_def bpf_load_def Let_def split: if_splits option.splits)

function bpf_exec :: "sock_filter list \<Rightarrow> mem \<Rightarrow> nat \<Rightarrow> 32 word \<Rightarrow> 32 word \<Rightarrow> 32 word" where
  "bpf_exec prog pkt pc a x =
     (if pc < length prog then
        (case bpf_step (prog ! pc) pkt pc a x of
           Ret r \<Rightarrow> r
         | Next pc' a' x' \<Rightarrow> bpf_exec prog pkt pc' a' x')
      else 0)"
  by pat_completeness auto
termination
  by (relation "measure (\<lambda>(prog, pkt, pc, a, x). length prog - pc)")
     (auto dest!: bpf_step_forward)

declare bpf_exec.simps [simp del]

definition bpf_run :: "sock_filter list \<Rightarrow> mem \<Rightarrow> 32 word" where
  "bpf_run prog pkt = bpf_exec prog pkt 0 0 0"

definition bpf_accepts :: "sock_filter list \<Rightarrow> mem \<Rightarrow> bool" where
  "bpf_accepts prog pkt \<longleftrightarrow> bpf_run prog pkt \<noteq> 0"

text \<open>
  A load followed by a comparison is the unit in which both filters are written; the rules below
  execute one instruction each and leave the rest of the program as the continuation.
\<close>

lemma bpf_exec_ret:
  "pc < length prog \<Longrightarrow> prog ! pc = Sock_Filter OP_RET jt jf k \<Longrightarrow> bpf_exec prog pkt pc a x = k"
  by (simp add: bpf_exec.simps [of prog] bpf_step_def)

lemma bpf_exec_jeq:
  "pc < length prog \<Longrightarrow> prog ! pc = Sock_Filter OP_JEQ jt jf k \<Longrightarrow>
   bpf_exec prog pkt pc a x =
     (if a = k then bpf_exec prog pkt (pc + 1 + jt) a x else bpf_exec prog pkt (pc + 1 + jf) a x)"
  by (simp add: bpf_exec.simps [of prog pkt pc] bpf_step_def)

lemma bpf_exec_jset:
  "pc < length prog \<Longrightarrow> prog ! pc = Sock_Filter OP_JSET jt jf k \<Longrightarrow>
   bpf_exec prog pkt pc a x =
     (if a AND k \<noteq> 0 then bpf_exec prog pkt (pc + 1 + jt) a x
      else bpf_exec prog pkt (pc + 1 + jf) a x)"
  by (simp add: bpf_exec.simps [of prog pkt pc] bpf_step_def)

lemma bpf_exec_ldh:
  "pc < length prog \<Longrightarrow> prog ! pc = Sock_Filter OP_LDHA jt jf k \<Longrightarrow>
   bpf_exec prog pkt pc a x =
     (case rd16be pkt (unat k) of None \<Rightarrow> 0 | Some v \<Rightarrow> bpf_exec prog pkt (pc + 1) (ucast v) x)"
  by (simp add: bpf_exec.simps [of prog pkt pc] bpf_step_def bpf_load_def split: option.splits)

lemma bpf_exec_ldhi:
  "pc < length prog \<Longrightarrow> prog ! pc = Sock_Filter OP_LDHI jt jf k \<Longrightarrow>
   bpf_exec prog pkt pc a x =
     (case rd16be pkt (unat (x + k)) of None \<Rightarrow> 0
      | Some v \<Rightarrow> bpf_exec prog pkt (pc + 1) (ucast v) x)"
  by (simp add: bpf_exec.simps [of prog pkt pc] bpf_step_def bpf_load_def split: option.splits)

lemma bpf_exec_ldw:
  "pc < length prog \<Longrightarrow> prog ! pc = Sock_Filter OP_LDW jt jf k \<Longrightarrow>
   bpf_exec prog pkt pc a x =
     (case rd32be pkt (unat k) of None \<Rightarrow> 0 | Some v \<Rightarrow> bpf_exec prog pkt (pc + 1) v x)"
  by (simp add: bpf_exec.simps [of prog pkt pc] bpf_step_def bpf_load_def split: option.splits)

lemma bpf_exec_ldb:
  "pc < length prog \<Longrightarrow> prog ! pc = Sock_Filter OP_LDB jt jf k \<Longrightarrow>
   bpf_exec prog pkt pc a x =
     (case rd8 pkt (unat k) of None \<Rightarrow> 0 | Some v \<Rightarrow> bpf_exec prog pkt (pc + 1) (ucast v) x)"
  by (simp add: bpf_exec.simps [of prog pkt pc] bpf_step_def bpf_load_def split: option.splits)

lemma bpf_exec_ldxb:
  "pc < length prog \<Longrightarrow> prog ! pc = Sock_Filter OP_LDXB jt jf k \<Longrightarrow>
   bpf_exec prog pkt pc a x =
     (case rd8 pkt (unat k) of None \<Rightarrow> 0
      | Some v \<Rightarrow> bpf_exec prog pkt (pc + 1) a (4 * (ucast v AND 0xf)))"
  by (simp add: bpf_exec.simps [of prog pkt pc] bpf_step_def split: option.splits)

lemmas bpf_exec_rules =
  bpf_exec_ret bpf_exec_jeq bpf_exec_jset bpf_exec_ldh bpf_exec_ldhi bpf_exec_ldw bpf_exec_ldb
  bpf_exec_ldxb

text \<open>A value widened to the accumulator is compared at its own width.\<close>

lemma ucast16_eq: "k < 65536 \<Longrightarrow> ucast (v :: 16 word) = (k :: 32 word) \<longleftrightarrow> v = ucast k"
  using uint_lt2p [of v]
  by (auto simp: word_uint_eq_iff unsigned_ucast_eq take_bit_eq_mod word_less_def)

lemma ucast8_eq: "k < 256 \<Longrightarrow> ucast (v :: 8 word) = (k :: 32 word) \<longleftrightarrow> v = ucast k"
  using uint_lt2p [of v]
  by (auto simp: word_uint_eq_iff unsigned_ucast_eq take_bit_eq_mod word_less_def)

lemma ucast16_and_0x1fff: "ucast (v :: 16 word) AND (0x1fff :: 32 word) = 0 \<longleftrightarrow> v AND 0x1fff = 0"
proof -
  have "ucast v AND (0x1fff :: 32 word) = ucast (v AND 0x1fff)"
    by (simp add: unsigned_and_eq)
  thus ?thesis using ucast16_eq [of 0] by simp
qed

text \<open>The header length that \<open>ldxb\<close> computes is at most 60 bytes, so an index cannot wrap.\<close>

lemma unat_ihl_offset:
  "unat ((4 :: 32 word) * (ucast (b :: 8 word) AND 0xf) + 0xe) = 4 * unat (b AND 0xf) + 14"
  "unat ((4 :: 32 word) * (ucast (b :: 8 word) AND 0xf) + 0x10) = 4 * unat (b AND 0xf) + 16"
proof -
  have le: "unat (b AND 0xf) \<le> 15"
    using word_and_le1 [of b "0xf"] by (simp add: word_le_nat_alt)
  have eq: "(ucast b :: 32 word) AND 0xf = of_nat (unat (b AND 0xf))"
  proof -
    have "(ucast b :: 32 word) AND 0xf = ucast (b AND 0xf)"
      by (simp add: unsigned_and_eq)
    thus ?thesis by simp
  qed
  have "(4 :: 32 word) * (ucast b AND 0xf) + 0xe = of_nat (4 * unat (b AND 0xf) + 14)"
    "(4 :: 32 word) * (ucast b AND 0xf) + 0x10 = of_nat (4 * unat (b AND 0xf) + 16)"
    by (simp_all only: eq of_nat_add of_nat_mult of_nat_numeral)
  thus "unat ((4 :: 32 word) * (ucast b AND 0xf) + 0xe) = 4 * unat (b AND 0xf) + 14"
    "unat ((4 :: 32 word) * (ucast b AND 0xf) + 0x10) = 4 * unat (b AND 0xf) + 16"
    using le by (simp_all only: unat_of_nat len_of_numeral_defs) simp_all
qed

end
