(* ===== verification/DhcpDevice.thy ===== *)
theory DhcpDevice
  imports Bpf
begin

text \<open>
  The capture module of dhcpmon, \<open>src/dhcpmon/src/dhcp_device.c\<close> with its header.

  A device context is a record with the fields of \<open>dhcp_device_context_t\<close>; the variables of the
  module (the aggregate context and the two protocol flags) are the record \<open>device_module\<close>.  The
  counter arrays are functions from the two enumerations and the message type, and the code only
  indexes them with a message type that a \<open>switch\<close> has checked.  What the operating system returns
  (sockets, interface addresses, memory) is an argument.  A frame is the list of bytes that
  \<open>recv\<close> stores; bytes of the capture buffer past the frame keep their old values, as in the
  source.  Messages to syslog are not part of the state.
\<close>

section \<open>Data\<close>

datatype dhcp_packet_direction_t = DHCP_RX | DHCP_TX

datatype dhcp_counters_type_t = DHCP_COUNTERS_CURRENT | DHCP_COUNTERS_SNAPSHOT

datatype dhcp_mon_status_t =
  DHCP_MON_STATUS_HEALTHY | DHCP_MON_STATUS_UNHEALTHY | DHCP_MON_STATUS_INDETERMINATE

datatype dhcp_type_t = DHCPv4_TYPE | DHCPv6_TYPE

datatype dhcp_mon_check_t = DHCP_MON_CHECK_NEGATIVE | DHCP_MON_CHECK_POSITIVE

type_synonym counter_table =
  "dhcp_counters_type_t \<Rightarrow> dhcp_packet_direction_t \<Rightarrow> nat \<Rightarrow> 64 word"

record counters_t =
  v4counters :: counter_table
  v6counters :: counter_table

record dhcp_device_context_t =
  sock :: int
  ipv4 :: "32 word"
  ipv6 :: mem
  mac :: mem
  giaddr_ip :: "32 word"
  v6_vlan_ip :: mem
  is_uplink :: bool
  intf :: string
  buffer :: mem
  snaplen :: nat
  counters :: counters_t

record device_module =
  dhcpv4_enabled :: bool
  dhcpv6_enabled :: bool
  aggregate_dev :: dhcp_device_context_t

definition zero_context :: dhcp_device_context_t where
  "zero_context = \<lparr>sock = 0, ipv4 = 0, ipv6 = replicate 16 0, mac = replicate 6 0, giaddr_ip = 0,
     v6_vlan_ip = replicate 16 0, is_uplink = False, intf = [], buffer = [], snaplen = 0,
     counters = \<lparr>v4counters = \<lambda>_ _ _. 0, v6counters = \<lambda>_ _ _. 0\<rparr>\<rparr>"

definition device_module_init :: device_module where
  "device_module_init =
     \<lparr>dhcpv4_enabled = False, dhcpv6_enabled = False, aggregate_dev = zero_context\<rparr>"

abbreviation IP_START_OFFSET :: nat where "IP_START_OFFSET \<equiv> 14"
abbreviation UDPv4_START_OFFSET :: nat where "UDPv4_START_OFFSET \<equiv> 34"
abbreviation DHCPv4_START_OFFSET :: nat where "DHCPv4_START_OFFSET \<equiv> 42"
abbreviation DHCPv4_OPTIONS_HEADER_SIZE :: nat where "DHCPv4_OPTIONS_HEADER_SIZE \<equiv> 240"
abbreviation DHCP_GIADDR_OFFSET :: nat where "DHCP_GIADDR_OFFSET \<equiv> 24"
abbreviation UDPv6_START_OFFSET :: nat where "UDPv6_START_OFFSET \<equiv> 54"
abbreviation DHCPv6_START_OFFSET :: nat where "DHCPv6_START_OFFSET \<equiv> 62"
abbreviation DHCPv6_RELAY_MSG_OPTIONS_OFFSET :: nat where "DHCPv6_RELAY_MSG_OPTIONS_OFFSET \<equiv> 34"
abbreviation IF_NAMESIZE :: nat where "IF_NAMESIZE \<equiv> 16"

definition dhcp_bpf_code :: "sock_filter list" where
  "dhcp_bpf_code = [
     Sock_Filter OP_LDHA 0 0 0xc,
     Sock_Filter OP_JEQ 0 9 0x86dd,
     Sock_Filter OP_LDB 0 0 0x14,
     Sock_Filter OP_JEQ 0 24 0x11,
     Sock_Filter OP_LDHA 0 0 0x36,
     Sock_Filter OP_JEQ 21 0 0x222,
     Sock_Filter OP_JEQ 20 0 0x223,
     Sock_Filter OP_JEQ 19 0 0x43,
     Sock_Filter OP_JEQ 18 0 0x44,
     Sock_Filter OP_LDHA 0 0 0x38,
     Sock_Filter OP_JEQ 16 13 0x222,
     Sock_Filter OP_JEQ 0 16 0x800,
     Sock_Filter OP_LDB 0 0 0x17,
     Sock_Filter OP_JEQ 0 14 0x11,
     Sock_Filter OP_LDHA 0 0 0x14,
     Sock_Filter OP_JSET 12 0 0x1fff,
     Sock_Filter OP_LDXB 0 0 0xe,
     Sock_Filter OP_LDHI 0 0 0xe,
     Sock_Filter OP_JEQ 8 0 0x222,
     Sock_Filter OP_JEQ 7 0 0x223,
     Sock_Filter OP_JEQ 6 0 0x43,
     Sock_Filter OP_JEQ 5 0 0x44,
     Sock_Filter OP_LDHI 0 0 0x10,
     Sock_Filter OP_JEQ 3 0 0x222,
     Sock_Filter OP_JEQ 2 0 0x223,
     Sock_Filter OP_JEQ 1 0 0x43,
     Sock_Filter OP_JEQ 0 1 0x44,
     Sock_Filter OP_RET 0 0 0x40000,
     Sock_Filter OP_RET 0 0 0x0
   ]"

definition v4_monitored_msgs :: "nat list" where
  "v4_monitored_msgs = [1, 2, 3, 5]"

definition v6_monitored_msgs :: "nat list" where
  "v6_monitored_msgs = [1, 2, 3, 7]"

section \<open>Counting a captured frame\<close>

definition bump :: "dhcp_packet_direction_t \<Rightarrow> nat \<Rightarrow> counter_table \<Rightarrow> counter_table" where
  "bump dir t tbl = (\<lambda>k d i.
     if k = DHCP_COUNTERS_CURRENT \<and> d = dir \<and> i = t then tbl k d i + 1 else tbl k d i)"

definition count_v4 :: "dhcp_packet_direction_t \<Rightarrow> nat \<Rightarrow> dhcp_device_context_t \<Rightarrow> dhcp_device_context_t" where
  "count_v4 dir t c = c\<lparr>counters := (counters c)\<lparr>v4counters := bump dir t (v4counters (counters c))\<rparr>\<rparr>"

definition count_v6 :: "dhcp_packet_direction_t \<Rightarrow> nat \<Rightarrow> dhcp_device_context_t \<Rightarrow> dhcp_device_context_t" where
  "count_v6 dir t c = c\<lparr>counters := (counters c)\<lparr>v6counters := bump dir t (v6counters (counters c))\<rparr>\<rparr>"

text \<open>The two increments that always go together: at the device and in the aggregate.\<close>

type_synonym capture_state = "device_module \<times> dhcp_device_context_t"

definition counted_v4 :: "dhcp_packet_direction_t \<Rightarrow> nat \<Rightarrow> capture_state \<Rightarrow> capture_state" where
  "counted_v4 dir t s =
     ((fst s)\<lparr>aggregate_dev := count_v4 dir t (aggregate_dev (fst s))\<rparr>, count_v4 dir t (snd s))"

definition counted_v6 :: "dhcp_packet_direction_t \<Rightarrow> nat \<Rightarrow> capture_state \<Rightarrow> capture_state" where
  "counted_v6 dir t s =
     ((fst s)\<lparr>aggregate_dev := count_v6 dir t (aggregate_dev (fst s))\<rparr>, count_v6 dir t (snd s))"

definition ntohl :: "32 word \<Rightarrow> 32 word" where
  "ntohl w = be32 (lo8 (lo16 w)) (hi8 (lo16 w)) (lo8 (hi16 w)) (hi8 (hi16 w))"

definition INADDR_BROADCAST :: "32 word" where
  "INADDR_BROADCAST = 0xffffffff"

definition handle_dhcp_option_53 ::
  "device_module \<Rightarrow> dhcp_device_context_t \<Rightarrow> nat \<Rightarrow> dhcp_packet_direction_t \<Rightarrow> nat \<Rightarrow> nat
   \<Rightarrow> capture_state option" where
  "handle_dhcp_option_53 g c dhcp_option dir iphdr dhcphdr = do {
     b \<leftarrow> rd8 (buffer c) (dhcp_option + 2);
     let t = unat b;
     if t \<in> {1, 3, 4, 7, 8} then do {
       g0 \<leftarrow> rd8 (buffer c) (dhcphdr + DHCP_GIADDR_OFFSET);
       g1 \<leftarrow> rd8 (buffer c) (dhcphdr + DHCP_GIADDR_OFFSET + 1);
       g2 \<leftarrow> rd8 (buffer c) (dhcphdr + DHCP_GIADDR_OFFSET + 2);
       g3 \<leftarrow> rd8 (buffer c) (dhcphdr + DHCP_GIADDR_OFFSET + 3);
       let giaddr = ntohl (be32 g0 g1 g2 g3);
       dst \<leftarrow> rd32le (buffer c) (iphdr + 16);
       Some (if (giaddr_ip c = giaddr \<and> is_uplink c \<and> dir = DHCP_TX) \<or>
                (\<not> is_uplink c \<and> dir = DHCP_RX \<and> dst = INADDR_BROADCAST)
             then counted_v4 dir t (g, c) else (g, c))
     } else if t \<in> {2, 5, 6} then do {
       dst \<leftarrow> rd32le (buffer c) (iphdr + 16);
       Some (if (giaddr_ip c = dst \<and> is_uplink c \<and> dir = DHCP_RX) \<or>
                (\<not> is_uplink c \<and> dir = DHCP_TX)
             then counted_v4 dir t (g, c) else (g, c))
     } else Some (g, c)
   }"

definition handle_dhcpv6_option ::
  "device_module \<Rightarrow> dhcp_device_context_t \<Rightarrow> byte \<Rightarrow> dhcp_packet_direction_t
   \<Rightarrow> capture_state" where
  "handle_dhcpv6_option g c dhcp_option dir =
     (let t = unat dhcp_option in
      if t \<in> {1, 3, 4, 5, 6, 8, 9, 2, 7, 10, 11}
      then counted_v6 dir t (g, c)
      else (g, c))"

text \<open>The loop over the DHCPv4 options; it ends at option 53, at option 255 or past the options.\<close>

function v4_option_loop ::
  "device_module \<Rightarrow> dhcp_device_context_t \<Rightarrow> dhcp_packet_direction_t \<Rightarrow> nat \<Rightarrow> nat \<Rightarrow> nat
   \<Rightarrow> capture_state option" where
  "v4_option_loop g c dir dhcp_option dhcp_option_sz offset =
     (if offset < dhcp_option_sz + 1 then
        (case rd8 (buffer c) (dhcp_option + offset) of
           None \<Rightarrow> None
         | Some code \<Rightarrow>
             if code = 255 then Some (g, c)
             else if code = 53 then
               (if offset < dhcp_option_sz + 2
                then handle_dhcp_option_53 g c (dhcp_option + offset) dir IP_START_OFFSET DHCPv4_START_OFFSET
                else Some (g, c))
             else if code = 0 then v4_option_loop g c dir dhcp_option dhcp_option_sz (offset + 1)
             else (case rd8 (buffer c) (dhcp_option + offset + 1) of
                     None \<Rightarrow> None
                   | Some l \<Rightarrow> v4_option_loop g c dir dhcp_option dhcp_option_sz (offset + unat l + 2)))
      else Some (g, c))"
  by pat_completeness auto
termination
  by (relation "measure (\<lambda>(g, c, dir, opt, sz, offset). sz + 1 - offset)") auto

declare v4_option_loop.simps [simp del]

text \<open>The two loops that walk through RELAY-FORWARD and RELAY-REPLY headers to the inner message.\<close>

function v6_find_relay_msg :: "mem \<Rightarrow> nat \<Rightarrow> nat \<Rightarrow> nat option" where
  "v6_find_relay_msg buf dhcp_option offset =
     (case rd16be buf (dhcp_option + offset) of
        None \<Rightarrow> None
      | Some opt \<Rightarrow>
          if opt = 9 then Some offset
          else (case rd16be buf (dhcp_option + offset + 2) of
                  None \<Rightarrow> None
                | Some l \<Rightarrow> v6_find_relay_msg buf dhcp_option (offset + 2 + unat l)))"
  by pat_completeness auto
termination
  by (relation "measure (\<lambda>(buf, opt, offset). length buf - (opt + offset))")
     (auto simp: rd16be_def split: if_splits)

declare v6_find_relay_msg.simps [simp del]

lemma v6_find_relay_msg_bounds:
  "v6_find_relay_msg buf opt offset = Some o' \<Longrightarrow> offset \<le> o' \<and> opt + o' + 2 \<le> length buf"
proof (induction buf opt offset rule: v6_find_relay_msg.induct)
  case (1 buf opt offset)
  obtain w where w: "rd16be buf (opt + offset) = Some w"
    using "1.prems" by (subst (asm) v6_find_relay_msg.simps) (auto split: option.splits)
  show ?case
  proof (cases "w = 9")
    case True
    thus ?thesis using "1.prems" w
      by (subst (asm) v6_find_relay_msg.simps) (auto simp: rd16be_def split: if_splits)
  next
    case False
    then obtain l where l: "rd16be buf (opt + offset + 2) = Some l"
      "v6_find_relay_msg buf opt (offset + 2 + unat l) = Some o'"
      using "1.prems" w by (subst (asm) v6_find_relay_msg.simps) (auto split: option.splits)
    show ?thesis using "1.IH" [OF w False l] by simp
  qed
qed

function v6_inner_offset :: "mem \<Rightarrow> nat \<Rightarrow> nat \<Rightarrow> nat option" where
  "v6_inner_offset buf dhcp_option offset =
     (case rd8 buf (dhcp_option + offset) of
        None \<Rightarrow> None
      | Some t \<Rightarrow>
          if t = 12 \<or> t = 13 then
            (case v6_find_relay_msg buf dhcp_option (offset + DHCPv6_RELAY_MSG_OPTIONS_OFFSET) of
               None \<Rightarrow> None
             | Some offset' \<Rightarrow> v6_inner_offset buf dhcp_option (offset' + 4))
          else Some offset)"
  by pat_completeness auto
termination
  by (relation "measure (\<lambda>(buf, opt, offset). length buf - (opt + offset))")
     (auto simp: rd8_def split: if_splits dest!: v6_find_relay_msg_bounds)

declare v6_inner_offset.simps [simp del]

definition direction_of :: "dhcp_device_context_t \<Rightarrow> dhcp_packet_direction_t" where
  "direction_of c = (if take 6 (drop 6 (buffer c)) = mac c then DHCP_TX else DHCP_RX)"

definition process_frame ::
  "device_module \<Rightarrow> dhcp_device_context_t \<Rightarrow> nat \<Rightarrow> capture_state option" where
  "process_frame g c buffer_sz = do {
     ether_type \<leftarrow> rd16be (buffer c) 12;
     if ether_type = 0x0800 then
       if dhcpv4_enabled g \<and> buffer_sz > UDPv4_START_OFFSET + 8 + DHCPv4_OPTIONS_HEADER_SIZE then do {
         udp_len \<leftarrow> rd16be (buffer c) (UDPv4_START_OFFSET + 4);
         if unat udp_len > DHCPv4_OPTIONS_HEADER_SIZE then
           (let dhcp_sz = (if unat udp_len < buffer_sz - UDPv4_START_OFFSET - 8
                           then unat udp_len else buffer_sz - UDPv4_START_OFFSET - 8);
                dhcp_option_sz = dhcp_sz - DHCPv4_OPTIONS_HEADER_SIZE
            in v4_option_loop g c (direction_of c) (DHCPv4_START_OFFSET + DHCPv4_OPTIONS_HEADER_SIZE)
                 dhcp_option_sz 0)
         else Some (g, c)
       } else Some (g, c)
     else if dhcpv6_enabled g \<and> buffer_sz > UDPv6_START_OFFSET + 8 + 1 then do {
       offset \<leftarrow> v6_inner_offset (buffer c) DHCPv6_START_OFFSET 0;
       t \<leftarrow> rd8 (buffer c) (DHCPv6_START_OFFSET + offset);
       Some (handle_dhcpv6_option g c t (direction_of c))
     } else Some (g, c)
   }"

text \<open>\<open>recv\<close> stores at most \<open>snaplen\<close> bytes of the queued frame and returns their number.\<close>

definition recv_frame :: "dhcp_device_context_t \<Rightarrow> mem \<Rightarrow> dhcp_device_context_t \<times> nat" where
  "recv_frame c frame =
     (let d = take (snaplen c) frame
      in (c\<lparr>buffer := d @ drop (length d) (buffer c)\<rparr>, length d))"

fun read_callback ::
  "device_module \<Rightarrow> dhcp_device_context_t \<Rightarrow> mem list \<Rightarrow> capture_state option" where
  "read_callback g c [] = Some (g, c)"
| "read_callback g c (frame # queued) =
     (let (c', buffer_sz) = recv_frame c frame in
      if buffer_sz > 0 then
        (case process_frame g c' buffer_sz of
           None \<Rightarrow> None
         | Some (g'', c'') \<Rightarrow> read_callback g'' c'' queued)
      else Some (g, c'))"

section \<open>Health of the counters\<close>

definition dhcp_device_is_dhcp_inactive :: "counter_table \<Rightarrow> counter_table \<Rightarrow> dhcp_type_t \<Rightarrow> bool" where
  "dhcp_device_is_dhcp_inactive v4 v6 type =
     (case type of
        DHCPv4_TYPE \<Rightarrow> list_all (\<lambda>m. v4 DHCP_COUNTERS_CURRENT DHCP_RX m = v4 DHCP_COUNTERS_SNAPSHOT DHCP_RX m)
                         v4_monitored_msgs
      | DHCPv6_TYPE \<Rightarrow> list_all (\<lambda>m. v6 DHCP_COUNTERS_CURRENT DHCP_RX m = v6 DHCP_COUNTERS_SNAPSHOT DHCP_RX m)
                         v6_monitored_msgs)"

definition dhcp_device_is_dhcpv4_msg_unhealthy :: "nat \<Rightarrow> counter_table \<Rightarrow> bool" where
  "dhcp_device_is_dhcpv4_msg_unhealthy type v4 \<longleftrightarrow>
     v4 DHCP_COUNTERS_CURRENT DHCP_RX type > v4 DHCP_COUNTERS_SNAPSHOT DHCP_RX type \<and>
     v4 DHCP_COUNTERS_CURRENT DHCP_TX type \<le> v4 DHCP_COUNTERS_SNAPSHOT DHCP_TX type"

definition dhcp_device_is_dhcpv6_msg_unhealthy :: "nat \<Rightarrow> counter_table \<Rightarrow> bool" where
  "dhcp_device_is_dhcpv6_msg_unhealthy type v6 \<longleftrightarrow>
     v6 DHCP_COUNTERS_CURRENT DHCP_RX type > v6 DHCP_COUNTERS_SNAPSHOT DHCP_RX type \<and>
     v6 DHCP_COUNTERS_CURRENT DHCP_TX type \<le> v6 DHCP_COUNTERS_SNAPSHOT DHCP_TX type"

definition dhcp_device_check_positive_health ::
  "counter_table \<Rightarrow> counter_table \<Rightarrow> dhcp_type_t \<Rightarrow> dhcp_mon_status_t" where
  "dhcp_device_check_positive_health v4 v6 type =
     (let is_dhcp_unhealthy =
        (case type of
           DHCPv4_TYPE \<Rightarrow> list_ex (\<lambda>m. dhcp_device_is_dhcpv4_msg_unhealthy m v4) v4_monitored_msgs
         | DHCPv6_TYPE \<Rightarrow> list_ex (\<lambda>m. dhcp_device_is_dhcpv6_msg_unhealthy m v6) v6_monitored_msgs)
      in if is_dhcp_unhealthy then DHCP_MON_STATUS_UNHEALTHY else DHCP_MON_STATUS_HEALTHY)"

definition dhcp_device_check_negative_health ::
  "counter_table \<Rightarrow> counter_table \<Rightarrow> dhcp_type_t \<Rightarrow> dhcp_mon_status_t" where
  "dhcp_device_check_negative_health v4 v6 type =
     (let is_dhcp_unhealthy =
        (case type of
           DHCPv4_TYPE \<Rightarrow> list_ex (\<lambda>m. v4 DHCP_COUNTERS_CURRENT DHCP_TX m > v4 DHCP_COUNTERS_SNAPSHOT DHCP_TX m)
                            v4_monitored_msgs
         | DHCPv6_TYPE \<Rightarrow> list_ex (\<lambda>m. v6 DHCP_COUNTERS_CURRENT DHCP_TX m > v6 DHCP_COUNTERS_SNAPSHOT DHCP_TX m)
                            v6_monitored_msgs)
      in if is_dhcp_unhealthy then DHCP_MON_STATUS_UNHEALTHY else DHCP_MON_STATUS_HEALTHY)"

definition dhcp_device_check_health ::
  "device_module \<Rightarrow> dhcp_mon_check_t \<Rightarrow> counter_table \<Rightarrow> counter_table \<Rightarrow> dhcp_type_t
   \<Rightarrow> dhcp_mon_status_t" where
  "dhcp_device_check_health g check_type v4 v6 type =
     (if dhcp_device_is_dhcp_inactive (v4counters (counters (aggregate_dev g)))
           (v6counters (counters (aggregate_dev g))) type
      then DHCP_MON_STATUS_INDETERMINATE
      else if check_type = DHCP_MON_CHECK_POSITIVE then dhcp_device_check_positive_health v4 v6 type
      else dhcp_device_check_negative_health v4 v6 type)"

definition dhcp_device_get_status ::
  "device_module \<Rightarrow> dhcp_mon_check_t \<Rightarrow> dhcp_device_context_t option \<Rightarrow> dhcp_type_t
   \<Rightarrow> dhcp_mon_status_t" where
  "dhcp_device_get_status g check_type context type =
     (case context of
        None \<Rightarrow> DHCP_MON_STATUS_HEALTHY
      | Some c \<Rightarrow> dhcp_device_check_health g check_type (v4counters (counters c)) (v6counters (counters c)) type)"

definition take_snapshot :: "counter_table \<Rightarrow> counter_table" where
  "take_snapshot tbl = tbl(DHCP_COUNTERS_SNAPSHOT := tbl DHCP_COUNTERS_CURRENT)"

definition dhcp_device_update_snapshot ::
  "device_module \<Rightarrow> dhcp_device_context_t \<Rightarrow> dhcp_device_context_t" where
  "dhcp_device_update_snapshot g c =
     (let c = (if dhcpv4_enabled g
               then c\<lparr>counters := (counters c)\<lparr>v4counters := take_snapshot (v4counters (counters c))\<rparr>\<rparr> else c)
      in if dhcpv6_enabled g
         then c\<lparr>counters := (counters c)\<lparr>v6counters := take_snapshot (v6counters (counters c))\<rparr>\<rparr> else c)"

definition dhcp_print_counters ::
  "string \<Rightarrow> dhcp_counters_type_t \<Rightarrow> (dhcp_packet_direction_t \<Rightarrow> nat \<Rightarrow> 64 word)
   \<Rightarrow> (dhcp_packet_direction_t \<Rightarrow> nat \<Rightarrow> 64 word) \<Rightarrow> (string \<times> string \<times> (string \<times> 64 word \<times> 64 word) list) list" where
  "dhcp_print_counters vlan_intf type v4 v6 =
     (let desc = (case type of DHCP_COUNTERS_CURRENT \<Rightarrow> '' Current'' | DHCP_COUNTERS_SNAPSHOT \<Rightarrow> ''Snapshot'')
      in [(vlan_intf, desc,
           [(''Discover'', v4 DHCP_RX 1, v4 DHCP_TX 1), (''Offer'', v4 DHCP_RX 2, v4 DHCP_TX 2),
            (''Request'', v4 DHCP_RX 3, v4 DHCP_TX 3), (''ACK'', v4 DHCP_RX 5, v4 DHCP_TX 5)]),
          (vlan_intf, desc,
           [(''Solicit'', v6 DHCP_RX 1, v6 DHCP_TX 1), (''Advertise'', v6 DHCP_RX 2, v6 DHCP_TX 2),
            (''Request'', v6 DHCP_RX 3, v6 DHCP_TX 3), (''Reply'', v6 DHCP_RX 7, v6 DHCP_TX 7)])])"

definition dhcp_device_print_status ::
  "dhcp_device_context_t option \<Rightarrow> dhcp_counters_type_t
   \<Rightarrow> (string \<times> string \<times> (string \<times> 64 word \<times> 64 word) list) list" where
  "dhcp_device_print_status context type =
     (case context of
        None \<Rightarrow> []
      | Some c \<Rightarrow> dhcp_print_counters (intf c) type (v4counters (counters c) type) (v6counters (counters c) type))"

definition dhcp_device_active_types :: "bool \<Rightarrow> bool \<Rightarrow> device_module \<Rightarrow> device_module" where
  "dhcp_device_active_types dhcpv4 dhcpv6 g = g\<lparr>dhcpv4_enabled := dhcpv4, dhcpv6_enabled := dhcpv6\<rparr>"

section \<open>Opening a device\<close>

text \<open>What the operating system answers while a device is opened.\<close>

record intf_os =
  os_sock :: int
  os_bind :: int
  os_inet_sock :: int
  os_ifaddr :: "32 word option"
  os_hwaddr :: "mem option"
  os_ifaddrs :: "(string \<times> mem option) list option"

definition init_socket :: "intf_os \<Rightarrow> dhcp_device_context_t \<Rightarrow> string \<Rightarrow> int \<times> dhcp_device_context_t" where
  "init_socket os c name =
     (let c = c\<lparr>sock := os_sock os\<rparr> in
      if sock c < 0 then (-1, c)
      else if os_bind os \<noteq> 0 then (-1, c)
      else (0, c\<lparr>intf := take (IF_NAMESIZE - 1) name\<rparr>))"

definition usable_v6 :: "string \<Rightarrow> string \<times> mem option \<Rightarrow> bool" where
  "usable_v6 name ifa =
     (take IF_NAMESIZE (fst ifa) = take IF_NAMESIZE name \<and>
      (case snd ifa of None \<Rightarrow> False | Some a \<Rightarrow> rd16le a 0 \<noteq> Some 0x80fe))"

definition initialize_intf_mac_and_ip_addr ::
  "intf_os \<Rightarrow> dhcp_device_context_t \<Rightarrow> int \<times> dhcp_device_context_t" where
  "initialize_intf_mac_and_ip_addr os c =
     (if os_inet_sock os = -1 then (-1, c)
      else (case os_ifaddr os of
        None \<Rightarrow> (-1, c)
      | Some a \<Rightarrow> (let c = c\<lparr>ipv4 := a\<rparr> in
          (case os_hwaddr os of
             None \<Rightarrow> (-1, c)
           | Some hw \<Rightarrow> (let c = c\<lparr>mac := take 6 hw, ipv6 := replicate 16 0\<rparr> in
               (case os_ifaddrs os of
                  None \<Rightarrow> (-1, c)
                | Some ifas \<Rightarrow>
                    (0, foldl (\<lambda>c ifa. if usable_v6 (intf c) ifa then c\<lparr>ipv6 := the (snd ifa)\<rparr> else c)
                          c ifas)))))))"

definition dhcp_device_get_ipv4 :: "dhcp_device_context_t option \<Rightarrow> 32 word \<Rightarrow> int \<times> 32 word" where
  "dhcp_device_get_ipv4 context ip = (case context of None \<Rightarrow> (-1, ip) | Some c \<Rightarrow> (0, ipv4 c))"

definition dhcp_device_get_ipv6 :: "dhcp_device_context_t option \<Rightarrow> mem \<Rightarrow> int \<times> mem" where
  "dhcp_device_get_ipv6 context ip = (case context of None \<Rightarrow> (-1, ip) | Some c \<Rightarrow> (0, ipv6 c))"

text \<open>
  The second argument is the block that \<open>malloc\<close> returns, with whatever it contains.  When there is
  none the source reads \<open>dev_context->intf\<close> through the null pointer for its message.
\<close>

definition dhcp_device_init ::
  "intf_os \<Rightarrow> dhcp_device_context_t option \<Rightarrow> dhcp_device_context_t option \<Rightarrow> string \<Rightarrow> bool
   \<Rightarrow> (int \<times> dhcp_device_context_t option) option" where
  "dhcp_device_init os malloc_block context name uplink =
     (if length name < IF_NAMESIZE then
        (case malloc_block of
           None \<Rightarrow> None
         | Some c0 \<Rightarrow>
             (let (rv, c1) = init_socket os c0 name in
              if rv = 0 then
                (let (rv2, c2) = initialize_intf_mac_and_ip_addr os c1 in
                 if rv2 = 0 then
                   Some (0, Some (c2\<lparr>is_uplink := uplink,
                                     counters := \<lparr>v4counters = \<lambda>_ _ _. 0, v6counters = \<lambda>_ _ _. 0\<rparr>\<rparr>))
                 else Some (-1, context))
              else Some (-1, context)))
      else Some (-1, context))"

definition dhcp_device_start_capture ::
  "device_module \<Rightarrow> dhcp_device_context_t option \<Rightarrow> nat \<Rightarrow> 32 word \<Rightarrow> mem \<Rightarrow> mem option \<Rightarrow> int \<Rightarrow> bool
   \<Rightarrow> int \<times> dhcp_device_context_t option" where
  "dhcp_device_start_capture g context len giaddr vlan_ip malloc_block attach ev_created =
     (case context of
        None \<Rightarrow> (-1, None)
      | Some c \<Rightarrow>
          if dhcpv4_enabled g \<and> len < UDPv4_START_OFFSET + 8 + DHCPv4_OPTIONS_HEADER_SIZE then (-1, Some c)
          else if dhcpv6_enabled g \<and> len < DHCPv6_START_OFFSET + 1 then (-1, Some c)
          else (let c = c\<lparr>giaddr_ip := giaddr, v6_vlan_ip := vlan_ip\<rparr> in
            (case malloc_block of
               None \<Rightarrow> (-1, Some (c\<lparr>buffer := []\<rparr>))
             | Some m \<Rightarrow> (let c = c\<lparr>buffer := m, snaplen := len\<rparr> in
                 if attach \<noteq> 0 then (-1, Some c)
                 else if \<not> ev_created then (-1, Some c)
                 else (0, Some c)))))"

section \<open>The capture filter\<close>

text \<open>
  The filter expression that the comment of \<open>dhcp_bpf_code\<close> gives, read off the frame: UDP over IPv6
  (no extension header) or unfragmented UDP over IPv4, with a DHCP port at either end.
\<close>

definition dhcp_port :: "16 word option \<Rightarrow> bool" where
  "dhcp_port p \<longleftrightarrow> p \<in> {Some 546, Some 547, Some 67, Some 68}"

definition dhcp_frame :: "mem \<Rightarrow> bool" where
  "dhcp_frame pkt \<longleftrightarrow>
     (rd16be pkt 12 = Some 0x86dd \<and> rd8 pkt 20 = Some 17 \<and>
        (dhcp_port (rd16be pkt 54) \<or> dhcp_port (rd16be pkt 56))) \<or>
     (rd16be pkt 12 = Some 0x0800 \<and> rd8 pkt 23 = Some 17 \<and>
        (\<exists>frag ihl. rd16be pkt 20 = Some frag \<and> frag AND 0x1fff = 0 \<and> rd8 pkt 14 = Some ihl \<and>
          (dhcp_port (rd16be pkt (4 * unat (ihl AND 0xf) + 14)) \<or>
           dhcp_port (rd16be pkt (4 * unat (ihl AND 0xf) + 16)))))"

lemma dhcp_port_simps:
  "dhcp_port None = False"
  "dhcp_port (Some p) = (p = 546 \<or> p = 547 \<or> p = 67 \<or> p = 68)"
  by (simp_all add: dhcp_port_def)

lemma dhcp_bpf_at:
  "length dhcp_bpf_code = 29"
  "dhcp_bpf_code ! 0 = Sock_Filter OP_LDHA 0 0 0xc"
  "dhcp_bpf_code ! Suc 0 = Sock_Filter OP_JEQ 0 9 0x86dd"
  "dhcp_bpf_code ! 2 = Sock_Filter OP_LDB 0 0 0x14"
  "dhcp_bpf_code ! 3 = Sock_Filter OP_JEQ 0 24 0x11"
  "dhcp_bpf_code ! 4 = Sock_Filter OP_LDHA 0 0 0x36"
  "dhcp_bpf_code ! 5 = Sock_Filter OP_JEQ 21 0 0x222"
  "dhcp_bpf_code ! 6 = Sock_Filter OP_JEQ 20 0 0x223"
  "dhcp_bpf_code ! 7 = Sock_Filter OP_JEQ 19 0 0x43"
  "dhcp_bpf_code ! 8 = Sock_Filter OP_JEQ 18 0 0x44"
  "dhcp_bpf_code ! 9 = Sock_Filter OP_LDHA 0 0 0x38"
  "dhcp_bpf_code ! 10 = Sock_Filter OP_JEQ 16 13 0x222"
  "dhcp_bpf_code ! 11 = Sock_Filter OP_JEQ 0 16 0x800"
  "dhcp_bpf_code ! 12 = Sock_Filter OP_LDB 0 0 0x17"
  "dhcp_bpf_code ! 13 = Sock_Filter OP_JEQ 0 14 0x11"
  "dhcp_bpf_code ! 14 = Sock_Filter OP_LDHA 0 0 0x14"
  "dhcp_bpf_code ! 15 = Sock_Filter OP_JSET 12 0 0x1fff"
  "dhcp_bpf_code ! 16 = Sock_Filter OP_LDXB 0 0 0xe"
  "dhcp_bpf_code ! 17 = Sock_Filter OP_LDHI 0 0 0xe"
  "dhcp_bpf_code ! 18 = Sock_Filter OP_JEQ 8 0 0x222"
  "dhcp_bpf_code ! 19 = Sock_Filter OP_JEQ 7 0 0x223"
  "dhcp_bpf_code ! 20 = Sock_Filter OP_JEQ 6 0 0x43"
  "dhcp_bpf_code ! 21 = Sock_Filter OP_JEQ 5 0 0x44"
  "dhcp_bpf_code ! 22 = Sock_Filter OP_LDHI 0 0 0x10"
  "dhcp_bpf_code ! 23 = Sock_Filter OP_JEQ 3 0 0x222"
  "dhcp_bpf_code ! 24 = Sock_Filter OP_JEQ 2 0 0x223"
  "dhcp_bpf_code ! 25 = Sock_Filter OP_JEQ 1 0 0x43"
  "dhcp_bpf_code ! 26 = Sock_Filter OP_JEQ 0 1 0x44"
  "dhcp_bpf_code ! 27 = Sock_Filter OP_RET 0 0 0x40000"
  "dhcp_bpf_code ! 28 = Sock_Filter OP_RET 0 0 0x0"
  by (simp_all add: dhcp_bpf_code_def)

lemmas dhcp_bpf_exec =
  numeral_2_eq_2 [symmetric] bpf_exec_rules dhcp_bpf_at ucast16_eq ucast8_eq ucast16_and_0x1fff
  unat_ihl_offset bpf_accepts_def bpf_run_def dhcp_frame_def dhcp_port_simps

lemma dhcp_filter_v6:
  assumes "rd16be pkt 12 = Some 0x86dd"
  shows "bpf_accepts dhcp_bpf_code pkt = dhcp_frame pkt"
  using assms rd16be_None_mono [of pkt 54 56]
  by (cases "rd8 pkt 20"; cases "rd16be pkt 54"; cases "rd16be pkt 56")
     (simp_all add: dhcp_bpf_exec cong: if_cong option.case_cong)

lemma dhcp_filter_not_v6:
  assumes "rd16be pkt 12 \<noteq> Some 0x86dd"
  shows "bpf_accepts dhcp_bpf_code pkt = dhcp_frame pkt"
proof -
  define ports where "ports = 4 * unat (the (rd8 pkt 14) AND 0xf)"
  show ?thesis
    using assms rd16be_None_mono [of pkt "ports + 14" "ports + 16"]
    by (cases "rd16be pkt 12"; cases "rd8 pkt 23"; cases "rd16be pkt 20"; cases "rd8 pkt 14";
        cases "rd16be pkt (ports + 14)"; cases "rd16be pkt (ports + 16)")
       (simp_all add: ports_def dhcp_bpf_exec cong: if_cong option.case_cong)
qed

text \<open>
  C20.  The BPF program that dhcpmon attaches to its sockets accepts a frame exactly when the frame is
  UDP over IPv4 or IPv6 with source or destination port 67, 68, 546 or 547, as the comment on the
  program says: for IPv4 the ports are found behind the header length field and fragments other
  than the first are dropped, and a frame too short for a field that is consulted is dropped.
\<close>
theorem dhcp_filter_exact: "bpf_accepts dhcp_bpf_code pkt \<longleftrightarrow> dhcp_frame pkt"
  using dhcp_filter_v6 dhcp_filter_not_v6 by blast

section \<open>What one frame does to the counters\<close>

text \<open>A frame leaves the state alone or counts one message at the device and in the aggregate.\<close>

inductive frame_effect :: "capture_state \<Rightarrow> capture_state \<Rightarrow> bool" where
  ignored: "frame_effect s s"
| v4: "t \<in> {1, 3, 4, 7, 8, 2, 5, 6} \<Longrightarrow> frame_effect s (counted_v4 dir t s)"
| v6: "t \<in> {1, 3, 4, 5, 6, 8, 9, 2, 7, 10, 11} \<Longrightarrow> frame_effect s (counted_v6 dir t s)"

lemma handle_dhcp_option_53_effect:
  "handle_dhcp_option_53 g c opt dir ip hdr = Some s \<Longrightarrow> frame_effect (g, c) s"
  by (auto simp: handle_dhcp_option_53_def Let_def bind_eq_Some_conv simp del: insert_iff
      split: if_splits intro: frame_effect.intros)

lemma handle_dhcpv6_option_effect: "frame_effect (g, c) (handle_dhcpv6_option g c b dir)"
  by (simp add: handle_dhcpv6_option_def Let_def frame_effect.intros del: insert_iff)

lemma v4_option_loop_effect:
  "v4_option_loop g c dir opt sz offset = Some s \<Longrightarrow> frame_effect (g, c) s"
proof (induction g c dir opt sz offset rule: v4_option_loop.induct)
  case (1 g c dir opt sz offset)
  show ?case
  proof (cases "offset < sz + 1")
    case False
    thus ?thesis using "1.prems" by (simp add: v4_option_loop.simps [of g] frame_effect.ignored)
  next
    case True
    then obtain code where "rd8 (buffer c) (opt + offset) = Some code"
      using "1.prems" by (auto simp: v4_option_loop.simps [of g] split: option.splits)
    thus ?thesis using "1.prems" "1.IH" True
      by (auto simp: v4_option_loop.simps [of g _ _ _ _ offset] split: option.splits if_splits
          intro: frame_effect.ignored handle_dhcp_option_53_effect)
  qed
qed

lemma process_frame_effect: "process_frame g c n = Some s \<Longrightarrow> frame_effect (g, c) s"
  by (auto simp: process_frame_def bind_eq_Some_conv Let_def split: if_splits
      intro: frame_effect.ignored v4_option_loop_effect handle_dhcpv6_option_effect)
lemma bump_simps:
  "bump dir t tbl DHCP_COUNTERS_SNAPSHOT = tbl DHCP_COUNTERS_SNAPSHOT"
  "bump dir t tbl k d i - bump dir t tbl' k d i = tbl k d i - tbl' k d i"
  by (simp_all add: bump_def)

definition v4_of :: "dhcp_device_context_t \<Rightarrow> counter_table" where "v4_of c = v4counters (counters c)"
definition v6_of :: "dhcp_device_context_t \<Rightarrow> counter_table" where "v6_of c = v6counters (counters c)"

text \<open>
  The relation between the state before and after any number of frames: the difference between the
  aggregate and the device counters is kept, and the snapshots and the protocol flags are untouched.
\<close>

definition lockstep :: "capture_state \<Rightarrow> capture_state \<Rightarrow> bool" where
  "lockstep s s' \<longleftrightarrow>
     (\<forall>k d t. v4_of (aggregate_dev (fst s')) k d t - v4_of (snd s') k d t =
              v4_of (aggregate_dev (fst s)) k d t - v4_of (snd s) k d t) \<and>
     (\<forall>k d t. v6_of (aggregate_dev (fst s')) k d t - v6_of (snd s') k d t =
              v6_of (aggregate_dev (fst s)) k d t - v6_of (snd s) k d t) \<and>
     v4_of (snd s') DHCP_COUNTERS_SNAPSHOT = v4_of (snd s) DHCP_COUNTERS_SNAPSHOT \<and>
     v6_of (snd s') DHCP_COUNTERS_SNAPSHOT = v6_of (snd s) DHCP_COUNTERS_SNAPSHOT \<and>
     dhcpv4_enabled (fst s') = dhcpv4_enabled (fst s) \<and>
     dhcpv6_enabled (fst s') = dhcpv6_enabled (fst s)"

lemma lockstep_refl: "lockstep s s"
  by (simp add: lockstep_def)

lemma lockstep_trans: "lockstep s s' \<Longrightarrow> lockstep s' s'' \<Longrightarrow> lockstep s s''"
  by (simp add: lockstep_def)

lemma frame_effect_lockstep: "frame_effect s s' \<Longrightarrow> lockstep s s'"
  by (induction rule: frame_effect.induct)
     (simp_all add: lockstep_def counted_v4_def counted_v6_def count_v4_def count_v6_def v4_of_def
       v6_of_def bump_simps)

lemma recv_frame_lockstep: "lockstep (g, c) (g, fst (recv_frame c frame))"
  by (simp add: lockstep_def recv_frame_def Let_def v4_of_def v6_of_def)

lemma read_callback_lockstep: "read_callback g c frames = Some s \<Longrightarrow> lockstep (g, c) s"
proof (induction g c frames arbitrary: s rule: read_callback.induct)
  case (1 g c)
  thus ?case by (simp add: lockstep_refl)
next
  case (2 g c frame queued)
  obtain c' n where r: "recv_frame c frame = (c', n)" by fastforce
  have first: "lockstep (g, c) (g, c')" using recv_frame_lockstep [of g c frame] r by simp
  show ?case
  proof (cases "n > 0")
    case False
    thus ?thesis using "2.prems" r first by simp
  next
    case True
    then obtain g'' c'' where p: "process_frame g c' n = Some (g'', c'')"
      and rest: "read_callback g'' c'' queued = Some s"
      using "2.prems" r by (auto split: option.splits)
    have "lockstep (g, c') (g'', c'')"
      by (rule frame_effect_lockstep [OF process_frame_effect [OF p]])
    moreover have "lockstep (g'', c'') s"
      by (rule "2.IH" [OF r [symmetric] refl True p refl rest])
    ultimately show ?thesis using first lockstep_trans by blast
  qed
qed

section \<open>Bounds of the DHCPv4 option loop\<close>

lemma handle_dhcp_option_53_in_bounds:
  assumes "opt + 2 < length (buffer c)" "70 \<le> length (buffer c)"
  shows "handle_dhcp_option_53 g c opt dir IP_START_OFFSET DHCPv4_START_OFFSET \<noteq> None"
  using assms by (simp add: handle_dhcp_option_53_def rd8_def rd32le_def Let_def)

lemma v4_option_loop_in_bounds:
  "opt + sz + 3 \<le> length (buffer c) \<Longrightarrow> 70 \<le> length (buffer c) \<Longrightarrow>
   v4_option_loop g c dir opt sz offset \<noteq> None"
proof (induction g c dir opt sz offset rule: v4_option_loop.induct)
  case (1 g c dir opt sz offset)
  show ?case
  proof (cases "offset < sz + 1")
    case False
    thus ?thesis by (simp add: v4_option_loop.simps [of g])
  next
    case True
    have code: "rd8 (buffer c) (opt + offset) = Some (buffer c ! (opt + offset))"
      "rd8 (buffer c) (opt + offset + 1) = Some (buffer c ! (opt + offset + 1))"
      using True "1.prems"(1) by (simp_all add: rd8_def)
    have h: "handle_dhcp_option_53 g c (opt + offset) dir IP_START_OFFSET DHCPv4_START_OFFSET \<noteq> None"
      using True "1.prems" by (intro handle_dhcp_option_53_in_bounds) simp_all
    show ?thesis
      using True code h "1.IH" "1.prems"
      by (subst v4_option_loop.simps) (simp split: option.split)
  qed
qed

text \<open>
  C24.  An IPv4 frame never makes the option loop read outside the capture buffer as long as the frame is
  at least three bytes shorter than the buffer: the loop ends and every byte it looks at lies in
  the buffer, whatever the frame contains.
\<close>

theorem v4_frame_in_bounds:
  assumes "n + 3 \<le> length (buffer c)" "rd16be (buffer c) 12 = Some 0x0800"
  shows "process_frame g c n \<noteq> None"
proof (cases "n > 282")
  case True
  hence udp: "rd16be (buffer c) 38 = Some (be16 (buffer c ! 38) (buffer c ! 39))"
    using assms(1) by (simp add: rd16be_def)
  show ?thesis
    using assms True udp
    by (simp add: process_frame_def Let_def v4_option_loop_in_bounds del: not_None_eq)
next
  case False
  thus ?thesis using assms by (simp add: process_frame_def)
qed


theorem v4_frame_in_bounds_witness:
  "process_frame device_module_init (zero_context\<lparr>buffer := replicate 12 0 @ [8, 0] @ replicate 1000 0\<rparr>) 600
     \<noteq> None"
  by (rule v4_frame_in_bounds) (simp_all add: rd16be_def be16_eval nth_append)

lemma v4_pads_overrun:
  "length (buffer c) = opt + sz \<Longrightarrow> \<forall>i. offset \<le> i \<and> i < sz \<longrightarrow> buffer c ! (opt + i) = 0 \<Longrightarrow> offset \<le> sz \<Longrightarrow>
   v4_option_loop g c dir opt sz offset = None"
proof (induction "sz - offset" arbitrary: offset)
  case 0
  thus ?case by (subst v4_option_loop.simps) (simp add: rd8_def)
next
  case (Suc k)
  hence "v4_option_loop g c dir opt sz (offset + 1) = None" by simp
  thus ?case using Suc by (subst v4_option_loop.simps) (simp add: rd8_def)
qed

text \<open>
  The loop bound is too generous by one.  When the captured frame fills the buffer to its last byte
  and the options are padding, the loop goes on to read the byte behind the buffer.
\<close>

theorem v4_option_loop_overruns_buffer:
  "v4_option_loop g (c\<lparr>buffer := hdr @ replicate sz 0\<rparr>) dir (length hdr) sz 0 = None"
  by (rule v4_pads_overrun) (simp_all add: nth_append)

section \<open>Parsing of well-formed options\<close>

datatype dhcp_opt = Pad | Opt byte mem

fun enc_opt :: "dhcp_opt \<Rightarrow> mem" where
  "enc_opt Pad = [0]"
| "enc_opt (Opt code d) = code # of_nat (length d) # d"

fun plain_opt :: "dhcp_opt \<Rightarrow> bool" where
  "plain_opt Pad = True"
| "plain_opt (Opt code d) = (code \<notin> {0, 53, 255} \<and> length d < 256)"

definition enc_opts :: "dhcp_opt list \<Rightarrow> mem" where
  "enc_opts os = concat (map enc_opt os)"

lemma v4_option_loop_skip:
  assumes "buffer c = pre @ enc_opt p @ rest" "length pre = opt + offset" "plain_opt p" "offset \<le> sz"
  shows "v4_option_loop g c dir opt sz offset =
         v4_option_loop g c dir opt sz (offset + length (enc_opt p))"
proof (cases p)
  case Pad
  hence "rd8 (buffer c) (opt + offset) = Some 0"
    using assms by (simp add: rd8_def nth_append)
  thus ?thesis using assms(4) Pad by (subst v4_option_loop.simps) simp
next
  case (Opt code d)
  have "rd8 (buffer c) (opt + offset) = Some code"
    "rd8 (buffer c) (opt + offset + 1) = Some (of_nat (length d))"
    using assms Opt by (simp_all add: rd8_def nth_append)
  moreover have "unat (of_nat (length d) :: byte) = length d"
    using assms(3) Opt by (simp add: unat_of_nat)
  ultimately show ?thesis using assms(3,4) Opt by (subst v4_option_loop.simps) simp
qed

lemma v4_option_loop_skips:
  "buffer c = pre @ enc_opts os @ rest \<Longrightarrow> length pre = opt + offset \<Longrightarrow> list_all plain_opt os \<Longrightarrow>
   offset + length (enc_opts os) \<le> sz \<Longrightarrow>
   v4_option_loop g c dir opt sz offset = v4_option_loop g c dir opt sz (offset + length (enc_opts os))"
proof (induction os arbitrary: pre offset)
  case Nil
  thus ?case by (simp add: enc_opts_def)
next
  case (Cons p os)
  have "v4_option_loop g c dir opt sz offset =
        v4_option_loop g c dir opt sz (offset + length (enc_opt p))"
    using Cons.prems
    by (intro v4_option_loop_skip [of _ pre _ "enc_opts os @ rest"]) (simp_all add: enc_opts_def)
  also have "\<dots> = v4_option_loop g c dir opt sz (offset + length (enc_opt p) + length (enc_opts os))"
    using Cons.prems by (intro Cons.IH [of "pre @ enc_opt p"]) (simp_all add: enc_opts_def)
  finally show ?case by (simp add: enc_opts_def add.assoc)
qed

text \<open>Options in front of the message type do not disturb the scan.\<close>

lemma v4_option_53_found:
  assumes "buffer c = hdr @ enc_opts os @ [53, l, t] @ rest" "length hdr = 282"
    and "list_all plain_opt os" "length (enc_opts os) \<le> sz"
  shows "v4_option_loop g c dir 282 sz 0 =
         handle_dhcp_option_53 g c (282 + length (enc_opts os)) dir IP_START_OFFSET DHCPv4_START_OFFSET"
proof -
  have "v4_option_loop g c dir 282 sz 0 = v4_option_loop g c dir 282 sz (0 + length (enc_opts os))"
    using assms by (intro v4_option_loop_skips [of c hdr os]) simp_all
  moreover have "rd8 (buffer c) (282 + length (enc_opts os)) = Some 53"
    using assms(1,2) by (simp add: rd8_def nth_append)
  ultimately show ?thesis using assms(4) by (subst (asm) (2) v4_option_loop.simps) simp
qed


definition v4_client_msg :: "byte \<Rightarrow> bool" where
  "v4_client_msg t \<longleftrightarrow> t \<in> {1, 3, 4, 7, 8}"

definition v4_server_msg :: "byte \<Rightarrow> bool" where
  "v4_server_msg t \<longleftrightarrow> t \<in> {2, 5, 6}"

definition v4_relevant :: "dhcp_device_context_t \<Rightarrow> dhcp_packet_direction_t \<Rightarrow> byte \<Rightarrow> mem \<Rightarrow> mem \<Rightarrow> bool" where
  "v4_relevant c dir t giaddr dst \<longleftrightarrow>
     v4_client_msg t \<and>
       (if is_uplink c then dir = DHCP_TX \<and> giaddr = enc32le (giaddr_ip c)
        else dir = DHCP_RX \<and> dst = [255, 255, 255, 255]) \<or>
     v4_server_msg t \<and>
       (if is_uplink c then dir = DHCP_RX \<and> dst = enc32le (giaddr_ip c) else dir = DHCP_TX)"

lemma v4_client_not_server: "v4_client_msg t \<Longrightarrow> \<not> v4_server_msg t"
  by (auto simp: v4_client_msg_def v4_server_msg_def)

lemma unat_byte_mem: "unat (t :: byte) \<in> {1, 3, 4, 7, 8} \<longleftrightarrow> t \<in> {1, 3, 4, 7, 8}"
  "unat (t :: byte) \<in> {2, 5, 6} \<longleftrightarrow> t \<in> {2, 5, 6}"
  by (auto simp: word_unat_eq_iff)

lemma handle_dhcp_option_53_spec:
  assumes "rd8 (buffer c) (opt + 2) = Some t"
    and "rdn (buffer c) 66 4 = Some giaddr" "rdn (buffer c) 30 4 = Some dst"
  shows "handle_dhcp_option_53 g c opt dir IP_START_OFFSET DHCPv4_START_OFFSET =
         Some (if v4_relevant c dir t giaddr dst then counted_v4 dir (unat t) (g, c) else (g, c))"
proof -
  let ?b = "\<lambda>i. buffer c ! i"
  note gia = rdn_4 [OF assms(2), simplified] and dst = rdn_4(1) [OF assms(3), simplified]
  have len: "70 \<le> length (buffer c)" using gia(2) .
  have bc: "enc32le INADDR_BROADCAST = [255, 255, 255, 255]"
    by (simp add: INADDR_BROADCAST_def enc32le_def enc16le_def hi8_def lo8_def hi16_def lo16_def)
  have swap: "ntohl (be32 (?b 66) (?b 67) (?b 68) (?b 69)) = be32 (?b 69) (?b 68) (?b 67) (?b 66)"
    by (simp add: ntohl_def)
  have eqs: "giaddr_ip c = ntohl (be32 (?b 66) (?b 67) (?b 68) (?b 69)) \<longleftrightarrow> giaddr = enc32le (giaddr_ip c)"
    "giaddr_ip c = be32 (?b 33) (?b 32) (?b 31) (?b 30) \<longleftrightarrow> dst = enc32le (giaddr_ip c)"
    "be32 (?b 33) (?b 32) (?b 31) (?b 30) = INADDR_BROADCAST \<longleftrightarrow> dst = [255, 255, 255, 255]"
    unfolding swap gia(1) dst bc [symmetric]
    by (subst eq_commute, rule be32_le_iff)+ (rule be32_le_iff)
  have rd: "rd8 (buffer c) 66 = Some (?b 66)" "rd8 (buffer c) 67 = Some (?b 67)"
    "rd8 (buffer c) 68 = Some (?b 68)" "rd8 (buffer c) 69 = Some (?b 69)"
    "rd32le (buffer c) 30 = Some (be32 (?b 33) (?b 32) (?b 31) (?b 30))"
    using len by (simp_all add: rd8_def rd32le_def)
  consider (client) "v4_client_msg t" "\<not> v4_server_msg t" | (server) "\<not> v4_client_msg t" "v4_server_msg t"
    | (other) "\<not> v4_client_msg t" "\<not> v4_server_msg t"
    using v4_client_not_server by blast
  thus ?thesis
  proof cases
    case client
    hence t: "unat t \<in> {1, 3, 4, 7, 8}" using unat_byte_mem(1) [of t] by (simp add: v4_client_msg_def)
    show ?thesis unfolding handle_dhcp_option_53_def v4_relevant_def Let_def
      using client eqs by (simp add: assms(1) [simplified] rd t [unfolded One_nat_def] del: insert_iff)
  next
    case server
    hence t: "unat t \<notin> {1, 3, 4, 7, 8}" "unat t \<in> {2, 5, 6}" using unat_byte_mem [of t]
      by (simp_all only: v4_client_msg_def v4_server_msg_def, simp_all)
    show ?thesis unfolding handle_dhcp_option_53_def v4_relevant_def Let_def
      using server eqs by (simp add: assms(1) [simplified] rd t [unfolded One_nat_def] del: insert_iff)
  next
    case other
    hence t: "unat t \<notin> {1, 3, 4, 7, 8}" "unat t \<notin> {2, 5, 6}" using unat_byte_mem [of t]
      by (simp_all only: v4_client_msg_def v4_server_msg_def, simp_all)
    show ?thesis unfolding handle_dhcp_option_53_def v4_relevant_def Let_def
      using other by (simp add: assms(1) [simplified] t [unfolded One_nat_def] del: insert_iff)
  qed
qed

text \<open>
  C17.  What a DHCPv4 message does to the counters, from the bytes of the frame.  For a frame with an
  Ethernet, an IPv4 and a UDP header, the fixed BOOTP part and well-formed options with a message
  type option, the message is counted at the device and in the aggregate exactly when it is
  relevant: client messages sent northwards with the relay's gateway address or received as a
  broadcast from the south, server messages received for the gateway address from the north or
  sent to the south.  The direction is decided by the source hardware address.
\<close>

theorem v4_message_counted:
  assumes buf: "buffer c = eth_dst @ eth_src @ [8, 0] @ ip_hdr @ ip_dst @ udp_ports @ enc16 udp_len @ udp_sum
      @ bootp_a @ giaddr @ bootp_b @ enc_opts os @ [53, l, t] @ rest"
    and len: "length eth_dst = 6" "length eth_src = 6" "length ip_hdr = 16" "length ip_dst = 4"
      "length udp_ports = 4" "length udp_sum = 2" "length bootp_a = 24" "length giaddr = 4"
      "length bootp_b = 212"
    and "dhcpv4_enabled g" "n > 282" "unat udp_len > 240" "list_all plain_opt os"
    and fits: "length (enc_opts os) + 240 \<le> unat udp_len" "length (enc_opts os) + 282 \<le> n"
  shows "process_frame g c n =
     (let dir = (if eth_src = mac c then DHCP_TX else DHCP_RX)
      in Some (if v4_relevant c dir t giaddr ip_dst then counted_v4 dir (unat t) (g, c) else (g, c)))"
proof -
  define dir where "dir = (if eth_src = mac c then DHCP_TX else DHCP_RX)"
  define sz where "sz = (if unat udp_len < n - 34 - 8 then unat udp_len else n - 34 - 8) - 240"
  define hdr where "hdr = eth_dst @ eth_src @ [8, 0] @ ip_hdr @ ip_dst @ udp_ports @ enc16 udp_len @ udp_sum
      @ bootp_a @ giaddr @ bootp_b"
  have hdr: "buffer c = hdr @ enc_opts os @ [53, l, t] @ rest" "length hdr = 282"
    using buf len by (simp_all add: hdr_def)
  have sz: "length (enc_opts os) \<le> sz" using fits by (auto simp: sz_def)
  have ty: "rd16be (buffer c) 12 = Some 0x0800"
    using buf len by (simp add: rd16be_def nth_append be16_eval)
  have ul: "rd16be (buffer c) 38 = Some udp_len"
    using rd16be_enc16 [of "eth_dst @ eth_src @ [8, 0] @ ip_hdr @ ip_dst @ udp_ports" udp_len] buf len by simp
  have dir: "direction_of c = dir" using buf len by (simp add: direction_of_def dir_def)
  have t: "rd8 (buffer c) (282 + length (enc_opts os) + 2) = Some t"
    using hdr by (simp add: rd8_def nth_append)
  have gia: "rdn (buffer c) 66 4 = Some giaddr"
    using rdn_append [of giaddr 4 "eth_dst @ eth_src @ [8, 0] @ ip_hdr @ ip_dst @ udp_ports @ enc16 udp_len @ udp_sum @ bootp_a"]
      buf len by simp
  have dst: "rdn (buffer c) 30 4 = Some ip_dst"
    using rdn_append [of ip_dst 4 "eth_dst @ eth_src @ [8, 0] @ ip_hdr"] buf len by simp
  have "process_frame g c n = v4_option_loop g c dir 282 sz 0"
    using assms ty ul dir by (simp add: process_frame_def sz_def Let_def)
  also have "\<dots> = handle_dhcp_option_53 g c (282 + length (enc_opts os)) dir IP_START_OFFSET DHCPv4_START_OFFSET"
    using v4_option_53_found [OF hdr] assms sz by simp
  also have "\<dots> = Some (if v4_relevant c dir t giaddr ip_dst then counted_v4 dir (unat t) (g, c) else (g, c))"
    by (rule handle_dhcp_option_53_spec [OF t gia dst])
  finally show ?thesis by (simp add: dir_def)
qed

section \<open>DHCPv6 relay headers\<close>

text \<open>A relay header of 34 bytes followed by the relay message option that carries the inner message.\<close>

definition relay_wrap :: "mem \<Rightarrow> mem \<Rightarrow> mem" where
  "relay_wrap hdr msg = hdr @ enc16 9 @ enc16 (of_nat (length msg)) @ msg"

definition relay_header :: "mem \<Rightarrow> bool" where
  "relay_header hdr \<longleftrightarrow> length hdr = 34 \<and> (hdr ! 0 = 12 \<or> hdr ! 0 = 13)"

lemma length_relay_wrap: "relay_header h \<Longrightarrow> length (relay_wrap h m) = 38 + length m"
  by (simp add: relay_wrap_def relay_header_def)





text \<open>
  An option in front of the relay message option is stepped over by its length plus two, not plus
  four: the search looks at the last two bytes of that option's data, and when they are 0 and 9
  it takes them for the relay message option.
\<close>

theorem v6_option_before_relay_msg_misread:
  assumes "buf = pre @ enc16 code @ enc16 (of_nat (length d + 2)) @ d @ enc16 9 @ rest"
    and "length pre = opt + offset" "code \<noteq> 9" "length d + 2 < 65536"
  shows "v6_find_relay_msg buf opt offset = Some (offset + 2 + (length d + 2))"
proof -
  have u: "unat (of_nat (length d + 2) :: 16 word) = length d + 2"
    using assms(4) by (simp only: unat_of_nat) simp
  have "rd16be buf (opt + offset) = Some code"
    using rd16be_enc16 [of pre code] assms(1,2) by simp
  moreover have "rd16be buf (opt + offset + 2) = Some (of_nat (length d + 2))"
    using rd16be_enc16 [of "pre @ enc16 code" "of_nat (length d + 2)"] assms(1,2) by simp
  ultimately have "v6_find_relay_msg buf opt offset =
                   v6_find_relay_msg buf opt (offset + 2 + (length d + 2))"
    using assms(3) u by (subst v6_find_relay_msg.simps) simp
  moreover have "rd16be buf (opt + (offset + 2 + (length d + 2))) = Some 9"
    using rd16be_enc16 [of "pre @ enc16 code @ enc16 (of_nat (length d + 2)) @ d" 9] assms(1,2)
    by (simp add: ac_simps)
  ultimately show ?thesis by (subst (asm) (2) v6_find_relay_msg.simps) simp
qed

lemma rd16be_zeros: "i + 2 \<le> length m \<Longrightarrow> m ! i = 0 \<Longrightarrow> m ! (i + 1) = 0 \<Longrightarrow> rd16be m i = Some 0"
  by (simp add: rd16be_def be16_eval)

text \<open>
  The search for the relay message option has no bound of its own: over zero bytes it runs to the end
  of the capture buffer and reads past it, however long the buffer is.
\<close>

theorem v6_zero_options_overrun:
  "length pre = opt + offset \<Longrightarrow> v6_find_relay_msg (pre @ replicate k 0) opt offset = None"
proof (induction k arbitrary: pre offset rule: less_induct)
  case (less k)
  let ?buf = "pre @ replicate k 0"
  show ?case
  proof (cases "4 \<le> k")
    case False
    hence "rd16be ?buf (opt + offset + 2) = None" using less.prems by (simp add: rd16be_def)
    moreover have "rd16be ?buf (opt + offset) \<in> {None, Some 0}"
      using less.prems by (auto simp: rd16be_def nth_append be16_eval)
    ultimately show ?thesis by (subst v6_find_relay_msg.simps) auto
  next
    case True
    then obtain j where k: "k = 2 + j" using le_Suc_ex [of 2 k] by auto
    have "rd16be ?buf (opt + offset) = Some 0" "rd16be ?buf (opt + offset + 2) = Some 0"
      using True less.prems by (simp_all add: rd16be_def nth_append be16_eval)
    hence "v6_find_relay_msg ?buf opt offset = v6_find_relay_msg ?buf opt (offset + 2)"
      by (subst v6_find_relay_msg.simps) simp
    also have "?buf = (pre @ [0, 0]) @ replicate j 0"
      by (simp add: k)
    also have "v6_find_relay_msg \<dots> opt (offset + 2) = None"
      using less.prems k by (intro less.IH) simp_all
    finally show ?thesis by (simp add: k)
  qed
qed

section \<open>Verdicts\<close>

type_synonym counted_event = "dhcp_packet_direction_t \<times> nat"

definition window :: "counted_event list \<Rightarrow> counter_table \<Rightarrow> counter_table" where
  "window es t = fold (\<lambda>(d, m). bump d m) es (take_snapshot t)"

definition no_wrap :: "counted_event list \<Rightarrow> counter_table \<Rightarrow> bool" where
  "no_wrap es t \<longleftrightarrow> (\<forall>d m. unat (t DHCP_COUNTERS_CURRENT d m) + length es < 2 ^ 64)"

lemma fold_bump:
  "fold (\<lambda>(d, m). bump d m) es t k d m =
     t k d m + (if k = DHCP_COUNTERS_CURRENT then of_nat (count_list es (d, m)) else 0)"
  by (induction es arbitrary: t) (auto simp: bump_def split: if_splits)

lemma window_snapshot: "window es t DHCP_COUNTERS_SNAPSHOT = t DHCP_COUNTERS_CURRENT"
  by (intro ext) (simp add: window_def fold_bump take_snapshot_def)

lemma window_current:
  "window es t DHCP_COUNTERS_CURRENT d m = t DHCP_COUNTERS_CURRENT d m + of_nat (count_list es (d, m))"
  by (simp add: window_def fold_bump take_snapshot_def)

lemma window_grows:
  assumes "no_wrap es t"
  shows "window es t DHCP_COUNTERS_SNAPSHOT d m < window es t DHCP_COUNTERS_CURRENT d m \<longleftrightarrow> (d, m) \<in> set es"
    and "window es t DHCP_COUNTERS_CURRENT d m \<le> window es t DHCP_COUNTERS_SNAPSHOT d m \<longleftrightarrow> (d, m) \<notin> set es"
    and "window es t DHCP_COUNTERS_CURRENT d m = window es t DHCP_COUNTERS_SNAPSHOT d m \<longleftrightarrow> (d, m) \<notin> set es"
proof -
  let ?x = "t DHCP_COUNTERS_CURRENT d m" and ?n = "count_list es (d, m)"
  have n: "?n \<le> length es" by (rule count_le_length)
  have lt: "unat ?x + ?n < 2 ^ 64" using assms n unfolding no_wrap_def
    by (meson add_le_mono1 le_less_trans nat_add_left_cancel_le)
  have "unat (?x + of_nat ?n) = (unat ?x + ?n) mod 2 ^ 64"
    by (simp add: unat_word_ariths unat_of_nat mod_simps)
  hence u: "unat (?x + of_nat ?n) = unat ?x + ?n" using lt by (simp only: mod_less)
  have mem: "0 < ?n \<longleftrightarrow> (d, m) \<in> set es" using count_list_0_iff [of es "(d, m)"] by auto
  show "window es t DHCP_COUNTERS_SNAPSHOT d m < window es t DHCP_COUNTERS_CURRENT d m \<longleftrightarrow> (d, m) \<in> set es"
    "window es t DHCP_COUNTERS_CURRENT d m \<le> window es t DHCP_COUNTERS_SNAPSHOT d m \<longleftrightarrow> (d, m) \<notin> set es"
    "window es t DHCP_COUNTERS_CURRENT d m = window es t DHCP_COUNTERS_SNAPSHOT d m \<longleftrightarrow> (d, m) \<notin> set es"
    using mem
    by (simp_all only: window_current window_snapshot word_less_nat_alt word_le_nat_alt word_unat_eq_iff u) auto
qed

text \<open>
  The contract of the health functions for one protocol: which messages are monitored and what the
  three tests say of a counter table.  The lemmas about a monitoring window are proved from it once,
  for both protocols.
\<close>

locale relay_health =
  fixes msgs :: "nat list"
    and inactive :: "counter_table \<Rightarrow> bool"
    and positive :: "counter_table \<Rightarrow> dhcp_mon_status_t"
    and negative :: "counter_table \<Rightarrow> dhcp_mon_status_t"
  assumes inactive_iff: "inactive t \<longleftrightarrow>
      (\<forall>m\<in>set msgs. t DHCP_COUNTERS_CURRENT DHCP_RX m = t DHCP_COUNTERS_SNAPSHOT DHCP_RX m)"
    and positive_eq: "positive t =
      (if \<exists>m\<in>set msgs. t DHCP_COUNTERS_SNAPSHOT DHCP_RX m < t DHCP_COUNTERS_CURRENT DHCP_RX m \<and>
            t DHCP_COUNTERS_CURRENT DHCP_TX m \<le> t DHCP_COUNTERS_SNAPSHOT DHCP_TX m
       then DHCP_MON_STATUS_UNHEALTHY else DHCP_MON_STATUS_HEALTHY)"
    and negative_eq: "negative t =
      (if \<exists>m\<in>set msgs. t DHCP_COUNTERS_SNAPSHOT DHCP_TX m < t DHCP_COUNTERS_CURRENT DHCP_TX m
       then DHCP_MON_STATUS_UNHEALTHY else DHCP_MON_STATUS_HEALTHY)"
begin

lemma window_inactive:
  "no_wrap es t \<Longrightarrow> inactive (window es t) \<longleftrightarrow> (\<forall>m\<in>set msgs. (DHCP_RX, m) \<notin> set es)"
  by (simp add: inactive_iff window_grows)

lemma window_positive:
  "no_wrap es t \<Longrightarrow> positive (window es t) =
    (if \<exists>m\<in>set msgs. (DHCP_RX, m) \<in> set es \<and> (DHCP_TX, m) \<notin> set es
     then DHCP_MON_STATUS_UNHEALTHY else DHCP_MON_STATUS_HEALTHY)"
  by (simp add: positive_eq window_grows)

lemma window_negative:
  "no_wrap es t \<Longrightarrow> negative (window es t) =
    (if \<exists>m\<in>set msgs. (DHCP_TX, m) \<in> set es then DHCP_MON_STATUS_UNHEALTHY else DHCP_MON_STATUS_HEALTHY)"
  by (simp add: negative_eq window_grows)

lemma positive_needs_activity: "positive t = DHCP_MON_STATUS_UNHEALTHY \<Longrightarrow> \<not> inactive t"
  by (fastforce simp: positive_eq inactive_iff split: if_splits)

end

interpretation v4h: relay_health v4_monitored_msgs
  "\<lambda>t. dhcp_device_is_dhcp_inactive t t6 DHCPv4_TYPE"
  "\<lambda>t. dhcp_device_check_positive_health t t6 DHCPv4_TYPE"
  "\<lambda>t. dhcp_device_check_negative_health t t6 DHCPv4_TYPE" for t6
  by unfold_locales
     (simp_all add: dhcp_device_is_dhcp_inactive_def dhcp_device_check_positive_health_def
       dhcp_device_check_negative_health_def dhcp_device_is_dhcpv4_msg_unhealthy_def list_all_iff
       list_ex_iff Let_def)

interpretation v6h: relay_health v6_monitored_msgs
  "\<lambda>t. dhcp_device_is_dhcp_inactive t4 t DHCPv6_TYPE"
  "\<lambda>t. dhcp_device_check_positive_health t4 t DHCPv6_TYPE"
  "\<lambda>t. dhcp_device_check_negative_health t4 t DHCPv6_TYPE" for t4
  by unfold_locales
     (simp_all add: dhcp_device_is_dhcp_inactive_def dhcp_device_check_positive_health_def
       dhcp_device_check_negative_health_def dhcp_device_is_dhcpv6_msg_unhealthy_def list_all_iff
       list_ex_iff Let_def)

definition monitored :: "dhcp_type_t \<Rightarrow> nat list" where
  "monitored type = (case type of DHCPv4_TYPE \<Rightarrow> v4_monitored_msgs | DHCPv6_TYPE \<Rightarrow> v6_monitored_msgs)"

definition table_of :: "dhcp_type_t \<Rightarrow> dhcp_device_context_t \<Rightarrow> counter_table" where
  "table_of type c = (case type of DHCPv4_TYPE \<Rightarrow> v4_of c | DHCPv6_TYPE \<Rightarrow> v6_of c)"

text \<open>
  C19.  The verdict on the relay is the right one for the messages of a monitoring window.  If the
  aggregate counters were snapshotted and then counted the events of a list without wrapping, the
  positive check answers indeterminate when no monitored message was received, unhealthy when some
  monitored message was received and none of its type was sent, and healthy otherwise; the same
  holds for DHCPv4 and DHCPv6.
\<close>

theorem relay_verdict_of_window:
  assumes "table_of type (aggregate_dev g) = window es t" "no_wrap es t"
  shows "dhcp_device_get_status g DHCP_MON_CHECK_POSITIVE (Some (aggregate_dev g)) type =
    (if \<forall>m\<in>set (monitored type). (DHCP_RX, m) \<notin> set es then DHCP_MON_STATUS_INDETERMINATE
     else if \<exists>m\<in>set (monitored type). (DHCP_RX, m) \<in> set es \<and> (DHCP_TX, m) \<notin> set es
     then DHCP_MON_STATUS_UNHEALTHY else DHCP_MON_STATUS_HEALTHY)"
proof (cases type)
  case DHCPv4_TYPE
  thus ?thesis using assms
    by (simp add: dhcp_device_get_status_def dhcp_device_check_health_def table_of_def v4_of_def
        monitored_def v4h.window_inactive v4h.window_positive)
next
  case DHCPv6_TYPE
  thus ?thesis using assms
    by (simp add: dhcp_device_get_status_def dhcp_device_check_health_def table_of_def v6_of_def
        monitored_def v6h.window_inactive v6h.window_positive)
qed

text \<open>
  The verdict on the management interface: unless no monitored message was received anywhere in the
  window, the negative check answers unhealthy exactly when a monitored message was sent through
  the interface in that window.
\<close>

theorem mgmt_verdict_of_window:
  assumes "table_of type c = window es t" "no_wrap es t"
    and "table_of type (aggregate_dev g) = window agg u" "no_wrap agg u"
  shows "dhcp_device_get_status g DHCP_MON_CHECK_NEGATIVE (Some c) type =
    (if \<forall>m\<in>set (monitored type). (DHCP_RX, m) \<notin> set agg then DHCP_MON_STATUS_INDETERMINATE
     else if \<exists>m\<in>set (monitored type). (DHCP_TX, m) \<in> set es
     then DHCP_MON_STATUS_UNHEALTHY else DHCP_MON_STATUS_HEALTHY)"
proof (cases type)
  case DHCPv4_TYPE
  thus ?thesis using assms
    by (simp add: dhcp_device_get_status_def dhcp_device_check_health_def table_of_def v4_of_def
        monitored_def v4h.window_inactive v4h.window_negative)
next
  case DHCPv6_TYPE
  thus ?thesis using assms
    by (simp add: dhcp_device_get_status_def dhcp_device_check_health_def table_of_def v6_of_def
        monitored_def v6h.window_inactive v6h.window_negative)
qed

section \<open>Concrete inputs\<close>


definition sample_opts :: "dhcp_opt list" where
  "sample_opts = [Pad, Opt 12 [104, 105], Opt 55 [1, 3, 6]]"

lemma sample_opts_facts:
  "enc_opts sample_opts = [0, 12, 2, 104, 105, 55, 3, 1, 3, 6]" "list_all plain_opt sample_opts"
  by (simp_all add: sample_opts_def enc_opts_def)

text \<open>A DISCOVER broadcast by a client, received on the downlink.\<close>

definition sample_discover :: mem where
  "sample_discover = replicate 6 255 @ replicate 6 7 @ [8, 0] @ replicate 16 0 @ [255, 255, 255, 255]
     @ replicate 4 0 @ enc16 300 @ replicate 2 0 @ replicate 24 0 @ replicate 4 0 @ replicate 212 0
     @ enc_opts sample_opts @ [53, 1, 1] @ [255]"

theorem v4_message_counted_witness:
  "process_frame (device_module_init\<lparr>dhcpv4_enabled := True\<rparr>) (zero_context\<lparr>buffer := sample_discover\<rparr>) 296 =
   Some (counted_v4 DHCP_RX 1
     (device_module_init\<lparr>dhcpv4_enabled := True\<rparr>, zero_context\<lparr>buffer := sample_discover\<rparr>))"
  using v4_message_counted [where c = "zero_context\<lparr>buffer := sample_discover\<rparr>" and os = sample_opts
      and t = 1 and l = 1 and rest = "[255]" and eth_dst = "replicate 6 255" and eth_src = "replicate 6 7"
      and ip_hdr = "replicate 16 0" and ip_dst = "[255, 255, 255, 255]" and udp_ports = "replicate 4 0"
      and udp_len = 300 and udp_sum = "replicate 2 0" and bootp_a = "replicate 24 0"
      and giaddr = "replicate 4 0" and bootp_b = "replicate 212 0"
      and g = "device_module_init\<lparr>dhcpv4_enabled := True\<rparr>" and n = 296]
  by (simp add: sample_discover_def sample_opts_facts zero_context_def v4_relevant_def v4_client_msg_def
      Let_def)



theorem v6_option_before_relay_msg_misread_witness:
  "v6_find_relay_msg (replicate 96 0 @ enc16 18 @ enc16 4 @ [1, 1] @ enc16 9 @ enc16 9 @ enc16 1 @ [1]) 62 34 =
   Some (34 + 2 + 4)"
  using v6_option_before_relay_msg_misread [where pre = "replicate 96 0" and code = 18 and d = "[1, 1]"
      and rest = "enc16 9 @ enc16 1 @ [1]" and opt = 62 and offset = 34, OF refl]
  by simp

theorem v6_zero_options_overrun_witness: "v6_find_relay_msg (replicate 96 1 @ replicate 65000 0) 62 34 = None"
  by (rule v6_zero_options_overrun) simp

text \<open>A window in which a DISCOVER was received and not relayed, and one in which it was.\<close>

definition sample_module :: "counted_event list \<Rightarrow> device_module" where
  "sample_module es = device_module_init\<lparr>aggregate_dev := zero_context\<lparr>counters :=
     \<lparr>v4counters = window es (\<lambda>_ _ _. 0), v6counters = window es (\<lambda>_ _ _. 0)\<rparr>\<rparr>\<rparr>"

theorem relay_verdict_of_window_witness:
  "dhcp_device_get_status (sample_module [(DHCP_RX, 1)]) DHCP_MON_CHECK_POSITIVE
     (Some (aggregate_dev (sample_module [(DHCP_RX, 1)]))) DHCPv4_TYPE = DHCP_MON_STATUS_UNHEALTHY \<and>
   dhcp_device_get_status (sample_module [(DHCP_RX, 1), (DHCP_TX, 1)]) DHCP_MON_CHECK_POSITIVE
     (Some (aggregate_dev (sample_module [(DHCP_RX, 1), (DHCP_TX, 1)]))) DHCPv6_TYPE = DHCP_MON_STATUS_HEALTHY"
proof -
  have t: "table_of type (aggregate_dev (sample_module es)) = window es (\<lambda>_ _ _. 0)" for type es
    by (simp add: sample_module_def table_of_def v4_of_def v6_of_def split: dhcp_type_t.split)
  show ?thesis
    using relay_verdict_of_window [OF t, of "[(DHCP_RX, 1)]" DHCPv4_TYPE]
      relay_verdict_of_window [OF t, of "[(DHCP_RX, 1), (DHCP_TX, 1)]" DHCPv6_TYPE]
    by (simp add: no_wrap_def monitored_def v4_monitored_msgs_def v6_monitored_msgs_def)
qed

theorem mgmt_verdict_of_window_witness:
  "dhcp_device_get_status (sample_module [(DHCP_RX, 1)]) DHCP_MON_CHECK_NEGATIVE
     (Some (aggregate_dev (sample_module [(DHCP_TX, 3)]))) DHCPv4_TYPE = DHCP_MON_STATUS_UNHEALTHY"
proof -
  have t: "table_of type (aggregate_dev (sample_module es)) = window es (\<lambda>_ _ _. 0)" for type es
    by (simp add: sample_module_def table_of_def v4_of_def v6_of_def split: dhcp_type_t.split)
  show ?thesis
    using mgmt_verdict_of_window [OF t _ t, of "[(DHCP_TX, 3)]" "[(DHCP_RX, 1)]" DHCPv4_TYPE]
    by (simp add: no_wrap_def monitored_def v4_monitored_msgs_def)
qed

end
