(* ===== verification/DhcpMon.thy ===== *)
theory DhcpMon
  imports DhcpDevice
begin

text \<open>
  The device manager, the monitor and the command line of dhcpmon: \<open>dhcp_devman.c\<close>,
  \<open>dhcp_mon.c\<close> and \<open>main.c\<close> under \<open>src/dhcpmon/src\<close>.

  The list of interfaces keeps a node per interface in the order of the source (new nodes at the
  head).  A node carries a number that stands for its address, so that \<open>mgmt_intf\<close> is a pointer
  into the list.  A null or indeterminate \<open>dev_context\<close> is \<open>None\<close>.  A failed \<open>assert\<close> and an access
  through a null pointer end the process and are the result \<open>None\<close>.  Alerts and counter dumps
  written to syslog are returned as a list.
\<close>

section \<open>Device manager\<close>

record intf_node =
  node_addr :: nat
  node_name :: string
  node_is_uplink :: bool
  dev_context :: "dhcp_device_context_t option"

record devman =
  intfs :: "intf_node list"
  dhcp_num_south_intf :: "32 word"
  dhcp_num_north_intf :: "32 word"
  dhcp_num_mgmt_intf :: "32 word"
  vlan_v4_ip :: "32 word"
  vlan_v6_ip :: mem
  loopback_ip :: "32 word"
  dual_tor_mode :: bool
  mgmt_intf :: "nat option"
  devmod :: device_module

definition devman_static :: devman where
  "devman_static = \<lparr>intfs = [], dhcp_num_south_intf = 0, dhcp_num_north_intf = 0, dhcp_num_mgmt_intf = 0,
     vlan_v4_ip = 0, vlan_v6_ip = replicate 16 0, loopback_ip = 0, dual_tor_mode = False,
     mgmt_intf = None, devmod = device_module_init\<rparr>"

definition dhcp_devman_get_agg_dev :: "devman \<Rightarrow> dhcp_device_context_t" where
  "dhcp_devman_get_agg_dev m = aggregate_dev (devmod m)"

definition dhcp_devman_get_mgmt_dev :: "devman \<Rightarrow> dhcp_device_context_t option" where
  "dhcp_devman_get_mgmt_dev m =
     (case mgmt_intf m of
        None \<Rightarrow> None
      | Some a \<Rightarrow> (case find (\<lambda>d. node_addr d = a) (intfs m) of None \<Rightarrow> None | Some d \<Rightarrow> dev_context d))"


text \<open>
  Shutdown frees the context of every node.  The second argument of the loop is \<open>prev_intf\<close>; the
  result lists the nodes that are removed and freed.
\<close>

fun devman_shutdown_loop :: "intf_node list \<Rightarrow> nat option \<Rightarrow> nat list \<Rightarrow> nat option \<times> nat list" where
  "devman_shutdown_loop [] prev freed = (prev, freed)"
| "devman_shutdown_loop (d # ds) prev freed =
     (case prev of
        Some p \<Rightarrow> devman_shutdown_loop ds (Some (node_addr d)) (freed @ [p])
      | None \<Rightarrow> devman_shutdown_loop ds None freed)"

definition dhcp_devman_shutdown :: "devman \<Rightarrow> devman \<times> nat list" where
  "dhcp_devman_shutdown m =
     (let (prev, freed) = devman_shutdown_loop (intfs m) None [];
          freed = (case prev of Some p \<Rightarrow> freed @ [p] | None \<Rightarrow> freed)
      in (m\<lparr>intfs := map (\<lambda>d. d\<lparr>dev_context := None\<rparr>)
                       (filter (\<lambda>d. node_addr d \<notin> set freed) (intfs m))\<rparr>, freed))"

definition AGG_DEV_PREFIX :: string where
  "AGG_DEV_PREFIX = ''Agg-''"

text \<open>What the environment provides for one interface: the addresses and the two allocations.\<close>

record intf_env =
  env_os :: intf_os
  env_node :: bool
  env_context :: "dhcp_device_context_t option"

definition dhcp_devman_add_intf ::
  "intf_env \<Rightarrow> string \<Rightarrow> char \<Rightarrow> devman \<Rightarrow> (int \<times> devman) option" where
  "dhcp_devman_add_intf env name intf_type m =
     (if \<not> env_node env then Some (-1, m)
      else
        (let addr = length (intfs m);
             uplink = (intf_type \<noteq> CHR ''d'');
             m = (if intf_type = CHR ''u'' then m\<lparr>dhcp_num_north_intf := dhcp_num_north_intf m + 1\<rparr>
                  else if intf_type = CHR ''d'' then m\<lparr>dhcp_num_south_intf := dhcp_num_south_intf m + 1\<rparr>
                  else if intf_type = CHR ''m'' then m\<lparr>dhcp_num_mgmt_intf := dhcp_num_mgmt_intf m + 1\<rparr>
                  else m)
         in if intf_type = CHR ''d'' \<and> \<not> dhcp_num_south_intf m \<le> 1 then None
            else if intf_type = CHR ''m'' \<and> \<not> dhcp_num_mgmt_intf m \<le> 1 then None
            else
              (let m = (if intf_type = CHR ''m'' then m\<lparr>mgmt_intf := Some addr\<rparr> else m)
               in case dhcp_device_init (env_os env) (env_context env) None name uplink of
                    None \<Rightarrow> None
                  | Some (rv, context) \<Rightarrow>
                      (let node = \<lparr>node_addr = addr, node_name = name, node_is_uplink = uplink,
                                   dev_context = context\<rparr>;
                           (rv, m) =
                             (if rv = 0 \<and> intf_type = CHR ''d'' then
                                (let (_, v4) = dhcp_device_get_ipv4 context (vlan_v4_ip m);
                                     (rv6, v6) = dhcp_device_get_ipv6 context (vlan_v6_ip m);
                                     g = devmod m;
                                     agg = (aggregate_dev g)\<lparr>intf :=
                                        AGG_DEV_PREFIX @ take (IF_NAMESIZE - 5) name\<rparr>
                                 in (rv6, m\<lparr>vlan_v4_ip := v4, vlan_v6_ip := v6,
                                            devmod := g\<lparr>aggregate_dev := agg\<rparr>\<rparr>))
                              else (rv, m))
                       in Some (rv, m\<lparr>intfs := node # intfs m\<rparr>)))))"

definition dhcp_devman_setup_dual_tor_mode ::
  "intf_os \<Rightarrow> dhcp_device_context_t \<Rightarrow> string \<Rightarrow> devman \<Rightarrow> int \<times> devman" where
  "dhcp_devman_setup_dual_tor_mode os stack_context name m =
     (if length name < IF_NAMESIZE then
        (let (rv, c) = initialize_intf_mac_and_ip_addr os (stack_context\<lparr>intf := name\<rparr>) in
         if rv = 0 then
           (let (rv4, ip) = dhcp_device_get_ipv4 (Some c) (loopback_ip m) in
            if rv4 = 0 then (0, m\<lparr>loopback_ip := ip, dual_tor_mode := True\<rparr>)
            else (-1, m\<lparr>loopback_ip := ip\<rparr>))
         else (-1, m))
      else (-1, m))"

text \<open>What the environment answers when capture starts on a node.\<close>

record capture_env =
  cap_buffer :: "mem option"
  cap_attach :: int
  cap_event :: bool

fun start_capture_loop ::
  "devman \<Rightarrow> (nat \<Rightarrow> capture_env) \<Rightarrow> nat \<Rightarrow> int \<Rightarrow> intf_node list \<Rightarrow> int \<times> intf_node list" where
  "start_capture_loop m env len rv [] = (rv, [])"
| "start_capture_loop m env len rv (d # ds) =
     (let e = env (node_addr d);
          (rv', c) = dhcp_device_start_capture (devmod m) (dev_context d) len
                       (if dual_tor_mode m then loopback_ip m else vlan_v4_ip m) (vlan_v6_ip m)
                       (cap_buffer e) (cap_attach e) (cap_event e);
          d' = d\<lparr>dev_context := c\<rparr>
      in if rv' = 0 then (let (rv'', ds') = start_capture_loop m env len rv' ds in (rv'', d' # ds'))
         else (rv', d' # ds))"

definition dhcp_devman_start_capture ::
  "(nat \<Rightarrow> capture_env) \<Rightarrow> nat \<Rightarrow> devman \<Rightarrow> int \<times> devman" where
  "dhcp_devman_start_capture env len m =
     (if dhcp_num_south_intf m = 1 \<and> dhcp_num_north_intf m \<ge> 1 then
        (let (rv, ds) = start_capture_loop m env len (-1) (intfs m) in (rv, m\<lparr>intfs := ds\<rparr>))
      else (-1, m))"

definition dhcp_devman_get_status ::
  "devman \<Rightarrow> dhcp_mon_check_t \<Rightarrow> dhcp_device_context_t option \<Rightarrow> dhcp_type_t \<Rightarrow> dhcp_mon_status_t" where
  "dhcp_devman_get_status m check_type context type = dhcp_device_get_status (devmod m) check_type context type"

text \<open>The call with a null context, the only one the monitor makes.\<close>

definition dhcp_devman_update_snapshot :: "devman \<Rightarrow> devman" where
  "dhcp_devman_update_snapshot m =
     (let g = devmod m in
      m\<lparr>intfs := map (\<lambda>d. d\<lparr>dev_context := map_option (dhcp_device_update_snapshot g) (dev_context d)\<rparr>) (intfs m),
        devmod := g\<lparr>aggregate_dev := dhcp_device_update_snapshot g (aggregate_dev g)\<rparr>\<rparr>)"

type_synonym counter_dump = "(string \<times> string \<times> (string \<times> 64 word \<times> 64 word) list) list"

definition dhcp_devman_print_status ::
  "devman \<Rightarrow> dhcp_device_context_t option \<Rightarrow> dhcp_counters_type_t \<Rightarrow> counter_dump" where
  "dhcp_devman_print_status m context type =
     (case context of
        None \<Rightarrow> concat (map (\<lambda>d. dhcp_device_print_status (dev_context d) type) (intfs m)) @
                dhcp_device_print_status (Some (dhcp_devman_get_agg_dev m)) type
      | Some c \<Rightarrow> dhcp_device_print_status (Some c) type)"

definition dhcp_devman_active_types :: "bool \<Rightarrow> bool \<Rightarrow> devman \<Rightarrow> devman" where
  "dhcp_devman_active_types v4 v6 m = m\<lparr>devmod := dhcp_device_active_types v4 v6 (devmod m)\<rparr>"

section \<open>Monitor\<close>

datatype mon_context = AGG_DEV | MGMT_DEV

record dhcp_mon_state_t =
  check_type :: dhcp_mon_check_t
  get_context :: mon_context
  v4_count :: int
  v6_count :: int

record monitor =
  window_interval_sec :: int
  dhcp_unhealthy_max_count :: int
  mon_v4_enabled :: bool
  mon_v6_enabled :: bool
  state_data :: "dhcp_mon_state_t list"
  manager :: devman

datatype log_line = Alert mon_context int string | Dump counter_dump | Signal int | Loopexit

definition state_data_static :: "dhcp_mon_state_t list" where
  "state_data_static =
     [\<lparr>check_type = DHCP_MON_CHECK_POSITIVE, get_context = AGG_DEV, v4_count = 0, v6_count = 0\<rparr>,
      \<lparr>check_type = DHCP_MON_CHECK_NEGATIVE, get_context = MGMT_DEV, v4_count = 0, v6_count = 0\<rparr>]"

definition monitor_static :: monitor where
  "monitor_static = \<lparr>window_interval_sec = 18, dhcp_unhealthy_max_count = 10, mon_v4_enabled = False,
     mon_v6_enabled = False, state_data = state_data_static, manager = devman_static\<rparr>"

definition signal_callback :: "monitor \<Rightarrow> int \<Rightarrow> log_line list" where
  "signal_callback w fd =
     [Signal fd, Dump (dhcp_devman_print_status (manager w) None DHCP_COUNTERS_CURRENT)] @
     (if fd = 15 \<or> fd = 2 then [Loopexit] else [])"

definition context_of :: "monitor \<Rightarrow> mon_context \<Rightarrow> dhcp_device_context_t option" where
  "context_of w k =
     (case k of
        AGG_DEV \<Rightarrow> Some (dhcp_devman_get_agg_dev (manager w))
      | MGMT_DEV \<Rightarrow> dhcp_devman_get_mgmt_dev (manager w))"

definition count_of :: "dhcp_type_t \<Rightarrow> dhcp_mon_state_t \<Rightarrow> int" where
  "count_of type sd = (case type of DHCPv4_TYPE \<Rightarrow> v4_count sd | DHCPv6_TYPE \<Rightarrow> v6_count sd)"

definition set_count :: "dhcp_type_t \<Rightarrow> int \<Rightarrow> dhcp_mon_state_t \<Rightarrow> dhcp_mon_state_t" where
  "set_count type n sd = (case type of DHCPv4_TYPE \<Rightarrow> sd\<lparr>v4_count := n\<rparr> | DHCPv6_TYPE \<Rightarrow> sd\<lparr>v6_count := n\<rparr>)"

text \<open>The report that both unhealthy branches make; it reads \<open>context->intf\<close>.\<close>

definition report_unhealthy ::
  "monitor \<Rightarrow> dhcp_mon_state_t \<Rightarrow> dhcp_type_t \<Rightarrow> dhcp_device_context_t option
   \<Rightarrow> (dhcp_mon_state_t \<times> log_line list) option" where
  "report_unhealthy w sd type context =
     (let n = count_of type sd + 1; sd = set_count type n sd in
      if n > dhcp_unhealthy_max_count w then
        (case context of
           None \<Rightarrow> None
         | Some c \<Rightarrow> Some (sd, [Alert (get_context sd) (n * window_interval_sec w) (intf c),
             Dump (dhcp_devman_print_status (manager w) context DHCP_COUNTERS_SNAPSHOT),
             Dump (dhcp_devman_print_status (manager w) context DHCP_COUNTERS_CURRENT)]))
      else Some (sd, []))"

definition check_dhcp_relay_health ::
  "monitor \<Rightarrow> dhcp_mon_state_t \<Rightarrow> dhcp_type_t \<Rightarrow> (dhcp_mon_state_t \<times> log_line list) option" where
  "check_dhcp_relay_health w sd type =
     (let context = context_of w (get_context sd) in
      (case dhcp_devman_get_status (manager w) (check_type sd) context type of
         DHCP_MON_STATUS_UNHEALTHY \<Rightarrow> report_unhealthy w sd type context
       | DHCP_MON_STATUS_HEALTHY \<Rightarrow> Some (set_count type 0 sd, [])
       | DHCP_MON_STATUS_INDETERMINATE \<Rightarrow>
           if count_of type sd \<noteq> 0 then report_unhealthy w sd type context else Some (sd, [])))"

definition check_enabled ::
  "monitor \<Rightarrow> bool \<Rightarrow> dhcp_type_t \<Rightarrow> dhcp_mon_state_t \<Rightarrow> (dhcp_mon_state_t \<times> log_line list) option" where
  "check_enabled w enabled type sd = (if enabled then check_dhcp_relay_health w sd type else Some (sd, []))"

fun timeout_loop ::
  "monitor \<Rightarrow> dhcp_mon_state_t list \<Rightarrow> (dhcp_mon_state_t list \<times> log_line list) option" where
  "timeout_loop w [] = Some ([], [])"
| "timeout_loop w (sd # sds) = do {
     (sd, l4) \<leftarrow> check_enabled w (mon_v4_enabled w) DHCPv4_TYPE sd;
     (sd, l6) \<leftarrow> check_enabled w (mon_v6_enabled w) DHCPv6_TYPE sd;
     (sds, ls) \<leftarrow> timeout_loop w sds;
     Some (sd # sds, l4 @ l6 @ ls)
   }"

definition timeout_callback :: "monitor \<Rightarrow> (monitor \<times> log_line list) option" where
  "timeout_callback w = do {
     (sds, ls) \<leftarrow> timeout_loop w (state_data w);
     Some (w\<lparr>state_data := sds, manager := dhcp_devman_update_snapshot (manager w)\<rparr>, ls)
   }"

text \<open>The five libevent objects are created in order; the list says which creations succeed.\<close>

definition dhcp_mon_init :: "bool list \<Rightarrow> int \<Rightarrow> int \<Rightarrow> bool \<Rightarrow> bool \<Rightarrow> monitor \<Rightarrow> int \<times> monitor" where
  "dhcp_mon_init created window_sec max_count v4 v6 w =
     (if list_all id (take 5 created) then 0 else -1,
      w\<lparr>window_interval_sec := window_sec, dhcp_unhealthy_max_count := max_count,
        mon_v4_enabled := v4, mon_v6_enabled := v6, manager := dhcp_devman_active_types v4 v6 (manager w)\<rparr>)"

text \<open>The start of the monitor up to the dispatch loop; the list holds the return values of libevent.\<close>

definition dhcp_mon_start ::
  "(nat \<Rightarrow> capture_env) \<Rightarrow> int list \<Rightarrow> nat \<Rightarrow> monitor \<Rightarrow> int \<times> monitor" where
  "dhcp_mon_start env added len w =
     (let (rv, m) = dhcp_devman_start_capture env len (manager w); w = w\<lparr>manager := m\<rparr>
      in if rv \<noteq> 0 then (-1, w)
         else if list_all (\<lambda>r. r = 0) (take 5 added) then (0, w) else (-1, w))"

section \<open>Command line\<close>








section \<open>The aggregate is the sum of the devices\<close>

definition total :: "(dhcp_device_context_t \<Rightarrow> counter_table) \<Rightarrow> intf_node list \<Rightarrow> counter_table" where
  "total view ds = (\<lambda>k d t. sum_list (map (\<lambda>n. case dev_context n of None \<Rightarrow> 0 | Some c \<Rightarrow> view c k d t) ds))"

definition balanced :: "(dhcp_device_context_t \<Rightarrow> counter_table) \<Rightarrow> devman \<Rightarrow> bool" where
  "balanced view m \<longleftrightarrow> total view (intfs m) = view (aggregate_dev (devmod m))"

lemma start_capture_keeps_context:
  "snd (dhcp_device_start_capture g (Some c) len ip v6 blk att ev) \<noteq> None"
  by (simp add: dhcp_device_start_capture_def Let_def split: option.split)

lemma dhcp_devman_add_intf_shape:
  assumes "dhcp_devman_add_intf env name ty m = Some (rv, m')" "env_node env"
    and "dhcp_device_init (env_os env) (env_context env) None name (ty \<noteq> CHR ''d'') = Some (rv0, ctx)"
  shows "\<exists>node n. intfs m' = node # intfs m \<and> dev_context node = ctx \<and>
    aggregate_dev (devmod m') = (aggregate_dev (devmod m))\<lparr>intf := n\<rparr>"
proof -
  have same: "\<exists>n. c = c\<lparr>intf := n\<rparr>" for c :: dhcp_device_context_t
    by (rule exI [of _ "intf c"]) simp
  show ?thesis
  using assms(1,2)
    by (auto simp: dhcp_devman_add_intf_def Let_def assms(3) split_beta same split: if_splits)
qed

text \<open>
  The view of a context on the counters of one protocol.  The laws say how the operations of the
  capture module act on such a view; the sum invariant is proved from them for both protocols.
\<close>

locale counter_family =
  fixes view :: "dhcp_device_context_t \<Rightarrow> counter_table"
    and enabled :: "device_module \<Rightarrow> bool"
  assumes view_init: "dhcp_device_init os blk ctx name up = Some (0, Some c) \<Longrightarrow> view c k d t = 0"
    and view_snapshot: "view (dhcp_device_update_snapshot g c) =
      (if enabled g then take_snapshot (view c) else view c)"
    and view_lockstep: "lockstep (g, c) (g', c') \<Longrightarrow>
      view (aggregate_dev g') k d t - view c' k d t = view (aggregate_dev g) k d t - view c k d t"
    and view_intf: "view (c\<lparr>intf := n\<rparr>) = view c"
    and view_start: "snd (dhcp_device_start_capture g (Some c) len ip v6 buf att ev) = Some c' \<Longrightarrow> view c' = view c"
begin

lemma total_Cons: "total view (n # ds) k d t =
  (case dev_context n of None \<Rightarrow> 0 | Some c \<Rightarrow> view c k d t) + total view ds k d t"
  by (simp add: total_def)

lemma total_update:
  "i < length ds \<Longrightarrow> dev_context (ds ! i) = Some c \<Longrightarrow>
   total view (ds[i := (ds ! i)\<lparr>dev_context := Some c'\<rparr>]) k d t = total view ds k d t + (view c' k d t - view c k d t)"
proof (induction ds arbitrary: i)
  case Nil
  thus ?case by simp
next
  case (Cons n ds)
  thus ?case by (cases i) (simp_all add: total_Cons)
qed

lemma total_snapshot:
  "total view (map (\<lambda>n. n\<lparr>dev_context := map_option (dhcp_device_update_snapshot g) (dev_context n)\<rparr>) ds) =
   (if enabled g then take_snapshot (total view ds) else total view ds)"
proof (intro ext)
  fix k d t
  show "total view (map (\<lambda>n. n\<lparr>dev_context := map_option (dhcp_device_update_snapshot g) (dev_context n)\<rparr>) ds) k d t =
   (if enabled g then take_snapshot (total view ds) else total view ds) k d t"
    by (induction ds)
       (simp_all add: total_Cons view_snapshot take_snapshot_def total_def split: option.split)
qed

lemma balanced_snapshot: "balanced view m \<Longrightarrow> balanced view (dhcp_devman_update_snapshot m)"
  by (simp add: balanced_def dhcp_devman_update_snapshot_def Let_def total_snapshot view_snapshot)

lemma balanced_frames:
  assumes "balanced view m" "i < length (intfs m)" "dev_context (intfs m ! i) = Some c"
    and "read_callback (devmod m) c frames = Some (g', c')"
  shows "balanced view (m\<lparr>intfs := (intfs m)[i := (intfs m ! i)\<lparr>dev_context := Some c'\<rparr>], devmod := g'\<rparr>)"
proof -
  have "view (aggregate_dev g') k d t = view (aggregate_dev (devmod m)) k d t + (view c' k d t - view c k d t)"
    for k d t
    using view_lockstep [OF read_callback_lockstep [OF assms(4)], of k d t] by (simp add: algebra_simps)
  thus ?thesis
    using assms(1) total_update [OF assms(2,3), of c'] by (auto simp: balanced_def fun_eq_iff)
qed

lemma start_capture_loop_total: "total view (snd (start_capture_loop m env len rv ds)) = total view ds"
proof (induction ds arbitrary: rv)
  case Nil
  thus ?case by simp
next
  case (Cons n ds)
  let ?e = "env (node_addr n)"
  let ?r = "dhcp_device_start_capture (devmod m) (dev_context n) len
     (if dual_tor_mode m then loopback_ip m else vlan_v4_ip m) (vlan_v6_ip m)
     (cap_buffer ?e) (cap_attach ?e) (cap_event ?e)"
  have "(case snd ?r of None \<Rightarrow> 0 | Some c \<Rightarrow> view c k d t) =
        (case dev_context n of None \<Rightarrow> 0 | Some c \<Rightarrow> view c k d t)" for k d t
  proof (cases "dev_context n")
    case None
    thus ?thesis by (simp add: dhcp_device_start_capture_def)
  next
    case (Some c)
    then obtain c' where "snd ?r = Some c'"
      using start_capture_keeps_context by fastforce
    thus ?thesis using view_start Some by fastforce
  qed
  thus ?case using Cons.IH
    by (auto simp: Let_def split_beta total_Cons fun_eq_iff)
qed

lemma balanced_start: "balanced view m \<Longrightarrow> balanced view (snd (dhcp_devman_start_capture env len m))"
  using start_capture_loop_total [of m env len "-1" "intfs m"]
  by (simp add: dhcp_devman_start_capture_def balanced_def split_beta Let_def)

lemma init_contribution:
  assumes "dhcp_device_init os blk None name up = Some (rv, ctx)"
  shows "(case ctx of None \<Rightarrow> 0 | Some c \<Rightarrow> view c k d t) = 0"
proof (cases ctx)
  case (Some c)
  have "rv = 0" using assms Some
    by (auto simp: dhcp_device_init_def Let_def split_beta split: if_splits option.splits)
  thus ?thesis using view_init assms Some by fastforce
qed simp

lemma balanced_add:
  assumes "balanced view m" "dhcp_devman_add_intf env name ty m = Some (rv, m')"
  shows "balanced view m'"
proof (cases "env_node env")
  case False
  thus ?thesis using assms by (simp add: dhcp_devman_add_intf_def)
next
  case True
  then obtain rv0 ctx where init: "dhcp_device_init (env_os env) (env_context env) None name (ty \<noteq> CHR ''d'') = Some (rv0, ctx)"
    using assms(2) by (auto simp: dhcp_devman_add_intf_def Let_def split: if_splits option.splits)
  from dhcp_devman_add_intf_shape [OF assms(2) True init]
  obtain node n where nodes: "intfs m' = node # intfs m" "dev_context node = ctx"
    and agg: "aggregate_dev (devmod m') = (aggregate_dev (devmod m))\<lparr>intf := n\<rparr>"
    by blast
  show ?thesis using assms(1) nodes agg init_contribution [OF init]
    by (auto simp: balanced_def total_Cons view_intf fun_eq_iff)
qed

end

lemma init_zeroes:
  "dhcp_device_init os blk ctx name up = Some (0, Some c) \<Longrightarrow>
   counters c = \<lparr>v4counters = \<lambda>_ _ _. 0, v6counters = \<lambda>_ _ _. 0\<rparr>"
  by (auto simp: dhcp_device_init_def split_beta Let_def split: if_splits option.splits)

lemma start_capture_counters:
  "snd (dhcp_device_start_capture g (Some c) len ip v6 blk att ev) = Some c' \<Longrightarrow> counters c' = counters c"
  by (auto simp: dhcp_device_start_capture_def Let_def split: if_splits option.splits)

interpretation v4fam: counter_family v4_of dhcpv4_enabled
  by unfold_locales
     (auto simp: v4_of_def dhcp_device_update_snapshot_def lockstep_def Let_def
       dest: init_zeroes start_capture_counters)

interpretation v6fam: counter_family v6_of dhcpv6_enabled
  by unfold_locales
     (auto simp: v6_of_def dhcp_device_update_snapshot_def lockstep_def Let_def
       dest: init_zeroes start_capture_counters)

section \<open>Executions of the daemon\<close>

text \<open>
  The steps of the running daemon: the calls of \<open>main\<close> that set it up and the callbacks that
  libevent makes.  Callbacks come in any order and any number.
\<close>

inductive mon_step :: "monitor \<Rightarrow> monitor \<Rightarrow> bool" where
  add: "dhcp_devman_add_intf env name ty (manager w) = Some (rv, m) \<Longrightarrow> mon_step w (w\<lparr>manager := m\<rparr>)"
| dual: "dhcp_devman_setup_dual_tor_mode os c name (manager w) = (rv, m) \<Longrightarrow> mon_step w (w\<lparr>manager := m\<rparr>)"
| init: "dhcp_mon_init created win mx v4 v6 w = (rv, w') \<Longrightarrow> mon_step w w'"
| start: "dhcp_mon_start env added len w = (rv, w') \<Longrightarrow> mon_step w w'"
| capture: "i < length (intfs (manager w)) \<Longrightarrow> dev_context (intfs (manager w) ! i) = Some c \<Longrightarrow>
    read_callback (devmod (manager w)) c frames = Some (g, c') \<Longrightarrow>
    mon_step w (w\<lparr>manager := (manager w)\<lparr>intfs := (intfs (manager w))[i := (intfs (manager w) ! i)\<lparr>dev_context := Some c'\<rparr>],
      devmod := g\<rparr>\<rparr>)"
| tick: "timeout_callback w = Some (w', ls) \<Longrightarrow> mon_step w w'"

inductive mon_reachable :: "monitor \<Rightarrow> bool" where
  boot: "mon_reachable monitor_static"
| step: "mon_reachable w \<Longrightarrow> mon_step w w' \<Longrightarrow> mon_reachable w'"

context counter_family
begin

lemma balanced_active_types: "balanced view m \<Longrightarrow> balanced view (dhcp_devman_active_types v4 v6 m)"
  by (simp add: balanced_def dhcp_devman_active_types_def dhcp_device_active_types_def)

lemma balanced_dual:
  "balanced view m \<Longrightarrow> dhcp_devman_setup_dual_tor_mode os c name m = (rv, m') \<Longrightarrow> balanced view m'"
  by (auto simp: balanced_def dhcp_devman_setup_dual_tor_mode_def Let_def split_beta split: if_splits)

lemma balanced_step: "mon_step w w' \<Longrightarrow> balanced view (manager w) \<Longrightarrow> balanced view (manager w')"
proof (induction rule: mon_step.induct)
  case (add env name ty w rv m)
  thus ?case using balanced_add by simp
next
  case (dual os c name w rv m)
  thus ?case using balanced_dual by simp
next
  case (init created win mx v4 v6 w rv w')
  thus ?case using balanced_active_types by (auto simp: dhcp_mon_init_def)
next
  case (start env added len w rv w')
  thus ?case using balanced_start [of "manager w" env len]
    by (auto simp: dhcp_mon_start_def Let_def split_beta split: if_splits)
next
  case (capture i w c frames g c')
  thus ?case using balanced_frames by simp
next
  case (tick w w' ls)
  thus ?case using balanced_snapshot
    by (auto simp: timeout_callback_def bind_eq_Some_conv)
qed

lemma balanced_reachable:
  assumes "mon_reachable w" "balanced view devman_static"
  shows "balanced view (manager w)"
  using assms by (induction rule: mon_reachable.induct) (auto simp: monitor_static_def intro: balanced_step)

end

text \<open>
  C13.  In every reachable state of the daemon the aggregate counters are the sums of the counters of the
  interfaces, for both protocols, both directions, every message type, current values and
  snapshots, modulo the width of a counter: frames, timer windows and the calls of the set-up keep
  the two in step.
\<close>

theorem aggregate_is_sum_of_devices:
  assumes "mon_reachable w"
  shows "total v4_of (intfs (manager w)) = v4_of (dhcp_devman_get_agg_dev (manager w)) \<and>
         total v6_of (intfs (manager w)) = v6_of (dhcp_devman_get_agg_dev (manager w))"
proof -
  have "balanced v4_of devman_static" "balanced v6_of devman_static"
    by (simp_all add: balanced_def total_def devman_static_def device_module_init_def zero_context_def
        v4_of_def v6_of_def)
  thus ?thesis
    using v4fam.balanced_reachable [OF assms] v6fam.balanced_reachable [OF assms]
    by (simp add: balanced_def dhcp_devman_get_agg_dev_def)
qed

section \<open>Alerts\<close>


definition status_of :: "monitor \<Rightarrow> dhcp_mon_state_t \<Rightarrow> dhcp_type_t \<Rightarrow> dhcp_mon_status_t" where
  "status_of w sd type =
     dhcp_devman_get_status (manager w) (check_type sd) (context_of w (get_context sd)) type"

text \<open>
  The length of the current streak of a history of verdicts: the windows since the first unhealthy
  one after the last healthy one.
\<close>

definition streak :: "dhcp_mon_status_t list \<Rightarrow> nat" where
  "streak h = length (dropWhile (\<lambda>s. s = DHCP_MON_STATUS_INDETERMINATE)
                       (rev (takeWhile (\<lambda>s. s \<noteq> DHCP_MON_STATUS_HEALTHY) (rev h))))"


lemma streak_Nil [simp]: "streak [] = 0"
  by (simp add: streak_def)


lemma count_set_count [simp]:
  "count_of type (set_count type n sd) = n"
  "type' \<noteq> type \<Longrightarrow> count_of type' (set_count type n sd) = count_of type' sd"
  "get_context (set_count type n sd) = get_context sd" "check_type (set_count type n sd) = check_type sd"
  by (cases type; cases type'; simp add: count_of_def set_count_def)+

lemma status_of_set_count [simp]: "status_of w (set_count type n sd) type' = status_of w sd type'"
  by (simp add: status_of_def)

lemma null_context_is_healthy:
  "context_of w (get_context sd) = None \<Longrightarrow> status_of w sd type = DHCP_MON_STATUS_HEALTHY"
  by (simp add: status_of_def dhcp_devman_get_status_def dhcp_device_get_status_def)


definition alert_in :: "mon_context \<Rightarrow> log_line list \<Rightarrow> bool" where
  "alert_in k ls \<longleftrightarrow> (\<exists>n name. Alert k n name \<in> set ls)"

lemma alert_in_simps [simp]:
  "alert_in k [] = False" "alert_in k (xs @ ys) = (alert_in k xs \<or> alert_in k ys)"
  by (auto simp: alert_in_def)

lemma report_unhealthy_result:
  assumes "context_of w (get_context sd) \<noteq> None"
  shows "\<exists>ls. report_unhealthy w sd type (context_of w (get_context sd)) =
      Some (set_count type (count_of type sd + 1) sd, ls) \<and>
      (\<forall>k. alert_in k ls \<longleftrightarrow> k = get_context sd \<and> count_of type sd + 1 > dhcp_unhealthy_max_count w)"
  using assms by (auto simp: report_unhealthy_def Let_def alert_in_def)










lemma check_dhcp_relay_health_defined: "check_dhcp_relay_health w sd type \<noteq> None"
proof (cases "context_of w (get_context sd)")
  case None
  thus ?thesis using null_context_is_healthy [of w sd type]
    by (simp add: check_dhcp_relay_health_def status_of_def Let_def)
next
  case (Some c)
  hence "report_unhealthy w sd type (context_of w (get_context sd)) \<noteq> None"
    using report_unhealthy_result [of w sd type] by fastforce
  thus ?thesis
    by (auto simp: check_dhcp_relay_health_def Let_def split: dhcp_mon_status_t.split)
qed

text \<open>
  The timer callback never dereferences a null context, although the management interface is optional
  and the alert message reads the name from the context.
\<close>

theorem timeout_callback_never_faults: "timeout_callback w \<noteq> None"
proof -
  have "check_enabled w e type sd \<noteq> None" for e type sd
    using check_dhcp_relay_health_defined by (simp add: check_enabled_def)
  hence step: "\<exists>sd' l. check_enabled w e type sd = Some (sd', l)" for e type sd
    by fastforce
  have "\<exists>r. timeout_loop w sds = Some r" for sds
  proof (induction sds)
    case (Cons sd sds)
    obtain sd4 l4 where "check_enabled w (mon_v4_enabled w) DHCPv4_TYPE sd = Some (sd4, l4)"
      using step by blast
    moreover obtain sd6 l6 where "check_enabled w (mon_v6_enabled w) DHCPv6_TYPE sd4 = Some (sd6, l6)"
      using step by blast
    ultimately show ?case using Cons.IH by auto
  qed simp
  then obtain sds l where "timeout_loop w (state_data w) = Some (sds, l)" by fastforce
  thus ?thesis by (simp add: timeout_callback_def)
qed

text \<open>
  Shutdown removes and frees no interface node: \<open>prev_intf\<close> starts as null and is only assigned where it
  is already set.
\<close>

theorem shutdown_frees_no_node:
  "snd (dhcp_devman_shutdown m) = [] \<and>
   length (intfs (fst (dhcp_devman_shutdown m))) = length (intfs m)"
proof -
  have "devman_shutdown_loop ds None fr = (None, fr)" for ds fr
    by (induction ds arbitrary: fr) simp_all
  thus ?thesis by (simp add: dhcp_devman_shutdown_def)
qed

section \<open>A started daemon\<close>





section \<open>Concrete executions\<close>

definition sample_os :: intf_os where
  "sample_os = \<lparr>os_sock = 3, os_bind = 0, os_inet_sock = 4, os_ifaddr = Some 1, os_hwaddr = Some (replicate 6 7),
     os_ifaddrs = Some []\<rparr>"

definition sample_env :: intf_env where
  "sample_env = \<lparr>env_os = sample_os, env_node = True, env_context = Some zero_context\<rparr>"

definition sample_cenv :: capture_env where
  "sample_cenv = \<lparr>cap_buffer = Some (replicate 300 0), cap_attach = 0, cap_event = True\<rparr>"

lemmas sample_setup_defs =
  sample_os_def sample_env_def sample_cenv_def dhcp_devman_add_intf_def dhcp_device_init_def init_socket_def
  initialize_intf_mac_and_ip_addr_def dhcp_device_get_ipv4_def dhcp_device_get_ipv6_def Let_def

theorem aggregate_is_sum_of_devices_witness:
  "\<exists>w. mon_reachable w \<and> intfs (manager w) \<noteq> [] \<and>
     total v4_of (intfs (manager w)) = v4_of (dhcp_devman_get_agg_dev (manager w))"
proof -
  obtain rv m where m: "dhcp_devman_add_intf sample_env ''Vlan1000'' CHR ''d'' (manager monitor_static) = Some (rv, m)"
    "intfs m \<noteq> []"
    by (simp add: sample_setup_defs monitor_static_def devman_static_def)
  have "mon_reachable (monitor_static\<lparr>manager := m\<rparr>)"
    by (rule mon_reachable.step [OF mon_reachable.boot mon_step.add [OF m(1)]])
  thus ?thesis using aggregate_is_sum_of_devices m(2) by fastforce
qed




end
