(* ===== verification/Relay6.thy ===== *)
theory Relay6
  imports Bpf
begin

text \<open>
  The DHCPv6 relay agent, \<open>src/dhcp6relay/src\<close>: \<open>relay.cpp\<close> with its header, and the part of
  \<open>configInterface.cpp\<close> that turns notifications into relay configurations.

  The static variables of the program (the counters and the four message buffers of 4096 bytes)
  and what it hands to the outside (fields of the state database, datagrams) are the record
  \<open>relay_state\<close>.  The result type distinguishes the three ways a callback can end: it returns, it
  reads or writes outside an object (\<open>Fault\<close>), or it never returns (\<open>Loops\<close>).  Text conversion of
  addresses (\<open>inet_pton\<close>), interface lists and interface indices, and the contents of variables
  that the source leaves uninitialised are arguments.
\<close>

section \<open>Data\<close>

abbreviation RELAY_PORT :: "16 word" where "RELAY_PORT \<equiv> 547"
abbreviation CLIENT_PORT :: "16 word" where "CLIENT_PORT \<equiv> 546"
abbreviation OPTION_RELAY_MSG :: "16 word" where "OPTION_RELAY_MSG \<equiv> 9"
abbreviation OPTION_CLIENT_LINKLAYER_ADDR :: "16 word" where "OPTION_CLIENT_LINKLAYER_ADDR \<equiv> 79"
abbreviation DHCPv6_MESSAGE_TYPE_COUNT :: nat where "DHCPv6_MESSAGE_TYPE_COUNT \<equiv> 14"

record sockaddr_in6 =
  sin6_addr :: mem
  sin6_port :: "16 word"
  sin6_scope_id :: nat

record relay_config =
  local_sock :: int
  filter_sock :: int
  link_address :: mem
  vlan_interface :: string
  servers :: "string list"
  servers_sock :: "sockaddr_in6 list"
  is_option_79 :: bool
  counterVlan :: string

record datagram =
  dg_sock :: int
  dg_target :: sockaddr_in6
  dg_data :: mem

record relay_state =
  r_counters :: "64 word list"
  state_db :: "string \<times> string \<Rightarrow> string option"
  client_buffer :: mem
  reply_buffer :: mem
  filter_msg :: mem
  server_msg :: mem
  sent :: "datagram list"

datatype 'a run = Done 'a | Fault | Loops

definition relay_state_init :: relay_state where
  "relay_state_init = \<lparr>r_counters = replicate DHCPv6_MESSAGE_TYPE_COUNT 0, state_db = (\<lambda>_. None),
     client_buffer = replicate 4096 0, reply_buffer = replicate 4096 0, filter_msg = replicate 4096 0,
     server_msg = replicate 4096 0, sent = []\<rparr>"

definition ether_relay_filter :: "sock_filter list" where
  "ether_relay_filter = [
     Sock_Filter 0x28 0 0 0xc,
     Sock_Filter 0x15 0 13 0x86dd,
     Sock_Filter 0x20 0 0 0x26,
     Sock_Filter 0x15 0 11 0xff020000,
     Sock_Filter 0x20 0 0 0x2a,
     Sock_Filter 0x15 0 9 0,
     Sock_Filter 0x20 0 0 0x2e,
     Sock_Filter 0x15 0 7 0,
     Sock_Filter 0x20 0 0 0x32,
     Sock_Filter 0x15 0 5 0x10002,
     Sock_Filter 0x30 0 0 0x14,
     Sock_Filter 0x15 0 3 0x11,
     Sock_Filter 0x28 0 0 0x38,
     Sock_Filter 0x15 0 1 0x223,
     Sock_Filter 0x6 0 0 0x40000,
     Sock_Filter 0x6 0 0 0
   ]"

section \<open>Counters\<close>

definition counterMap :: "nat \<Rightarrow> string option" where
  "counterMap = map_of [(1, ''Solicit''), (2, ''Advertise''), (3, ''Request''), (4, ''Confirm''), (5, ''Renew''),
     (6, ''Rebind''), (7, ''Reply''), (8, ''Release''), (9, ''Decline''), (12, ''Relay-Forward''),
     (13, ''Relay-Reply'')]"

definition toString :: "16 word \<Rightarrow> string" where
  "toString count = dec_string (unat count)"

definition hset :: "string \<Rightarrow> string \<Rightarrow> string \<Rightarrow> relay_state \<Rightarrow> relay_state" where
  "hset table field v s = s\<lparr>state_db := (state_db s)((table, field) \<mapsto> v)\<rparr>"

definition initialize_counter :: "string \<Rightarrow> relay_state \<Rightarrow> relay_state" where
  "initialize_counter table s =
     fold (\<lambda>(field, t) s. hset table field (toString (ucast (r_counters s ! t))) s)
       [(''Solicit'', 1), (''Advertise'', 2), (''Request'', 3), (''Confirm'', 4), (''Renew'', 5), (''Rebind'', 6),
        (''Reply'', 7), (''Release'', 8), (''Decline'', 9), (''Relay-Forward'', 12), (''Relay-Reply'', 13)] s"

text \<open>An unknown type dereferences the end iterator of the map.\<close>

definition update_counter :: "string \<Rightarrow> byte \<Rightarrow> relay_state \<Rightarrow> relay_state option" where
  "update_counter table msg_type s =
     (case counterMap (unat msg_type) of
        None \<Rightarrow> None
      | Some field \<Rightarrow>
          if unat msg_type < length (r_counters s)
          then Some (hset table field (toString (ucast (r_counters s ! unat msg_type))) s) else None)"

definition count_message :: "string \<Rightarrow> byte \<Rightarrow> relay_state \<Rightarrow> relay_state option" where
  "count_message table msg_type s =
     (let i = unat msg_type in
      if i < length (r_counters s)
      then update_counter table msg_type (s\<lparr>r_counters := (r_counters s)[i := r_counters s ! i + 1]\<rparr>)
      else None)"

section \<open>Addresses and parsing\<close>

definition is_addr_gua :: "mem \<Rightarrow> bool" where
  "is_addr_gua addr \<longleftrightarrow> (addr ! 0 AND 0xe0) XOR 0x20 = 0"

definition is_addr_link_local :: "mem \<Rightarrow> bool" where
  "is_addr_link_local addr \<longleftrightarrow> (be16 (addr ! 0) (addr ! 1) AND 0xffc0) XOR 0xfe80 = 0"

text \<open>The header parsers return the position of the header and the position behind it.\<close>

definition parse_ether_frame :: "nat \<Rightarrow> nat \<times> nat" where
  "parse_ether_frame pos = (pos, pos + 14)"

definition parse_ip6_hdr :: "nat \<Rightarrow> nat \<times> nat" where
  "parse_ip6_hdr pos = (pos, pos + 40)"

definition parse_udp :: "nat \<Rightarrow> nat \<times> nat" where
  "parse_udp pos = (pos, pos + 8)"


definition send_udp :: "int \<Rightarrow> mem \<Rightarrow> sockaddr_in6 \<Rightarrow> nat \<Rightarrow> relay_state \<Rightarrow> relay_state" where
  "send_udp sk buf target n s = s\<lparr>sent := sent s @ [\<lparr>dg_sock = sk, dg_target = target, dg_data = take n buf\<rparr>]\<rparr>"

section \<open>Client to server\<close>

text \<open>
  The arguments are the output buffer with the position to write at, and the buffer with the position
  of the message.  The length is cut to 16 bits by the parameter type.
\<close>

definition relay_forward :: "mem \<Rightarrow> nat \<Rightarrow> mem \<Rightarrow> nat \<Rightarrow> 16 word \<Rightarrow> mem option" where
  "relay_forward buf pos src msg msg_length = do {
     buf \<leftarrow> wrn buf pos (enc16 OPTION_RELAY_MSG @ enc16 msg_length);
     d \<leftarrow> rdn src msg (unat msg_length);
     wrn buf (pos + 4) d
   }"

definition relay_client ::
  "int \<Rightarrow> mem \<Rightarrow> nat \<Rightarrow> int \<Rightarrow> nat \<Rightarrow> nat \<Rightarrow> relay_config \<Rightarrow> relay_state \<Rightarrow> relay_state option" where
  "relay_client sk src msg len ip_hdr ether_hdr config s = do {
     peer \<leftarrow> rdn src (ip_hdr + 8) 16;
     buf \<leftarrow> wrn (client_buffer s) 0 ([12, 0] @ link_address config @ peer);
     buf \<leftarrow> relay_forward buf 34 src msg (word_of_int len);
     let pos = nat (34 + (len + 4));
     buf \<leftarrow> (if is_option_79 config
            then wrn buf pos (enc16 OPTION_CLIENT_LINKLAYER_ADDR @ enc16 8 @ enc16 1) else Some buf);
     let pos = (if is_option_79 config then pos + 6 else pos);
     shost \<leftarrow> rdn src (ether_hdr + 6) 6;
     buf \<leftarrow> wrn buf pos shost;
     let pos = pos + 6;
     Some (fold (\<lambda>server. send_udp sk buf server pos) (servers_sock config) (s\<lparr>client_buffer := buf\<rparr>))
   }"

text \<open>
  The walk over extension headers.  It advances by the header length field as it stands, so a header
  with length 0 is looked at again and again.
\<close>

partial_function (option) ext_header_loop :: "mem \<Rightarrow> nat \<Rightarrow> nat option option" where
  "ext_header_loop buf pos =
     (case rd8 buf pos of
        None \<Rightarrow> Some None
      | Some nxt \<Rightarrow>
          (case rd8 buf (pos + 1) of
             None \<Rightarrow> Some None
           | Some l \<Rightarrow> if nxt = 17 then Some (Some (pos + unat l)) else ext_header_loop buf (pos + unat l)))"

definition lift_fault :: "'a option \<Rightarrow> 'a run" where
  "lift_fault r = (case r of None \<Rightarrow> Fault | Some x \<Rightarrow> Done x)"

text \<open>\<open>recv\<close> returns a frame or fails; the source goes on with the buffer in both cases.\<close>

definition recv_into :: "mem \<Rightarrow> mem option \<Rightarrow> mem" where
  "recv_into buf frame = (case frame of
     None \<Rightarrow> buf
   | Some d \<Rightarrow> (let d = take 4096 d in d @ drop (length d) buf))"

definition callback_udp :: "relay_config \<Rightarrow> nat \<Rightarrow> relay_state \<Rightarrow> relay_state option" where
  "callback_udp config pos s =
     (let (ether_header, _) = parse_ether_frame 0;
          (ip_header, _) = parse_ip6_hdr 14;
          (udp_header, msg) = parse_udp pos
      in do {
        msg_type \<leftarrow> rd8 (filter_msg s) msg;
        s \<leftarrow> count_message (counterVlan config) msg_type s;
        udp_len \<leftarrow> rd16be (filter_msg s) (udp_header + 4);
        relay_client (local_sock config) (filter_msg s) msg (int (unat udp_len) - 8) ip_header ether_header config s
      })"

definition callback :: "relay_config \<Rightarrow> mem option \<Rightarrow> relay_state \<Rightarrow> relay_state run" where
  "callback config frame s =
     (let s = s\<lparr>filter_msg := recv_into (filter_msg s) frame\<rparr>;
          pos = snd (parse_ip6_hdr (snd (parse_ether_frame 0)))
      in case rd8 (filter_msg s) 20 of
           None \<Rightarrow> Fault
         | Some nxt \<Rightarrow>
             if nxt = 17 then lift_fault (callback_udp config pos s)
             else (case ext_header_loop (filter_msg s) pos of
                     None \<Rightarrow> Loops
                   | Some None \<Rightarrow> Fault
                   | Some (Some pos') \<Rightarrow> lift_fault (callback_udp config pos' s)))"

section \<open>Server to client\<close>

text \<open>
  The loop over the options of a relay-reply.  It stops when the position equals the length; the
  contents of relay message options are appended to the output.
\<close>

function relay_reply_loop :: "mem \<Rightarrow> int \<Rightarrow> nat \<Rightarrow> mem \<Rightarrow> nat \<Rightarrow> (mem \<times> nat) option" where
  "relay_reply_loop msg len pos buf out =
     (if int pos = len then Some (buf, out)
      else (case rd16be msg (pos + 2) of
              None \<Rightarrow> None
            | Some l \<Rightarrow>
                (case rd16be msg pos of
                   None \<Rightarrow> None
                 | Some code \<Rightarrow>
                     if code = OPTION_RELAY_MSG then
                       (case rdn msg (pos + 4) (unat l) of
                          None \<Rightarrow> None
                        | Some d \<Rightarrow>
                            (case wrn buf out d of
                               None \<Rightarrow> None
                             | Some buf' \<Rightarrow> relay_reply_loop msg len (pos + (4 + unat l)) buf' (out + unat l)))
                     else relay_reply_loop msg len (pos + (4 + unat l)) buf out)))"
  by pat_completeness auto
termination
  by (relation "measure (\<lambda>(msg, len, pos, buf, out). length msg - pos)")
     (auto simp: rd16be_def split: if_splits)

declare relay_reply_loop.simps [simp del]

text \<open>
  \<open>vla n\<close> is the number of bytes that really lie behind \<open>char ifname[n]\<close>; \<open>strcpy\<close> writes the name and
  its terminator there.
\<close>

definition relay_relay_reply ::
  "(nat \<Rightarrow> nat) \<Rightarrow> (string \<Rightarrow> nat) \<Rightarrow> int \<Rightarrow> mem \<Rightarrow> int \<Rightarrow> relay_config \<Rightarrow> relay_state \<Rightarrow> relay_state option" where
  "relay_relay_reply vla ifindex sk msg len config s = do {
     (buf, n) \<leftarrow> relay_reply_loop msg len 34 (reply_buffer s) 0;
     peer \<leftarrow> rdn msg 18 16;
     if length (vlan_interface config) + 1 \<le> vla (length (vlan_interface config)) then
       Some (send_udp sk buf \<lparr>sin6_addr = peer, sin6_port = CLIENT_PORT, sin6_scope_id = ifindex (vlan_interface config)\<rparr>
               n (s\<lparr>reply_buffer := buf\<rparr>))
     else None
   }"


section \<open>Configuration\<close>

text \<open>
  An entry of the interface list is a name with a null address (\<open>None\<close>), an address of another
  family (\<open>Some None\<close>) or an IPv6 address.
\<close>

type_synonym ifaddr = "string \<times> mem option option"

fun select_link_address :: "string \<Rightarrow> ifaddr list \<Rightarrow> mem \<Rightarrow> mem \<Rightarrow> (mem \<times> mem) option" where
  "select_link_address name [] non_link_local link_local = Some (non_link_local, link_local)"
| "select_link_address name (ifa # ifas) non_link_local link_local =
     (case snd ifa of
        None \<Rightarrow> None
      | Some None \<Rightarrow> select_link_address name ifas non_link_local link_local
      | Some (Some a) \<Rightarrow>
          if fst ifa = name \<and> is_addr_gua a then Some (a, link_local)
          else if fst ifa = name \<and> is_addr_link_local a then select_link_address name ifas non_link_local a
          else select_link_address name ifas non_link_local link_local)"

definition server_sockaddr :: "(string \<Rightarrow> mem option) \<Rightarrow> mem \<Rightarrow> string \<Rightarrow> sockaddr_in6" where
  "server_sockaddr inet_pton junk server =
     \<lparr>sin6_addr = (case inet_pton server of None \<Rightarrow> junk | Some a \<Rightarrow> a), sin6_port = RELAY_PORT, sin6_scope_id = 0\<rparr>"

definition prepare_relay_config ::
  "(string \<Rightarrow> mem option) \<Rightarrow> mem \<Rightarrow> mem \<Rightarrow> mem \<Rightarrow> ifaddr list \<Rightarrow> relay_config \<Rightarrow> int \<Rightarrow> int \<Rightarrow> relay_config option" where
  "prepare_relay_config inet_pton junk junk_gua junk_ll ifas config lsock fsock = do {
     let config = config\<lparr>local_sock := lsock, filter_sock := fsock,
           servers_sock := servers_sock config @ map (server_sockaddr inet_pton junk) (servers config)\<rparr>;
     (non_link_local, link_local) \<leftarrow> select_link_address (vlan_interface config) ifas junk_gua junk_ll;
     Some (config\<lparr>link_address := (if is_addr_gua non_link_local then non_link_local else link_local)\<rparr>)
   }"

text \<open>\<open>getline\<close> with a comma until the stream is no longer good.\<close>

fun split_servers :: "string \<Rightarrow> string \<Rightarrow> string list" where
  "split_servers acc [] = [acc]"
| "split_servers acc (ch # v) =
     (if ch = CHR '','' then acc # split_servers [] v else split_servers (acc @ [ch]) v)"

definition apply_field :: "string \<times> string \<Rightarrow> relay_config \<Rightarrow> relay_config" where
  "apply_field fv intf =
     (let f = fst fv; v = snd fv;
          intf = (if f = ''dhcpv6_servers'' then intf\<lparr>servers := servers intf @ split_servers [] v\<rparr> else intf)
      in if f = ''dhcpv6_option|rfc6939_support'' then
           (if v = ''true'' then intf\<lparr>is_option_79 := True\<rparr>
            else if v = ''false'' then intf\<lparr>is_option_79 := False\<rparr> else intf)
         else intf)"

text \<open>The first argument is a new \<open>relay_config\<close> with its uninitialised members.\<close>

definition process_entry :: "relay_config \<Rightarrow> string \<times> string \<times> (string \<times> string) list \<Rightarrow> relay_config" where
  "process_entry fresh entry =
     fold apply_field (snd (snd entry))
       (fresh\<lparr>vlan_interface := fst entry, servers := [], servers_sock := []\<rparr>)"

definition processRelayNotification ::
  "relay_config \<Rightarrow> (string \<times> string \<times> (string \<times> string) list) list \<Rightarrow> relay_config list \<Rightarrow> relay_config list" where
  "processRelayNotification fresh entries vlans = vlans @ map (process_entry fresh) entries"

section \<open>Start and stop\<close>

text \<open>What the system calls of the set-up return for a VLAN interface.\<close>

record relay_os =
  os_index :: "string \<Rightarrow> nat"
  os_raw_socket :: "string \<Rightarrow> int"
  os_raw_bind :: "string \<Rightarrow> int"
  os_raw_attach :: "string \<Rightarrow> int"
  os_udp_socket :: "string \<Rightarrow> int"
  os_pton :: "string \<Rightarrow> mem option"
  os_ifas :: "ifaddr list"
  os_junk :: mem

definition sock_open :: "nat \<Rightarrow> int \<Rightarrow> int \<Rightarrow> int \<Rightarrow> int" where
  "sock_open ifindex sk bound attached =
     (if ifindex = 0 then -1
      else if sk = -1 then -1
      else if bound = -1 then -1
      else if attached = -1 then -1
      else sk)"

text \<open>Errors of the L3 socket are only logged; the caller gets what \<open>socket\<close> returned.\<close>

definition prepare_socket :: "int \<Rightarrow> int" where
  "prepare_socket sk = sk"

definition setup_vlan :: "relay_os \<Rightarrow> relay_config \<Rightarrow> relay_state \<Rightarrow> (relay_config \<times> relay_state) option" where
  "setup_vlan os config s =
     (let name = vlan_interface config;
          config = config\<lparr>counterVlan := ''DHCPv6_COUNTER_TABLE|'' @ name\<rparr>;
          s = initialize_counter (counterVlan config) s;
          filter_sk = sock_open (os_index os name) (os_raw_socket os name) (os_raw_bind os name) (os_raw_attach os name);
          local_sk = prepare_socket (os_udp_socket os name)
      in do {
        config \<leftarrow> prepare_relay_config (os_pton os) (os_junk os) (os_junk os) (os_junk os) (os_ifas os) config
                   local_sk filter_sk;
        Some (config, s)
      })"

text \<open>
  The set-up loop: every VLAN gets an event base of its own, numbered by its position, and the global
  \<open>base\<close> is overwritten.  The result is the last value of \<open>base\<close>, which is the one \<open>signal_start\<close>
  dispatches, and the event registrations with the base each belongs to.  A registration carries the
  configuration that was set up for it; in the source it is the address of the variable of the loop
  body.
\<close>

fun loop_relay_setup ::
  "relay_os \<Rightarrow> nat \<Rightarrow> relay_config list \<Rightarrow> nat option \<Rightarrow> (nat \<times> relay_config) list \<Rightarrow> relay_state
   \<Rightarrow> (nat option \<times> (nat \<times> relay_config) list \<times> relay_state) option" where
  "loop_relay_setup os i [] base regs s = Some (base, regs, s)"
| "loop_relay_setup os i (config # vlans) base regs s = do {
     (config, s) \<leftarrow> setup_vlan os config s;
     loop_relay_setup os (i + 1) vlans (Some i) (regs @ [(i, config)]) s
   }"

definition signal_init :: "bool \<Rightarrow> bool \<Rightarrow> int" where
  "signal_init sigint_created sigterm_created =
     (if \<not> sigint_created then -1 else if \<not> sigterm_created then -1 else 0)"

definition signal_start :: "int \<Rightarrow> int \<Rightarrow> int" where
  "signal_start sigint_added sigterm_added =
     (if sigint_added \<noteq> 0 then -1 else if sigterm_added \<noteq> 0 then -1 else 0)"

definition served :: "nat option \<Rightarrow> (nat \<times> relay_config) list \<Rightarrow> relay_config list" where
  "served base regs = (case base of None \<Rightarrow> [] | Some b \<Rightarrow> map snd (filter (\<lambda>(i, c). i = b) regs))"

text \<open>The configurations whose events are dispatched, and the sockets that are closed at the end.\<close>

definition loop_relay ::
  "relay_os \<Rightarrow> bool \<Rightarrow> bool \<Rightarrow> int \<Rightarrow> int \<Rightarrow> relay_config list \<Rightarrow> relay_state
   \<Rightarrow> (relay_config list \<times> int list \<times> relay_state) option" where
  "loop_relay os c1 c2 a1 a2 vlans s = do {
     (base, regs, s) \<leftarrow> loop_relay_setup os 0 vlans None [] s;
     let sockets = concat (map (\<lambda>(i, c). [filter_sock c, local_sock c]) regs);
     if signal_init c1 c2 = 0 then
       Some (if a1 = 0 \<and> a2 = 0 then served base regs else [], if signal_start a1 a2 = 0 then sockets else [], s)
     else Some ([], [], s)
   }"

section \<open>The capture filter\<close>

text \<open>The filter expression of the comment: \<open>ip6 dst ff02::1:2 && udp dst port 547\<close>.\<close>

definition relay_frame :: "mem \<Rightarrow> bool" where
  "relay_frame pkt \<longleftrightarrow>
     rd16be pkt 12 = Some 0x86dd \<and>
     rdn pkt 38 16 = Some [0xff, 2, 0, 0, 0, 0, 0, 0, 0, 0, 0, 0, 0, 1, 0, 2] \<and>
     rd8 pkt 20 = Some 17 \<and> rd16be pkt 56 = Some 547"

lemma ether_relay_filter_at:
  "length ether_relay_filter = 16"
  "ether_relay_filter ! 0 = Sock_Filter OP_LDHA 0 0 0xc"
  "ether_relay_filter ! Suc 0 = Sock_Filter OP_JEQ 0 13 0x86dd"
  "ether_relay_filter ! 2 = Sock_Filter OP_LDW 0 0 0x26"
  "ether_relay_filter ! 3 = Sock_Filter OP_JEQ 0 11 0xff020000"
  "ether_relay_filter ! 4 = Sock_Filter OP_LDW 0 0 0x2a"
  "ether_relay_filter ! 5 = Sock_Filter OP_JEQ 0 9 0"
  "ether_relay_filter ! 6 = Sock_Filter OP_LDW 0 0 0x2e"
  "ether_relay_filter ! 7 = Sock_Filter OP_JEQ 0 7 0"
  "ether_relay_filter ! 8 = Sock_Filter OP_LDW 0 0 0x32"
  "ether_relay_filter ! 9 = Sock_Filter OP_JEQ 0 5 0x10002"
  "ether_relay_filter ! 10 = Sock_Filter OP_LDB 0 0 0x14"
  "ether_relay_filter ! 11 = Sock_Filter OP_JEQ 0 3 0x11"
  "ether_relay_filter ! 12 = Sock_Filter OP_LDHA 0 0 0x38"
  "ether_relay_filter ! 13 = Sock_Filter OP_JEQ 0 1 0x223"
  "ether_relay_filter ! 14 = Sock_Filter OP_RET 0 0 0x40000"
  "ether_relay_filter ! 15 = Sock_Filter OP_RET 0 0 0"
  by (simp_all add: ether_relay_filter_def)

lemma rdn_16:
  "rdn m i 16 = Some (a @ b @ c @ d) \<longleftrightarrow>
     rdn m i 4 = Some a \<and> rdn m (i + 4) 4 = Some b \<and> rdn m (i + 8) 4 = Some c \<and> rdn m (i + 12) 4 = Some d"
  if "length a = 4" "length b = 4" "length c = 4" "length d = 4"
proof -
  have split: "take 16 (drop i m) = take 4 (drop i m) @ take 4 (drop (i + 4) m) @ take 4 (drop (i + 8) m) @ take 4 (drop (i + 12) m)"
    using take_add [of 4 12 "drop i m"] take_add [of 4 8 "drop (i + 4) m"] take_add [of 4 4 "drop (i + 8) m"]
    by (simp add: add.commute add.left_commute)
  show ?thesis using that by (auto simp: rdn_def split)
qed

lemma rd32be_rdn: "rd32be m i = Some w \<longleftrightarrow> rdn m i 4 = Some (enc32 w)"
proof
  assume "rd32be m i = Some w"
  hence len: "i + 4 \<le> length m" and w: "w = be32 (m ! i) (m ! (i + 1)) (m ! (i + 2)) (m ! (i + 3))"
    by (auto simp: rd32be_def split: if_splits)
  obtain xs where xs: "rdn m i 4 = Some xs" using len by (simp add: rdn_def)
  show "rdn m i 4 = Some (enc32 w)"
    using xs rdn_4(1) [OF xs] by (simp add: w enc32_def enc16_def)
next
  assume r: "rdn m i 4 = Some (enc32 w)"
  note b = rdn_4 [OF r]
  have "[hi8 (hi16 w), lo8 (hi16 w), hi8 (lo16 w), lo8 (lo16 w)] = [m ! i, m ! (i + 1), m ! (i + 2), m ! (i + 3)]"
    using b(1) by (simp add: enc32_def enc16_def)
  hence "be32 (m ! i) (m ! (i + 1)) (m ! (i + 2)) (m ! (i + 3)) = w"
    using be32_hi_lo [of w] by simp
  thus "rd32be m i = Some w" using b(2) by (simp add: rd32be_def)
qed

lemma all_relay_agents:
  "rdn pkt 38 16 = Some [0xff, 2, 0, 0, 0, 0, 0, 0, 0, 0, 0, 0, 0, 1, 0, 2] \<longleftrightarrow>
     rd32be pkt 38 = Some 0xff020000 \<and> rd32be pkt 42 = Some 0 \<and> rd32be pkt 46 = Some 0 \<and>
     rd32be pkt 50 = Some 0x10002"
proof -
  have "enc32 0xff020000 = [0xff, 2, 0, 0]" "enc32 0 = [0, 0, 0, 0]" "enc32 0x10002 = [0, 1, 0, 2]"
    by (simp_all add: enc32_def enc16_def hi8_def lo8_def hi16_def lo16_def)
  thus ?thesis
    using rdn_16 [of "[0xff, 2, 0, 0]" "[0, 0, 0, 0]" "[0, 0, 0, 0]" "[0, 1, 0, 2]" pkt 38]
    by (simp add: rd32be_rdn)
qed

lemmas relay_filter_exec =
  numeral_2_eq_2 [symmetric] bpf_exec_rules ether_relay_filter_at ucast16_eq ucast8_eq bpf_accepts_def bpf_run_def

lemma relay_filter_frame: "bpf_accepts ether_relay_filter pkt \<longleftrightarrow> relay_frame pkt"
  unfolding relay_frame_def all_relay_agents
  by (simp add: relay_filter_exec cong: if_cong option.case_cong split: option.split)

text \<open>
  C21.  The BPF program of the relay accepts a frame exactly when it is an IPv6 frame to the multicast address
  ff02::1:2 that carries UDP directly behind the IPv6 header with destination port 547.
\<close>

theorem relay_filter_exact: "bpf_accepts ether_relay_filter pkt \<longleftrightarrow> relay_frame pkt"
  by (rule relay_filter_frame)

section \<open>Options\<close>








section \<open>Forwarding a client message\<close>






lemma count_message_known:
  assumes "length (r_counters s) = DHCPv6_MESSAGE_TYPE_COUNT" "counterMap (unat t) = Some field"
  shows "count_message table t s =
    (let cs = (r_counters s)[unat t := r_counters s ! unat t + 1]
     in Some (s\<lparr>r_counters := cs, state_db := (state_db s)((table, field) \<mapsto> toString (ucast (cs ! unat t)))\<rparr>))"
proof -
  have "unat t < 14" using assms(2)
    by (auto simp: counterMap_def split: if_splits)
  thus ?thesis using assms
    by (simp add: count_message_def update_counter_def hset_def Let_def)
qed





section \<open>Types without a counter\<close>

text \<open>
  A message whose type has no entry in the counter map, such as INFORMATION-REQUEST (11), makes
  the callback dereference the end iterator of the map.
\<close>

theorem unknown_type_faults:
  assumes "rd8 (filter_msg s) (pos + 8) = Some t" "counterMap (unat t) = None"
  shows "callback_udp config pos s = None"
  using assms by (simp add: callback_udp_def parse_udp_def parse_ether_frame_def parse_ip6_hdr_def
      count_message_def update_counter_def Let_def)

section \<open>Unwrapping a relay-reply\<close>




lemma exact_vla_reply_faults:
  "relay_relay_reply (\<lambda>n. n) ifindex sk msg len config s = None"
  by (auto simp: relay_relay_reply_def split: Option.bind_split)

lemma relay_reply_loop_past_end:
  "relay_reply_loop msg len pos buf out = Some r \<Longrightarrow> int pos \<le> len"
proof (induction msg len pos buf out rule: relay_reply_loop.induct)
  case (1 msg len pos buf out)
  show ?case
  proof (rule ccontr)
    assume past: "\<not> int pos \<le> len"
    hence ne: "int pos \<noteq> len" by simp
    obtain l where l: "rd16be msg (pos + 2) = Some l"
      using "1.prems" ne by (subst (asm) relay_reply_loop.simps) (auto split: option.splits)
    obtain code where code: "rd16be msg pos = Some code"
      using "1.prems" ne l by (subst (asm) relay_reply_loop.simps) (auto split: option.splits)
    have "int (pos + (4 + unat l)) \<le> len"
    proof (cases "code = OPTION_RELAY_MSG")
      case True
      then obtain d buf' where d: "rdn msg (pos + 4) (unat l) = Some d" "wrn buf out d = Some buf'"
        "relay_reply_loop msg len (pos + (4 + unat l)) buf' (out + unat l) = Some r"
        using "1.prems" ne l code by (subst (asm) relay_reply_loop.simps) (auto split: option.splits)
      show ?thesis by (rule "1.IH"(1) [OF ne l code True d])
    next
      case False
      hence "relay_reply_loop msg len (pos + (4 + unat l)) buf out = Some r"
        using "1.prems" ne l code by (subst (asm) relay_reply_loop.simps) simp
      thus ?thesis by (rule "1.IH"(2) [OF ne l code False])
    qed
    thus False using past by linarith
  qed
qed

text \<open>
  If the length of an option runs past the end of the relay-reply, the loop steps over the end,
  never meets its exit condition again, and reads on until it leaves the receive buffer.
\<close>

theorem overlong_option_faults:
  assumes "msg = hdr @ enc16 code @ enc16 l @ rest" "length hdr = pos" "int pos < len" "len < int (pos + (4 + unat l))"
  shows "relay_reply_loop msg len pos buf out = None"
proof (rule ccontr)
  assume "relay_reply_loop msg len pos buf out \<noteq> None"
  then obtain r where r: "relay_reply_loop msg len pos buf out = Some r" by blast
  have c: "rd16be msg pos = Some code" using rd16be_enc16 [of hdr code] assms(1,2) by simp
  have l: "rd16be msg (pos + 2) = Some l" using rd16be_enc16 [of "hdr @ enc16 code" l] assms(1,2) by simp
  have "\<exists>b o'. relay_reply_loop msg len (pos + (4 + unat l)) b o' = Some r"
    using r assms(3) c l by (subst (asm) relay_reply_loop.simps) (auto split: option.splits if_splits)
  hence "int (pos + (4 + unat l)) \<le> len" using relay_reply_loop_past_end by blast
  thus False using assms(4) by simp
qed

section \<open>Published counters\<close>

text \<open>
  Counting a message publishes, under the name of its type, the decimal digits of the counter
  modulo 65536: the 64-bit counter passes through a 16-bit parameter.
\<close>

theorem published_counter:
  assumes "length (r_counters s) = DHCPv6_MESSAGE_TYPE_COUNT" "counterMap (unat t) = Some field"
  shows "\<exists>s' v. count_message table t s = Some s' \<and> state_db s' (table, field) = Some v \<and>
    dec_value v = unat (r_counters s' ! unat t) mod 65536 \<and>
    r_counters s' ! unat t = r_counters s ! unat t + 1"
proof -
  have lt: "unat t < 14" using assms(2) by (auto simp: counterMap_def split: if_splits)
  have tr: "dec_value (toString (ucast (w :: 64 word))) = unat w mod 65536" for w
    by (simp add: toString_def dec_value_dec_string unsigned_ucast_eq take_bit_eq_mod)
  show ?thesis
    using count_message_known [OF assms, of table] lt assms(1) by (simp add: Let_def tr)
qed

section \<open>Extension headers\<close>

lemma ext_header_result_not_stuck:
  assumes "ext_header_loop buf pos = Some y"
  shows "\<not> (\<exists>nxt. rd8 buf pos = Some nxt \<and> nxt \<noteq> 17 \<and> rd8 buf (pos + 1) = Some 0)"
  by (rule ext_header_loop.raw_induct [OF _ assms]) (force split: option.splits if_splits)

lemma ext_header_zero_length:
  assumes "rd8 buf pos = Some nxt" "nxt \<noteq> 17" "rd8 buf (pos + 1) = Some 0"
  shows "ext_header_loop buf pos = None"
  using ext_header_result_not_stuck [of buf pos] assms by (cases "ext_header_loop buf pos") auto

lemma zero_length_extension_header_loops:
  assumes "length frame \<le> 4096" "rd8 frame 20 = Some nh" "nh \<noteq> 17"
    and "rd8 frame 54 = Some nxt" "nxt \<noteq> 17" "rd8 frame 55 = Some 0"
  shows "callback config (Some frame) s = Loops"
proof -
  have same: "rd8 (recv_into (filter_msg s) (Some frame)) i = rd8 frame i" if "rd8 frame i = Some b" for i b
    using that assms(1) by (auto simp: recv_into_def rd8_def Let_def nth_append split: if_splits)
  have "ext_header_loop (recv_into (filter_msg s) (Some frame)) 54 = None"
    using assms(4-6) same by (intro ext_header_zero_length [where nxt = nxt]) simp_all
  thus ?thesis using assms(2,3) same
    by (simp add: callback_def parse_ether_frame_def parse_ip6_hdr_def Let_def)
qed


section \<open>Configuration\<close>

definition join_servers :: "string list \<Rightarrow> string" where
  "join_servers ss = concat (map (\<lambda>s. CHR '','' # s) ss)"

lemma split_plain: "CHR '','' \<notin> set s \<Longrightarrow> split_servers acc (s @ v) = split_servers (acc @ s) v"
  by (induction s arbitrary: acc) auto

lemma split_join: "list_all (\<lambda>s. CHR '','' \<notin> set s) ss \<Longrightarrow> split_servers acc (join_servers ss) = acc # ss"
proof (induction ss arbitrary: acc)
  case Nil
  thus ?case by (simp add: join_servers_def)
next
  case (Cons s ss)
  have "split_servers acc (join_servers (s # ss)) = acc # split_servers [] (s @ join_servers ss)"
    by (simp add: join_servers_def)
  also have "split_servers [] (s @ join_servers ss) = split_servers s (join_servers ss)"
    using Cons.prems by (simp add: split_plain)
  finally show ?case using Cons by simp
qed

text \<open>
  A configuration entry is turned into the relay configuration it describes: the comma-
  separated server list is split into exactly the servers it was made of, and the option flag is
  set.
\<close>

theorem notification_servers:
  assumes "list_all (\<lambda>s. CHR '','' \<notin> set s) (first # others)"
  shows "processRelayNotification fresh
      [(vlan, oper, [(''dhcpv6_servers'', first @ join_servers others), (''dhcpv6_option|rfc6939_support'', ''true'')])] vlans =
    vlans @ [fresh\<lparr>vlan_interface := vlan, servers := first # others, servers_sock := [], is_option_79 := True\<rparr>]"
proof -
  have "split_servers [] (first @ join_servers others) = first # others"
    using assms split_plain [of first "[]"] split_join [of others first] by simp
  thus ?thesis by (simp add: processRelayNotification_def process_entry_def apply_field_def Let_def)
qed

definition gua_of :: "string \<Rightarrow> ifaddr \<Rightarrow> bool" where
  "gua_of name ifa = (fst ifa = name \<and> (case snd ifa of Some (Some a) \<Rightarrow> is_addr_gua a | _ \<Rightarrow> False))"

definition ll_of :: "string \<Rightarrow> ifaddr \<Rightarrow> bool" where
  "ll_of name ifa = (fst ifa = name \<and> (case snd ifa of Some (Some a) \<Rightarrow> is_addr_link_local a | _ \<Rightarrow> False))"

lemma select_first_gua:
  "list_all (\<lambda>ifa. snd ifa \<noteq> None) before \<Longrightarrow> list_all (\<lambda>ifa. \<not> gua_of name ifa) before \<Longrightarrow> is_addr_gua a \<Longrightarrow>
   \<exists>ll'. select_link_address name (before @ (name, Some (Some a)) # later) g ll = Some (a, ll')"
proof (induction "before" arbitrary: ll)
  case Nil
  thus ?case by simp
next
  case (Cons ifa ifas)
  thus ?case
    by (cases ifa; cases "snd ifa"; cases "the (snd ifa)") (auto simp: gua_of_def)
qed

text \<open>
  The link address of a VLAN is the first global unicast address of its interface in the
  interface list.
\<close>

theorem link_address_first_global:
  assumes "list_all (\<lambda>ifa. snd ifa \<noteq> None) before" "list_all (\<lambda>ifa. \<not> gua_of (vlan_interface config) ifa) before"
    and "is_addr_gua a"
  shows "\<exists>config'. prepare_relay_config pton junk jg jl (before @ (vlan_interface config, Some (Some a)) # later) config ls fs = Some config' \<and>
    link_address config' = a \<and> local_sock config' = ls \<and> filter_sock config' = fs \<and>
    length (servers_sock config') = length (servers_sock config) + length (servers config)"
  using select_first_gua [OF assms, of later jg jl] assms(3)
  by (auto simp: prepare_relay_config_def Let_def)

lemma link_address_uninitialised:
  assumes "list_all (\<lambda>ifa. snd ifa \<noteq> None \<and> fst ifa \<noteq> vlan_interface config) ifas"
  shows "\<exists>config'. prepare_relay_config pton junk jg jl ifas config ls fs = Some config' \<and>
    link_address config' = (if is_addr_gua jg then jg else jl)"
proof -
  have "select_link_address name xs g l = Some (g, l)"
    if "list_all (\<lambda>ifa. snd ifa \<noteq> None \<and> fst ifa \<noteq> name) xs" for name xs g l
    using that by (induction xs) (auto split: option.split)
  thus ?thesis using assms by (simp add: prepare_relay_config_def Let_def)
qed

lemma null_interface_address_faults:
  assumes "list_all (\<lambda>ifa. snd ifa = Some None) before"
  shows "prepare_relay_config pton junk jg jl (before @ (name, None) # later) config ls fs = None"
proof -
  have "select_link_address n (before @ (name, None) # later) g l = None" for n g l
    using assms by (induction "before") auto
  thus ?thesis by (simp add: prepare_relay_config_def Let_def)
qed

section \<open>Event bases\<close>

lemma loop_relay_setup_bases:
  "loop_relay_setup os i vlans base regs s = Some (base', regs', s') \<Longrightarrow>
   \<exists>new. regs' = regs @ new \<and> map fst new = [i ..< i + length vlans] \<and>
     map (\<lambda>r. vlan_interface (snd r)) new = map vlan_interface vlans \<and>
     base' = (if vlans = [] then base else Some (i + length vlans - 1))"
proof (induction vlans arbitrary: i base regs s)
  case Nil
  thus ?case by simp
next
  case (Cons config vlans)
  obtain config' s1 where st: "setup_vlan os config s = Some (config', s1)"
    and rest: "loop_relay_setup os (i + 1) vlans (Some i) (regs @ [(i, config')]) s1 = Some (base', regs', s')"
    using Cons.prems by (auto simp: bind_eq_Some_conv)
  have name: "vlan_interface config' = vlan_interface config"
    using st by (auto simp: setup_vlan_def prepare_relay_config_def Let_def bind_eq_Some_conv)
  from Cons.IH [OF rest] obtain new where
    "regs' = (regs @ [(i, config')]) @ new" "map fst new = [i + 1 ..< i + 1 + length vlans]"
    "map (\<lambda>r. vlan_interface (snd r)) new = map vlan_interface vlans"
    "base' = (if vlans = [] then Some i else Some (i + 1 + length vlans - 1))"
    by blast
  thus ?case using name
    by (intro exI [of _ "(i, config') # new"]) (auto simp: upt_conv_Cons)
qed

text \<open>
  Only the last VLAN is served. Every VLAN is registered with an event base of its own and only
  the base created last is dispatched, although sockets are opened for all of them.
\<close>

theorem only_last_vlan_served:
  assumes "loop_relay os True True 0 0 (vlans @ [final]) s = Some (srv, socks, s')"
  shows "map vlan_interface srv = [vlan_interface final] \<and> length socks = 2 * (length vlans + 1)"
proof -
  obtain base regs where l: "loop_relay_setup os 0 (vlans @ [final]) None [] s = Some (base, regs, s')"
    and srv: "srv = served base regs" and socks: "socks = concat (map (\<lambda>(i, c). [filter_sock c, local_sock c]) regs)"
    using assms by (auto simp: loop_relay_def signal_init_def signal_start_def bind_eq_Some_conv)
  from loop_relay_setup_bases [OF l]
  have regs: "map fst regs = [0 ..< length vlans + 1]" "map (\<lambda>r. vlan_interface (snd r)) regs = map vlan_interface (vlans @ [final])"
    and base: "base = Some (length vlans)" by auto
  have len: "length regs = length vlans + 1" using regs(1) by (metis length_map length_upt minus_nat.diff_0)
  then obtain front r where r: "regs = front @ [r]" "length front = length vlans"
    by (cases regs rule: rev_cases) auto
  have front: "map fst front = [0 ..< length vlans]" "fst r = length vlans"
    using regs(1) r by auto
  have "filter (\<lambda>(i, c). i = length vlans) front = []"
  proof (rule filter_False)
    show "\<forall>x\<in>set front. \<not> (case x of (i, c) \<Rightarrow> i = length vlans)"
      using front(1) by (metis (mono_tags, lifting) atLeastLessThan_iff case_prod_beta image_eqI less_irrefl set_map set_upt)
  qed
  hence "srv = [snd r]" using r front by (simp add: srv served_def base split_beta)
  moreover have "vlan_interface (snd r) = vlan_interface final" using regs(2) r by auto
  moreover have "length socks = 2 * length regs" unfolding socks by (induction regs) auto
  ultimately show ?thesis using len by simp
qed

section \<open>Concrete inputs\<close>

definition sample_config :: relay_config where
  "sample_config = \<lparr>local_sock = 5, filter_sock = 4, link_address = [32, 1] @ replicate 14 0, vlan_interface = ''Vlan1000'',
     servers = [''2001:db8::1''], servers_sock = [\<lparr>sin6_addr = [32, 1] @ replicate 14 7, sin6_port = 547, sin6_scope_id = 0\<rparr>],
     is_option_79 = True, counterVlan = ''DHCPv6_COUNTER_TABLE|Vlan1000''\<rparr>"





theorem unknown_type_faults_witness:
  "callback_udp sample_config 54 (relay_state_init\<lparr>filter_msg := replicate 62 0 @ [11] @ replicate 4033 0\<rparr>) = None"
  by (rule unknown_type_faults [where t = 11]) (simp_all add: rd8_def nth_append counterMap_def)



theorem overlong_option_faults_witness:
  "relay_reply_loop (replicate 34 0 @ enc16 9 @ enc16 100 @ replicate 4058 0) 60 34 (replicate 4096 0) 0 = None"
  by (rule overlong_option_faults [where hdr = "replicate 34 0" and code = 9 and l = 100 and rest = "replicate 4058 0"])
     simp_all

theorem published_counter_witness:
  "\<exists>s' v. count_message ''T'' 1 (relay_state_init\<lparr>r_counters := replicate 14 65535\<rparr>) = Some s' \<and>
     state_db s' (''T'', ''Solicit'') = Some v \<and> dec_value v = 0 \<and> r_counters s' ! 1 = 65536"
  using published_counter [of "relay_state_init\<lparr>r_counters := replicate 14 65535\<rparr>" 1 "''Solicit''" "''T''"]
  by (auto simp: counterMap_def relay_state_init_def)


theorem notification_servers_witness:
  "processRelayNotification sample_config
     [(''Vlan1000'', ''SET'', [(''dhcpv6_servers'', ''fc02::1,fc02::2''), (''dhcpv6_option|rfc6939_support'', ''true'')])] [] =
   [sample_config\<lparr>vlan_interface := ''Vlan1000'', servers := [''fc02::1'', ''fc02::2''], servers_sock := [], is_option_79 := True\<rparr>]"
  using notification_servers [of "''fc02::1''" "[''fc02::2'']" sample_config "''Vlan1000''" "''SET''" "[]"]
  by (simp add: join_servers_def)

definition sample_relay_os :: relay_os where
  "sample_relay_os = \<lparr>os_index = \<lambda>_. 3, os_raw_socket = \<lambda>_. 4, os_raw_bind = \<lambda>_. 0, os_raw_attach = \<lambda>_. 0,
     os_udp_socket = \<lambda>_. 5, os_pton = \<lambda>_. None, os_ifas = [(''lo'', Some None), (''Vlan1000'', Some (Some ([32, 1] @ replicate 14 0)))],
     os_junk = replicate 16 0\<rparr>"

theorem link_address_first_global_witness:
  "\<exists>config'. prepare_relay_config (\<lambda>_. None) [] [] [] [(''lo'', Some None), (''Vlan1000'', Some (Some ([32, 1] @ replicate 14 0)))]
     sample_config 5 4 = Some config' \<and> link_address config' = [32, 1] @ replicate 14 0"
  using link_address_first_global [of "[(''lo'', Some None)]" sample_config "[32, 1] @ replicate 14 0" "\<lambda>_. None" "[]" "[]" "[]" "[]" 5 4]
  by (auto simp: gua_of_def is_addr_gua_def sample_config_def)

theorem only_last_vlan_served_witness:
  "\<exists>srv socks s'. loop_relay sample_relay_os True True 0 0
     [sample_config, sample_config\<lparr>vlan_interface := ''Vlan2000''\<rparr>] relay_state_init = Some (srv, socks, s') \<and>
     map vlan_interface srv = [''Vlan2000''] \<and> length socks = 4"
proof -
  obtain r where r: "loop_relay sample_relay_os True True 0 0
     ([sample_config] @ [sample_config\<lparr>vlan_interface := ''Vlan2000''\<rparr>]) relay_state_init = Some r"
    by (simp add: loop_relay_def setup_vlan_def prepare_relay_config_def sample_relay_os_def sample_config_def
        is_addr_gua_def is_addr_link_local_def be16_eval signal_init_def Let_def)
  obtain srv socks s' where "r = (srv, socks, s')" by (cases r) auto
  with r only_last_vlan_served [of sample_relay_os "[sample_config]" "sample_config\<lparr>vlan_interface := ''Vlan2000''\<rparr>" relay_state_init srv socks s']
  show ?thesis by (auto simp: sample_config_def)
qed

end
