(* ===== verification/Iccp_Msg.thy ===== *)
theory Iccp_Msg
  imports Prelude
begin

text \<open>
  Wire format of the Inter-Chassis Communication Protocol daemon
  (\<open>src/src/iccpd/include/msg_format.h\<close>) and the log of sent messages.

  The structures of the header file are packed and are overlaid on byte buffers, so a structure
  is modelled by the bytes it occupies.  Bit fields are those of a little-endian host: the first
  member of \<open>LDPHdr\<close> is the 16-bit little-endian load whose lower 15 bits are \<open>msg_type\<close> and
  whose top bit is \<open>u_bit\<close>; the first member of \<open>ICCParameter\<close> has 14 bits of \<open>type\<close>, then
  \<open>f_bit\<close> and \<open>u_bit\<close>.
\<close>

unbundle bit_operations_syntax

section \<open>Types of interfaces\<close>

datatype if_type =
  IF_T_UNKNOW | IF_T_PORT | IF_T_PORT_CHANNEL | IF_T_VLAN | IF_T_VXLAN | IF_T_BRIDGE

section \<open>Constants of the protocol\<close>

abbreviation (input) MSG_T_CAPABILITY :: "16 word" where "MSG_T_CAPABILITY \<equiv> 0x0202"
abbreviation (input) MSG_T_RG_CONNECT :: "16 word" where "MSG_T_RG_CONNECT \<equiv> 0x0700"
abbreviation (input) MSG_T_RG_DISCONNECT :: "16 word" where "MSG_T_RG_DISCONNECT \<equiv> 0x0701"
abbreviation (input) MSG_T_NOTIFICATION :: "16 word" where "MSG_T_NOTIFICATION \<equiv> 0x0702"
abbreviation (input) MSG_T_RG_APP_DATA :: "16 word" where "MSG_T_RG_APP_DATA \<equiv> 0x0703"

abbreviation (input) TLV_T_ICCP_CAPABILITY :: "16 word" where "TLV_T_ICCP_CAPABILITY \<equiv> 0x0700"
abbreviation (input) TLV_L_ICCP_CAPABILITY :: "16 word" where "TLV_L_ICCP_CAPABILITY \<equiv> 4"
abbreviation (input) TLV_T_ICC_SENDER_NAME :: "16 word" where "TLV_T_ICC_SENDER_NAME \<equiv> 0x0001"
abbreviation (input) TLV_T_NAK :: "16 word" where "TLV_T_NAK \<equiv> 0x0002"
abbreviation (input) TLV_T_DISCONNECT_CODE :: "16 word" where "TLV_T_DISCONNECT_CODE \<equiv> 0x0004"
abbreviation (input) TLV_L_DISCONNECT_CODE :: "16 word" where "TLV_L_DISCONNECT_CODE \<equiv> 4"
abbreviation (input) TLV_T_ICC_RG_ID :: "16 word" where "TLV_T_ICC_RG_ID \<equiv> 0x0005"
abbreviation (input) TLV_L_ICC_RG_ID :: "16 word" where "TLV_L_ICC_RG_ID \<equiv> 4"
abbreviation (input) TLV_T_MLACP_CONNECT :: "16 word" where "TLV_T_MLACP_CONNECT \<equiv> 0x0030"
abbreviation (input) TLV_T_MLACP_ARP_INFO :: "16 word" where "TLV_T_MLACP_ARP_INFO \<equiv> 0x1036"
abbreviation (input) TLV_T_MLACP_NDISC_INFO :: "16 word" where "TLV_T_MLACP_NDISC_INFO \<equiv> 0x103a"
abbreviation (input) TLV_T_MLACP_MAC_INFO :: "16 word" where "TLV_T_MLACP_MAC_INFO \<equiv> 0x1038"
abbreviation (input) TLV_T_MLACP_LIST_END :: "16 word" where "TLV_T_MLACP_LIST_END \<equiv> 0x104a"

abbreviation (input) STATUS_CODE_U_ICCP_RG :: "32 word"
  where "STATUS_CODE_U_ICCP_RG \<equiv> 0x00010001"
abbreviation (input) STATUS_CODE_ICCP_REJECTED_MSG :: "32 word"
  where "STATUS_CODE_ICCP_REJECTED_MSG \<equiv> 0x00010006"
abbreviation (input) STATUS_CODE_ICCP_RG_REMOVED :: "32 word"
  where "STATUS_CODE_ICCP_RG_REMOVED \<equiv> 0x00010010"

abbreviation (input) sizeof_LDPHdr :: nat where "sizeof_LDPHdr \<equiv> 8"
abbreviation (input) sizeof_ICCHdr :: nat where "sizeof_ICCHdr \<equiv> 16"
abbreviation (input) sizeof_ICCParameter :: nat where "sizeof_ICCParameter \<equiv> 4"
abbreviation (input) sizeof_CapabilityTLV :: nat where "sizeof_CapabilityTLV \<equiv> 8"
abbreviation (input) sizeof_NAKTLV :: nat where "sizeof_NAKTLV \<equiv> 12"
abbreviation (input) sizeof_DisconnectCodeTLV :: nat where "sizeof_DisconnectCodeTLV \<equiv> 8"
abbreviation (input) MSG_L_INCLUD_U_BIT_MSG_T_L_FIELDS :: nat
  where "MSG_L_INCLUD_U_BIT_MSG_T_L_FIELDS \<equiv> 4"
abbreviation (input) MAX_MSG_LOG_SIZE :: nat where "MAX_MSG_LOG_SIZE \<equiv> 128"
abbreviation (input) CSM_BUFFER_SIZE :: nat where "CSM_BUFFER_SIZE \<equiv> 65536"

section \<open>Fields of the packed structures\<close>

definition htons :: "16 word \<Rightarrow> 16 word" where
  "htons w = be16 (lo8 w) (hi8 w)"

text \<open>\<open>*(uint16_t *)p = ntohs(*(uint16_t *)p)\<close>: the two bytes at the offset change places.\<close>

definition swap16 :: "mem \<Rightarrow> nat \<Rightarrow> mem option" where
  "swap16 m i = (if i + 2 \<le> length m then Some (m[i := m ! (i + 1), i + 1 := m ! i]) else None)"

definition msg_type_field :: "mem \<Rightarrow> 16 word option" where
  "msg_type_field m = map_option (\<lambda>w. w AND 0x7fff) (rd16le m 0)"

definition param_type :: "mem \<Rightarrow> nat \<Rightarrow> 16 word option" where
  "param_type m i = map_option (\<lambda>w. w AND 0x3fff) (rd16le m i)"

definition param_f_bit :: "mem \<Rightarrow> nat \<Rightarrow> bool option" where
  "param_f_bit m i = map_option (\<lambda>w. bit w 14) (rd16le m i)"

definition param_u_bit :: "mem \<Rightarrow> nat \<Rightarrow> bool option" where
  "param_u_bit m i = map_option (\<lambda>w. bit w 15) (rd16le m i)"

text \<open>
  The stores the senders make into a zeroed buffer: \<open>u_bit = 0; msg_type = htons(t)\<close> writes the
  byte-swapped type into the 15-bit field, and the 14-bit \<open>type\<close> of a parameter loses the two
  top bits of the byte-swapped value.
\<close>

definition LDPHdr :: "16 word \<Rightarrow> nat \<Rightarrow> 32 word \<Rightarrow> mem" where
  "LDPHdr ty msg_len mid =
     enc16le (htons ty AND 0x7fff) @
     enc16 (of_nat (msg_len - MSG_L_INCLUD_U_BIT_MSG_T_L_FIELDS)) @ enc32 mid"

definition ICCRGIDTLV :: "32 word \<Rightarrow> mem" where
  "ICCRGIDTLV rg = enc16 TLV_T_ICC_RG_ID @ enc16 TLV_L_ICC_RG_ID @ enc32 rg"

definition ICCParameter :: "16 word \<Rightarrow> nat \<Rightarrow> mem" where
  "ICCParameter ty len = enc16le (htons ty AND 0x3fff) @ enc16 (of_nat len)"

section \<open>The log of sent messages\<close>

record MsgTypeSet =
  log_msg_id :: "32 word"
  log_type :: "16 word"
  log_tlv :: "16 word"

record MsgLog =
  log_msg :: "MsgTypeSet list"
  end_index :: nat

definition MsgLog_zero :: MsgLog where
  "MsgLog_zero = \<lparr> log_msg = replicate MAX_MSG_LOG_SIZE \<lparr> log_msg_id = 0, log_type = 0, log_tlv = 0 \<rparr>,
                   end_index = 0 \<rparr>"

definition log_sent :: "MsgTypeSet \<Rightarrow> MsgLog \<Rightarrow> MsgLog" where
  "log_sent x l = \<lparr> log_msg = (log_msg l)[end_index l := x],
                    end_index = (if end_index l + 1 \<ge> 128 then 0 else end_index l + 1) \<rparr>"

definition log_find :: "32 word \<Rightarrow> MsgLog \<Rightarrow> MsgTypeSet option" where
  "log_find mid l = find (\<lambda>x. log_msg_id x = mid) (log_msg l)"

definition log_ok :: "MsgLog \<Rightarrow> bool" where
  "log_ok l \<longleftrightarrow> length (log_msg l) = MAX_MSG_LOG_SIZE \<and> end_index l < MAX_MSG_LOG_SIZE"

section \<open>Facts about the fields\<close>

named_theorems iccp_codec \<open>headers and parameters of protocol messages\<close>

lemma length_LDPHdr [simp]: "length (LDPHdr t n i) = 8"
  and length_ICCRGIDTLV [simp]: "length (ICCRGIDTLV r) = 8"
  and length_ICCParameter [simp]: "length (ICCParameter t n) = 4"
  by (simp_all add: LDPHdr_def ICCRGIDTLV_def ICCParameter_def)

lemma htons_htons [simp]: "htons (htons w) = w"
  by (simp add: htons_def)

lemma enc16le_htons [simp]: "enc16le (htons w) = enc16 w"
  by (simp add: htons_def enc16le_def enc16_def)

lemma bit_hi8: "bit (hi8 w) n \<longleftrightarrow> n < 8 \<and> bit w (n + 8)"
  and bit_lo8: "bit (lo8 w) n \<longleftrightarrow> n < 8 \<and> bit w n"
  by (auto simp: hi8_def lo8_def bit_simps ac_simps)

lemma bit_be16: "bit (be16 a b) n \<longleftrightarrow> (if n < 8 then bit b n else n < 16 \<and> bit a (n - 8))"
  by (auto simp: be16_def bit_simps)

lemma htons_and_15:
  assumes "\<not> bit w 7"
  shows "htons w AND 0x7fff = htons w"
proof (rule bit_word_eqI)
  fix n assume n: "n < LENGTH(16)"
  have m: "bit (0x7fff :: 16 word) n \<longleftrightarrow> n < 15"
  proof -
    have e: "(0x7fff :: 16 word) = mask 15" by (simp add: mask_eq_exp_minus_1)
    show ?thesis unfolding e using n by (simp add: bit_mask_iff)
  qed
  show "bit (htons w AND 0x7fff) n \<longleftrightarrow> bit (htons w) n"
    using n assms m by (cases "n = 15") (auto simp: bit_simps htons_def bit_be16 bit_lo8 bit_hi8)
qed

lemma htons_and_14:
  assumes "\<not> bit w 7" "\<not> bit w 6"
  shows "htons w AND 0x3fff = htons w"
proof (rule bit_word_eqI)
  fix n assume n: "n < LENGTH(16)"
  have m: "bit (0x3fff :: 16 word) n \<longleftrightarrow> n < 14"
  proof -
    have e: "(0x3fff :: 16 word) = mask 14" by (simp add: mask_eq_exp_minus_1)
    show ?thesis unfolding e using n by (simp add: bit_mask_iff)
  qed
  have "n = 14 \<or> n = 15 \<or> n < 14" using n by auto
  thus "bit (htons w AND 0x3fff) n \<longleftrightarrow> bit (htons w) n"
    using n assms m by (auto simp: bit_simps htons_def bit_be16 bit_lo8 bit_hi8)
qed

lemma LDPHdr_wire: "\<not> bit ty 7 \<Longrightarrow>
   LDPHdr ty n mid = enc16 ty @ enc16 (of_nat (n - 4)) @ enc32 mid"
  by (simp add: LDPHdr_def htons_and_15)

lemma ICCParameter_wire: "\<not> bit ty 7 \<Longrightarrow> \<not> bit ty 6 \<Longrightarrow>
   ICCParameter ty n = enc16 ty @ enc16 (of_nat n)"
  by (simp add: ICCParameter_def htons_and_14)

lemma length_swap16: "swap16 m i = Some m' \<Longrightarrow> length m' = length m"
  by (auto simp: swap16_def split: if_splits)

lemma swap16_at [iccp_codec]:
  "swap16 (xs @ enc16 w @ ys) (length xs) = Some (xs @ enc16le w @ ys)"
  by (simp add: swap16_def enc16_def enc16le_def nth_append list_update_append)

lemma rd16le_at: "rd16le (xs @ enc16le w @ ys) (length xs) = Some w"
  by (simp add: rd16le_def enc16le_def nth_append)

lemma rd16le_swapped: "swap16 m i = Some m' \<Longrightarrow> rd16le m' i = rd16be m i"
  by (auto simp: swap16_def rd16le_def rd16be_def split: if_splits)

section \<open>The ring of sent messages\<close>

lemma log_ok_zero [simp]: "log_ok MsgLog_zero"
  by (simp add: log_ok_def MsgLog_zero_def)

lemma log_ok_sent [simp]: "log_ok l \<Longrightarrow> log_ok (log_sent x l)"
  by (simp add: log_ok_def log_sent_def)

text \<open>The log after a sequence of sends, oldest first.\<close>

definition log_all :: "MsgTypeSet list \<Rightarrow> MsgLog" where
  "log_all xs = fold log_sent xs MsgLog_zero"

lemma log_all_snoc: "log_all (xs @ [x]) = log_sent x (log_all xs)"
  by (simp add: log_all_def)

lemma log_all_ok [simp]: "log_ok (log_all xs)"
  by (induction xs rule: rev_induct) (simp_all add: log_all_snoc, simp add: log_all_def)

lemma log_all_end_index: "end_index (log_all xs) = length xs mod 128"
proof (induction xs rule: rev_induct)
  case Nil
  show ?case by (simp add: log_all_def MsgLog_zero_def)
next
  case (snoc x xs)
  have "length xs mod 128 < 128" by simp
  with snoc show ?case by (auto simp: log_all_snoc log_sent_def mod_Suc)
qed

lemma log_all_slot:
  "k < length xs \<Longrightarrow> length xs \<le> k + 128 \<Longrightarrow> log_msg (log_all xs) ! (k mod 128) = xs ! k"
proof (induction xs arbitrary: k rule: rev_induct)
  case (snoc x xs)
  have len: "length (log_msg (log_all xs)) = 128"
    using log_all_ok [of xs] by (simp add: log_ok_def)
  show ?case
  proof (cases "k = length xs")
    case True
    thus ?thesis by (simp add: log_all_snoc log_sent_def log_all_end_index len)
  next
    case False
    hence k: "k < length xs" "length xs < k + 128" using snoc.prems by auto
    have "k mod 128 \<noteq> length xs mod 128"
    proof
      assume "k mod 128 = length xs mod 128"
      hence "128 dvd length xs - k" using k mod_eq_dvd_iff_nat [of k "length xs" 128] by simp
      thus False using k by (auto dest: dvd_imp_le)
    qed
    thus ?thesis using snoc.IH [of k] k
      by (simp add: log_all_snoc log_sent_def log_all_end_index nth_append)
  qed
qed simp

lemma log_all_entries:
  "e \<in> set (log_msg (log_all xs)) \<Longrightarrow> e \<in> set xs \<or> log_msg_id e = 0"
proof (induction xs rule: rev_induct)
  case Nil
  thus ?case by (simp add: log_all_def MsgLog_zero_def)
next
  case (snoc x xs)
  thus ?case using set_update_subset_insert [of "log_msg (log_all xs)"]
    by (auto simp: log_all_snoc log_sent_def)
qed

lemma find_unique:
  assumes "x \<in> set xs" "P x" "\<And>y. y \<in> set xs \<Longrightarrow> P y \<Longrightarrow> y = x"
  shows "find P xs = Some x"
  using assms
proof (induction xs)
  case (Cons a xs)
  show ?case
  proof (cases "P a")
    case True
    moreover from this have "a = x" by (intro Cons.prems(3)) simp_all
    ultimately show ?thesis by simp
  next
    case False
    hence "x \<in> set xs" using Cons.prems(1,2) by auto
    moreover have "\<And>y. y \<in> set xs \<Longrightarrow> P y \<Longrightarrow> y = x"
      by (rule Cons.prems(3)) simp_all
    ultimately have "find P xs = Some x" by (rule Cons.IH [OF _ Cons.prems(2)])
    thus ?thesis using False by simp
  qed
qed simp

text \<open>
  The ring of 128 sent messages answers for the last 128 of them. When messages with different
  non-zero identifiers have been logged, looking up the identifier of any of the most recent 128
  gives back the logged type and parameter of that very message.
\<close>

lemma msg_log_finds_recent:
  assumes dist: "distinct (map log_msg_id xs)" and nz: "0 \<notin> log_msg_id ` set xs"
    and k: "k < length xs" "length xs \<le> k + 128"
  shows "log_find (log_msg_id (xs ! k)) (log_all xs) = Some (xs ! k)"
  unfolding log_find_def
proof (rule find_unique)
  have "length (log_msg (log_all xs)) = 128"
    using log_all_ok [of xs] by (simp add: log_ok_def)
  thus "xs ! k \<in> set (log_msg (log_all xs))"
    using log_all_slot [OF k] nth_mem [of "k mod 128" "log_msg (log_all xs)"] by simp
  show "log_msg_id (xs ! k) = log_msg_id (xs ! k)" ..
  fix y assume y: "y \<in> set (log_msg (log_all xs))" "log_msg_id y = log_msg_id (xs ! k)"
  have in_xs: "xs ! k \<in> set xs" using k by simp
  with nz y(2) have "log_msg_id y \<noteq> 0" by force
  with log_all_entries [OF y(1)] have "y \<in> set xs" by simp
  with dist in_xs y(2) show "y = xs ! k" by (auto simp: distinct_map inj_on_def)
qed

lemma msg_log_finds_recent_witness:
  "log_find 7 (log_all [\<lparr> log_msg_id = 7, log_type = 0x0703, log_tlv = 0x32 \<rparr>]) =
     Some \<lparr> log_msg_id = 7, log_type = 0x0703, log_tlv = 0x32 \<rparr>"
  using msg_log_finds_recent
    [of "[\<lparr> log_msg_id = 7, log_type = 0x0703, log_tlv = 0x32 \<rparr>]" 0] by simp

end
