(* ===== verification/Iccp_Csm.thy ===== *)
theory Iccp_Csm
  imports Iccp_Msg
begin

text \<open>
  The connection state machine of the inter-chassis daemon: the structures \<open>CSM\<close>, \<open>IccpInfo\<close>,
  \<open>AppCSM\<close> and \<open>mLACP\<close> and the operations of \<open>iccp_csm.c\<close> and \<open>app_csm.c\<close> that build
  messages, interpret received ones, keep the message queues and reset the machine.

  An operation takes the machine and the process-wide state \<open>System\<close> and returns both.  What the
  kernel and the C library answer is the record \<open>csm_env\<close>; what the daemon asks of the kernel, of
  the switch and of the \<open>mclagsyncd\<close> process is a list of events in \<open>trace\<close>.  A result \<open>None\<close>
  is an access outside a message buffer.
\<close>

section \<open>State\<close>

datatype ICCP_CONNECTION_STATE =
    ICCP_NONEXISTENT | ICCP_INITIALIZED | ICCP_CAPSENT | ICCP_CAPREC | ICCP_CONNECTING
  | ICCP_OPERATIONAL

datatype stp_role_type = STP_ROLE_NONE | STP_ROLE_ACTIVE | STP_ROLE_STANDBY

datatype APP_CONNECTION_STATE =
    APP_NONEXISTENT | APP_RESET | APP_CONNSENT | APP_CONNREC | APP_CONNECTING | APP_OPERATIONAL

datatype MLACP_APP_STATE =
    MLACP_STATE_INIT | MLACP_STATE_STAGE1 | MLACP_STATE_STAGE2 | MLACP_STATE_EXCHANGE
  | MLACP_STATE_ERROR

record IccpInfo =
  icc_rg_id :: "32 word"
  sender_name :: mem
  status_code :: "32 word"
  peer_capability_flag :: bool
  peer_rg_connect_flag :: bool
  sender_capability_flag :: bool
  sender_rg_connect_flag :: bool
  rejected_msg_id :: "32 word"

record LocalInterface =
  lif_name :: string
  lif_type :: if_type
  lif_po_id :: int
  lif_is_arp_accept :: bool
  lif_is_traffic_disable :: bool

record mLACP =
  mlacp_id :: int
  sync_req_num :: int
  mlacp_current_state :: MLACP_APP_STATE
  need_to_sync :: bool
  node_id :: "8 word"
  system_id :: mem
  system_config_changed :: bool
  remote_system_id :: mem
  mlacp_msg_list :: "mem list"
  arp_msg_list :: "mem list"
  arp_list :: "mem list"
  ndisc_msg_list :: "mem list"
  ndisc_list :: "mem list"
  mac_msg_list :: "mem list"
  lif_list :: "LocalInterface list"
  lif_purge_list :: "LocalInterface list"
  pif_list :: "string list"
  iccp_counters :: "nat \<Rightarrow> nat \<Rightarrow> nat \<Rightarrow> 64 word"

record AppCSM =
  mlacp :: mLACP
  app_current_state :: APP_CONNECTION_STATE
  rx_connect_msg_id :: "32 word"
  tx_connect_msg_id :: "32 word"
  invalid_msg_id :: "32 word"
  app_msg_list :: "mem list"
  invalid_msg :: bool
  nak_msg :: bool

record CSM =
  mlag_id :: int
  sock_fd :: int
  connTimePrev :: int
  heartbeat_send_time :: int
  heartbeat_update_time :: int
  peer_warm_reboot_time :: int
  warm_reboot_disconn_time :: int
  peer_itf_name :: string
  peer_link_learning_retry_time :: int
  peer_ip :: string
  sender_ip :: string
  keepalive_time :: int
  session_timeout :: int
  peer_link_learning_enable :: int
  msg_list :: "mem list"
  role_type :: stp_role_type
  peer_link_if :: "string option"
  iccp_info :: IccpInfo
  app_csm :: AppCSM
  current_state :: ICCP_CONNECTION_STATE
  icc_msg_in_count :: "64 word"
  icc_msg_out_count :: "64 word"
  u_msg_in_count :: "64 word"
  i_msg_in_count :: "64 word"
  msg_log :: MsgLog
  if_bind_list :: "string list"

datatype iccp_event =
    Write int mem
  | Epoll_add int
  | Epoll_del int
  | Close int
  | Connect int string
  | Set_iccp_role int bool
  | Fix_bridge_mac int
  | Peerlink_port_learn string bool
  | Bridge_learning string bool
  | Disconn_fdb int
  | Set_iccp_state int bool
  | Isolate_cleanup int
  | Recover_ipmac string
  | Enable_traffic string
  | Update_vlan_mac string
  | Set_system_id int
  | Del_remote_if int string
  | Mark_peer_link string bool
  | Detach_mclag string
  | Del_iccp_info int
  | Update_ipmac string
  | Get_members string
  | Mlag_link_add string
  | Arp_accept_off string
  | Csm_freed int
  | Usleep "32 word"

record System =
  ICCP_MSG_ID :: "32 word"
  warmboot_exit :: bool
  server_fd :: int
  readfd :: "int list"
  readfd_count :: int
  session_down_counter :: "32 word"
  rx_peer_invalid_msg_counter :: "32 word"
  rx_peer_hdr_read_sock_err_counter :: "32 word"
  rx_peer_hdr_read_sock_zero_len_counter :: "32 word"
  rx_peer_tlv_read_sock_err_counter :: "32 word"
  rx_peer_tlv_read_sock_zero_len_counter :: "32 word"
  socket_close_err_counter :: "32 word"
  socket_cleanup_counter :: "32 word"
  rx_retry_max_counter :: "32 word"
  rx_retry_total_counter :: "32 word"
  rx_retry_fail_counter :: "32 word"
  trace :: "iccp_event list"

text \<open>
  Answers of the environment while one handler runs: the clock (\<open>time\<close>, in seconds, taken as
  constant within a handler), the results of system calls, the interface table
  (\<open>local_if_find_by_name\<close>), and the two C library functions whose values matter.
\<close>

record csm_env =
  now :: int
  write_rc :: "mem \<Rightarrow> int"
  socket_rc :: int
  bind_rc :: int
  connect_rc :: int
  epoll_add_rc :: int
  close_rc :: int
  accept_rc :: int
  shell_rc :: "string \<Rightarrow> int"
  syncd_rc :: "string \<Rightarrow> int"
  if_exists :: "string \<Rightarrow> bool"
  inet_addr :: "string \<Rightarrow> 32 word"
  rand_rc :: nat

definition emit :: "iccp_event list \<Rightarrow> System \<Rightarrow> System" where
  "emit evs sys = sys\<lparr> trace := trace sys @ evs \<rparr>"

text \<open>Updates of nested structures.\<close>

definition upd_info :: "(IccpInfo \<Rightarrow> IccpInfo) \<Rightarrow> CSM \<Rightarrow> CSM" where
  "upd_info f csm = csm\<lparr> iccp_info := f (iccp_info csm) \<rparr>"

definition upd_app :: "(AppCSM \<Rightarrow> AppCSM) \<Rightarrow> CSM \<Rightarrow> CSM" where
  "upd_app f csm = csm\<lparr> app_csm := f (app_csm csm) \<rparr>"

definition upd_mlacp :: "(mLACP \<Rightarrow> mLACP) \<Rightarrow> CSM \<Rightarrow> CSM" where
  "upd_mlacp f = upd_app (\<lambda>a. a\<lparr> mlacp := f (mlacp a) \<rparr>)"

abbreviation MLACP :: "CSM \<Rightarrow> mLACP" where
  "MLACP csm \<equiv> mlacp (app_csm csm)"

section \<open>Initialisation and reset\<close>

text \<open>\<open>bzero\<close> of the structures.\<close>

definition IccpInfo_zero :: IccpInfo where
  "IccpInfo_zero = \<lparr> icc_rg_id = 0, sender_name = [], status_code = 0,
     peer_capability_flag = False, peer_rg_connect_flag = False,
     sender_capability_flag = False, sender_rg_connect_flag = False, rejected_msg_id = 0 \<rparr>"

definition mLACP_zero :: mLACP where
  "mLACP_zero = \<lparr> mlacp_id = 0, sync_req_num = 0, mlacp_current_state = MLACP_STATE_INIT, need_to_sync = False,
     node_id = 0, system_id = replicate 6 0, system_config_changed = False,
     remote_system_id = replicate 6 0, mlacp_msg_list = [], arp_msg_list = [],
     arp_list = [], ndisc_msg_list = [], ndisc_list = [], mac_msg_list = [], lif_list = [],
     lif_purge_list = [], pif_list = [], iccp_counters = (\<lambda>_ _ _. 0) \<rparr>"

definition AppCSM_zero :: AppCSM where
  "AppCSM_zero = \<lparr> mlacp = mLACP_zero, app_current_state = APP_NONEXISTENT,
     rx_connect_msg_id = 0, tx_connect_msg_id = 0, invalid_msg_id = 0, app_msg_list = [],
     invalid_msg = False, nak_msg = False \<rparr>"

definition CSM_zero :: CSM where
  "CSM_zero = \<lparr> mlag_id = 0, sock_fd = 0, connTimePrev = 0, heartbeat_send_time = 0,
     heartbeat_update_time = 0, peer_warm_reboot_time = 0, warm_reboot_disconn_time = 0,
     peer_itf_name = [], peer_link_learning_retry_time = 0, peer_ip = [], sender_ip = [],
     keepalive_time = 0, session_timeout = 0, peer_link_learning_enable = 0, msg_list = [],
     role_type = STP_ROLE_NONE, peer_link_if = None, iccp_info = IccpInfo_zero,
     app_csm = AppCSM_zero, current_state = ICCP_NONEXISTENT, icc_msg_in_count = 0,
     icc_msg_out_count = 0, u_msg_in_count = 0, i_msg_in_count = 0, msg_log = MsgLog_zero,
     if_bind_list = [] \<rparr>"

text \<open>
  \<open>LIF_QUEUE_REINIT\<close>: the interfaces leave the list, and a port channel that accepts
  gratuitous ARP is told to stop.
\<close>

definition LIF_QUEUE_REINIT :: "LocalInterface list \<Rightarrow> System \<Rightarrow> System" where
  "LIF_QUEUE_REINIT lifs sys =
     emit (map (\<lambda>l. Arp_accept_off (lif_name l))
             (filter (\<lambda>l. lif_type l = IF_T_PORT_CHANNEL \<and> lif_is_arp_accept l) lifs)) sys"

definition mlacp_init :: "csm_env \<Rightarrow> CSM \<Rightarrow> bool \<Rightarrow> System \<Rightarrow> CSM \<times> System" where
  "mlacp_init e csm all sys =
     (let csm = upd_mlacp (\<lambda>m. m\<lparr> sync_req_num := -1, need_to_sync := False,
                  mlacp_current_state := MLACP_STATE_INIT, remote_system_id := replicate 6 0,
                  mlacp_msg_list := [], arp_msg_list := [], ndisc_msg_list := [],
                  mac_msg_list := [], pif_list := [], lif_purge_list := [] \<rparr>) csm
      in if all
         then (upd_mlacp (\<lambda>m. m\<lparr> arp_list := [], ndisc_list := [], lif_list := [],
                 node_id := 0x80 OR (ucast (push_bit 4 (drop_bit 24 (inet_addr e (sender_ip csm)))) AND 0x70)
                                 OR of_nat (rand_rc e mod 0x0F) \<rparr>) csm,
               LIF_QUEUE_REINIT (lif_list (MLACP csm)) sys)
         else (csm, sys))"

definition mlacp_finalize :: "CSM \<Rightarrow> System \<Rightarrow> CSM \<times> System" where
  "mlacp_finalize csm sys =
     (upd_mlacp (\<lambda>m. m\<lparr> mlacp_msg_list := [], arp_msg_list := [], ndisc_msg_list := [],
         mac_msg_list := [], arp_list := [], ndisc_list := [], lif_list := [],
         lif_purge_list := [], pif_list := [] \<rparr>) csm,
      LIF_QUEUE_REINIT (lif_list (MLACP csm)) sys)"

definition app_csm_init :: "csm_env \<Rightarrow> CSM \<Rightarrow> bool \<Rightarrow> System \<Rightarrow> CSM \<times> System" where
  "app_csm_init e csm all sys =
     (let csm = upd_app (\<lambda>a. a\<lparr> app_msg_list := [] \<rparr>) csm;
          csm = (if all then upd_app (\<lambda>_. AppCSM_zero) csm else csm);
          csm = upd_app (\<lambda>a. a\<lparr> app_current_state := APP_NONEXISTENT, rx_connect_msg_id := 0,
                   tx_connect_msg_id := 0, invalid_msg_id := 0, invalid_msg := False,
                   nak_msg := False \<rparr>) csm
      in mlacp_init e csm all sys)"

definition app_csm_finalize :: "CSM \<Rightarrow> System \<Rightarrow> CSM \<times> System" where
  "app_csm_finalize csm sys = mlacp_finalize csm sys"

definition iccp_csm_status_reset :: "csm_env \<Rightarrow> CSM \<Rightarrow> bool \<Rightarrow> System \<Rightarrow> CSM \<times> System" where
  "iccp_csm_status_reset e csm all sys =
     (let csm = csm\<lparr> msg_list := [] \<rparr>;
          csm = (if all then CSM_zero else csm);
          csm = csm\<lparr> sock_fd := -1, connTimePrev := 0, heartbeat_send_time := 0,
                  heartbeat_update_time := 0, peer_warm_reboot_time := 0,
                  warm_reboot_disconn_time := 0, peer_link_learning_retry_time := 0,
                  peer_link_learning_enable := 0, role_type := STP_ROLE_NONE,
                  peer_link_if := None, u_msg_in_count := 0, i_msg_in_count := 0,
                  icc_msg_in_count := 0, icc_msg_out_count := 0,
                  current_state := ICCP_NONEXISTENT \<rparr>;
          csm = upd_info (\<lambda>i. i\<lparr> status_code := 0, rejected_msg_id := 0,
                  peer_capability_flag := False, peer_rg_connect_flag := False,
                  sender_capability_flag := False, sender_rg_connect_flag := False \<rparr>) csm;
          (csm, sys) = app_csm_init e csm all sys
      in (csm\<lparr> msg_log := MsgLog_zero \<rparr>, sys))"

abbreviation (input) CONNECT_INTERVAL_SEC :: int where "CONNECT_INTERVAL_SEC \<equiv> 1"
abbreviation (input) HEARTBEAT_TIMEOUT_SEC :: int where "HEARTBEAT_TIMEOUT_SEC \<equiv> 15"

definition iccp_csm_init :: "csm_env \<Rightarrow> CSM \<Rightarrow> System \<Rightarrow> CSM \<times> System" where
  "iccp_csm_init e csm sys =
     (let (csm, sys) = iccp_csm_status_reset e csm True sys;
          csm = csm\<lparr> sender_ip := [], peer_ip := [], keepalive_time := CONNECT_INTERVAL_SEC,
                      session_timeout := HEARTBEAT_TIMEOUT_SEC \<rparr>
      in (upd_info (\<lambda>i. i\<lparr> sender_name := [], icc_rg_id := 0 \<rparr>) csm, sys))"

section \<open>Building messages\<close>

text \<open>
  The functions below fill a zeroed buffer and return the length to send; the model returns those
  bytes.  The identifier of the message is the global \<open>ICCP_MSG_ID\<close>, which is incremented.
\<close>

definition iccp_csm_fill_icc_rg_id_tlv :: "CSM \<Rightarrow> mem" where
  "iccp_csm_fill_icc_rg_id_tlv csm = ICCRGIDTLV (icc_rg_id (iccp_info csm))"

definition iccp_csm_prepare_capability_msg :: "CSM \<Rightarrow> 32 word \<Rightarrow> mem" where
  "iccp_csm_prepare_capability_msg csm mid =
     (let msg_len = sizeof_LDPHdr + sizeof_CapabilityTLV
      in LDPHdr MSG_T_CAPABILITY msg_len mid @
         enc16 (0x8000 OR TLV_T_ICCP_CAPABILITY) @ enc16 TLV_L_ICCP_CAPABILITY @
         enc16 (if sender_capability_flag (iccp_info csm) then 0x8000 else 0) @ [1, 0])"

definition iccp_csm_prepare_nak_msg :: "CSM \<Rightarrow> 32 word \<Rightarrow> mem" where
  "iccp_csm_prepare_nak_msg csm mid =
     (let msg_len = sizeof_ICCHdr + sizeof_NAKTLV; i = iccp_info csm
      in LDPHdr MSG_T_NOTIFICATION msg_len mid @ iccp_csm_fill_icc_rg_id_tlv csm @
         ICCParameter TLV_T_NAK (4 + 4) @
         (if status_code i = STATUS_CODE_U_ICCP_RG
          then enc32 (status_code i) @ enc32 (rejected_msg_id i)
          else enc32 0 @ enc32 0))"

definition iccp_csm_prepare_rg_connect_msg :: "CSM \<Rightarrow> 32 word \<Rightarrow> mem" where
  "iccp_csm_prepare_rg_connect_msg csm mid =
     (let name = sender_name (iccp_info csm); name_len = length name;
          msg_len = sizeof_ICCHdr + sizeof_ICCParameter + name_len
      in LDPHdr MSG_T_RG_CONNECT msg_len mid @ iccp_csm_fill_icc_rg_id_tlv csm @
         ICCParameter TLV_T_ICC_SENDER_NAME name_len @ name)"

definition iccp_csm_prepare_rg_disconnect_msg :: "CSM \<Rightarrow> 32 word \<Rightarrow> mem" where
  "iccp_csm_prepare_rg_disconnect_msg csm mid =
     (let msg_len = sizeof_ICCHdr + sizeof_DisconnectCodeTLV
      in LDPHdr MSG_T_RG_DISCONNECT msg_len mid @ iccp_csm_fill_icc_rg_id_tlv csm @
         ICCParameter TLV_T_DISCONNECT_CODE 4 @ enc32 (status_code (iccp_info csm)))"

definition app_csm_prepare_nak_msg :: "CSM \<Rightarrow> 32 word \<Rightarrow> mem" where
  "app_csm_prepare_nak_msg csm mid =
     (let msg_len = sizeof_ICCHdr + sizeof_NAKTLV
      in LDPHdr MSG_T_NOTIFICATION msg_len mid @ iccp_csm_fill_icc_rg_id_tlv csm @
         ICCParameter TLV_T_NAK (sizeof_NAKTLV - 4) @
         enc32 STATUS_CODE_ICCP_REJECTED_MSG @ enc32 (invalid_msg_id (app_csm csm)))"

text \<open>The message of the current state, if it has one; without one the length is \<open>-1\<close>.\<close>

definition iccp_csm_prepare_iccp_msg :: "CSM \<Rightarrow> System \<Rightarrow> mem option \<times> System" where
  "iccp_csm_prepare_iccp_msg csm sys =
     (let mid = ICCP_MSG_ID sys; sys' = sys\<lparr> ICCP_MSG_ID := mid + 1 \<rparr>; i = iccp_info csm
      in case current_state csm of
           ICCP_NONEXISTENT \<Rightarrow> (None, sys)
         | ICCP_INITIALIZED \<Rightarrow> (Some (iccp_csm_prepare_capability_msg csm mid), sys')
         | ICCP_CAPSENT \<Rightarrow> (None, sys)
         | ICCP_CAPREC \<Rightarrow>
             (if status_code i > 0 then (Some (iccp_csm_prepare_nak_msg csm mid), sys')
              else (Some (iccp_csm_prepare_rg_connect_msg csm mid), sys'))
         | ICCP_CONNECTING \<Rightarrow>
             (if status_code i > 0 then (Some (iccp_csm_prepare_nak_msg csm mid), sys')
              else (None, sys))
         | ICCP_OPERATIONAL \<Rightarrow>
             (if \<not> peer_rg_connect_flag i
              then (Some (iccp_csm_prepare_rg_disconnect_msg csm mid), sys')
              else (None, sys)))"

section \<open>Sending\<close>

definition mlacp_fsm_iccp_to_dbg_msg_type :: "16 word \<Rightarrow> nat" where
  "mlacp_fsm_iccp_to_dbg_msg_type tlv_type =
     (if tlv_type = 0x0032 then 0 else if tlv_type = 0x0036 then 1
      else if tlv_type = 0x0037 then 2 else if tlv_type = 0x0038 then 11
      else if tlv_type = 0x0039 then 10 else if tlv_type = 0x003A then 8
      else if tlv_type = 0x1034 then 6 else if tlv_type = 0x1035 then 7
      else if tlv_type = 0x1036 then 4 else if tlv_type = 0x1038 then 3
      else if tlv_type = 0x1039 then 12 else if tlv_type = 0x103B then 13 else 29)"

definition count_tx :: "16 word \<Rightarrow> nat \<Rightarrow> CSM \<Rightarrow> CSM" where
  "count_tx tlv_type status csm =
     (let t = mlacp_fsm_iccp_to_dbg_msg_type tlv_type
      in if t < 29
         then upd_mlacp (\<lambda>m. m\<lparr> iccp_counters := (iccp_counters m)
                (t := (iccp_counters m t)(0 := (iccp_counters m t 0)
                   (status := iccp_counters m t 0 status + 1))) \<rparr>) csm
         else csm)"

text \<open>
  Loads from the send buffer, which is longer than the message and zero behind it: no load of
  \<open>iccp_csm_send\<close> leaves the buffer.
\<close>

definition buf16 :: "mem \<Rightarrow> nat \<Rightarrow> 16 word" where
  "buf16 m i = (case rd16le (m @ replicate 32 0) i of None \<Rightarrow> 0 | Some w \<Rightarrow> w)"

definition buf32 :: "mem \<Rightarrow> nat \<Rightarrow> 32 word" where
  "buf32 m i = (case rd32be (m @ replicate 32 0) i of None \<Rightarrow> 0 | Some w \<Rightarrow> w)"

text \<open>What \<open>iccp_csm_send\<close> writes into the log for a message.\<close>

definition log_entry :: "mem \<Rightarrow> MsgTypeSet" where
  "log_entry buf =
     (let ty = htons (buf16 buf 0 AND 0x7fff);
          off = (if ty = MSG_T_CAPABILITY then sizeof_LDPHdr else sizeof_ICCHdr)
      in \<lparr> log_msg_id = buf32 buf 4, log_type = ty, log_tlv = htons (buf16 buf off AND 0x3fff) \<rparr>)"

definition iccp_csm_send :: "csm_env \<Rightarrow> CSM \<Rightarrow> mem option \<Rightarrow> System \<Rightarrow> int \<times> CSM \<times> System" where
  "iccp_csm_send e csm msg sys =
     (case msg of
        None \<Rightarrow> (-1, csm, sys)
      | Some buf \<Rightarrow>
          if sock_fd csm \<le> 0 \<or> buf = [] then (-1, csm, sys)
          else
            let entry = log_entry buf;
                csm = csm\<lparr> msg_log := log_sent entry (msg_log csm) \<rparr>;
                sys = emit [Write (sock_fd csm) buf] sys;
                rc = write_rc e buf
            in if rc \<le> 0 \<or> rc \<noteq> int (length buf)
               then (rc, count_tx (log_tlv entry) 1 csm, sys)
               else (rc, count_tx (log_tlv entry) 0 csm, sys))"

section \<open>Interpreting received messages\<close>

text \<open>
  The first two bytes of a queued message are already in host order (\<open>iccp_csm_enqueue_msg\<close>).
\<close>

definition iccp_csm_check_id_from_msg :: "CSM \<Rightarrow> mem \<Rightarrow> CSM option" where
  "iccp_csm_check_id_from_msg csm msg = do {
     ty \<leftarrow> msg_type_field msg;
     if ty = MSG_T_CAPABILITY then Some csm
     else do {
       rg \<leftarrow> rd32be msg 12;
       let i = iccp_info csm;
       if rg = icc_rg_id i
       then if status_code i = STATUS_CODE_U_ICCP_RG
            then Some (upd_info (\<lambda>i. i\<lparr> status_code := 0, rejected_msg_id := 0 \<rparr>) csm)
            else Some csm
       else Some (upd_info (\<lambda>i. i\<lparr> status_code := STATUS_CODE_U_ICCP_RG,
                                    rejected_msg_id := rg \<rparr>) csm)
     }
   }"

definition iccp_csm_correspond_from_capability_msg :: "CSM \<Rightarrow> mem \<Rightarrow> CSM option" where
  "iccp_csm_correspond_from_capability_msg csm msg = do {
     m \<leftarrow> swap16 msg 8;
     m \<leftarrow> swap16 m 12;
     u \<leftarrow> param_u_bit m 8;
     f \<leftarrow> param_f_bit m 8;
     ty \<leftarrow> param_type m 8;
     len \<leftarrow> rd16be m 10;
     flags \<leftarrow> rd16le m 12;
     if u \<and> \<not> f \<and> ty = TLV_T_ICCP_CAPABILITY \<and> len = TLV_L_ICCP_CAPABILITY \<and> bit flags 15
     then do {
       major \<leftarrow> rd8 m 14;
       if major = 1 then do {
         minor \<leftarrow> rd8 m 15;
         Some (if minor = 0 then upd_info (\<lambda>i. i\<lparr> peer_capability_flag := True \<rparr>) csm else csm)
       } else Some csm
     } else Some csm
   }"

definition iccp_csm_correspond_from_rg_connect_msg :: "CSM \<Rightarrow> mem \<Rightarrow> CSM option" where
  "iccp_csm_correspond_from_rg_connect_msg csm msg = do {
     m \<leftarrow> swap16 msg 16;
     u \<leftarrow> param_u_bit m 16;
     f \<leftarrow> param_f_bit m 16;
     ty \<leftarrow> param_type m 16;
     Some (if \<not> u \<and> \<not> f \<and> ty = TLV_T_ICC_SENDER_NAME
           then upd_info (\<lambda>i. i\<lparr> peer_rg_connect_flag := True \<rparr>) csm else csm)
   }"

definition iccp_csm_correspond_from_rg_disconnect_msg :: "CSM \<Rightarrow> mem \<Rightarrow> CSM option" where
  "iccp_csm_correspond_from_rg_disconnect_msg csm msg = do {
     m \<leftarrow> swap16 msg 16;
     u \<leftarrow> param_u_bit m 16;
     f \<leftarrow> param_f_bit m 16;
     ty \<leftarrow> param_type m 16;
     if \<not> u \<and> \<not> f \<and> ty = TLV_T_DISCONNECT_CODE
     then do {
       len \<leftarrow> rd16be m 18;
       if len = TLV_L_DISCONNECT_CODE then do {
         code \<leftarrow> rd32be m 20;
         Some (if code = STATUS_CODE_ICCP_RG_REMOVED
               then upd_info (\<lambda>i. i\<lparr> sender_rg_connect_flag := False,
                                     peer_rg_connect_flag := False \<rparr>) csm
               else csm)
       } else Some csm
     } else Some csm
   }"

text \<open>
  \<open>NAKTLV *nak = (NAKTLV *)(icc_hdr + sizeof(ICCHdr))\<close> is pointer arithmetic on \<open>ICCHdr *\<close>: the
  pointer is 16 headers of 16 bytes behind the start of the message.  The argument of the log call
  for a notification loads \<open>nak->iccp_status_code\<close> from there.
\<close>

abbreviation (input) nak_offset :: nat where "nak_offset \<equiv> sizeof_ICCHdr * sizeof_ICCHdr"

definition iccp_csm_correspond_from_msg :: "CSM \<Rightarrow> mem \<Rightarrow> System \<Rightarrow> (CSM \<times> System) option" where
  "iccp_csm_correspond_from_msg csm msg sys = do {
     csm \<leftarrow> iccp_csm_check_id_from_msg csm msg;
     ty \<leftarrow> msg_type_field msg;
     if ty = MSG_T_CAPABILITY then do {
       csm \<leftarrow> iccp_csm_correspond_from_capability_msg csm msg;
       Some (csm, sys) }
     else if ty = MSG_T_RG_CONNECT then do {
       csm \<leftarrow> iccp_csm_correspond_from_rg_connect_msg csm msg;
       Some (csm, sys) }
     else if ty = MSG_T_RG_DISCONNECT then do {
       csm \<leftarrow> iccp_csm_correspond_from_rg_disconnect_msg csm msg;
       Some (csm, sys) }
     else if ty = MSG_T_NOTIFICATION then do {
       _ \<leftarrow> rd32be msg (nak_offset + 4);
       Some (csm, emit [Usleep 1000000] sys) }
     else if ty = MSG_T_RG_APP_DATA then Some (csm, sys)
     else Some (csm\<lparr> u_msg_in_count := u_msg_in_count csm + 1 \<rparr>, sys)
   }"

section \<open>Message queues\<close>

definition mlacp_enqueue_msg :: "mem \<Rightarrow> CSM \<Rightarrow> CSM" where
  "mlacp_enqueue_msg msg = upd_mlacp (\<lambda>m. m\<lparr> mlacp_msg_list := mlacp_msg_list m @ [msg] \<rparr>)"

definition mlacp_dequeue_msg :: "CSM \<Rightarrow> mem option \<times> CSM" where
  "mlacp_dequeue_msg csm =
     (case mlacp_msg_list (MLACP csm) of
        [] \<Rightarrow> (None, csm)
      | m # ms \<Rightarrow> (Some m, upd_mlacp (\<lambda>l. l\<lparr> mlacp_msg_list := ms \<rparr>) csm))"

text \<open>\<open>TAILQ_INSERT_TAIL\<close> into \<open>app_msg_list\<close> and \<open>msg_list\<close>.\<close>

definition app_insert_tail :: "mem \<Rightarrow> CSM \<Rightarrow> CSM" where
  "app_insert_tail msg = upd_app (\<lambda>a. a\<lparr> app_msg_list := app_msg_list a @ [msg] \<rparr>)"

definition csm_insert_tail :: "mem \<Rightarrow> CSM \<Rightarrow> CSM" where
  "csm_insert_tail msg csm = csm\<lparr> msg_list := msg_list csm @ [msg] \<rparr>"

definition app_csm_dequeue_msg :: "CSM \<Rightarrow> mem option \<times> CSM" where
  "app_csm_dequeue_msg csm =
     (case app_msg_list (app_csm csm) of
        [] \<Rightarrow> (None, csm)
      | m # ms \<Rightarrow> (Some m, upd_app (\<lambda>a. a\<lparr> app_msg_list := ms \<rparr>) csm))"

definition iccp_csm_dequeue_msg :: "CSM \<Rightarrow> mem option \<times> CSM" where
  "iccp_csm_dequeue_msg csm =
     (case msg_list csm of
        [] \<Rightarrow> (None, csm)
      | m # ms \<Rightarrow> (Some m, csm\<lparr> msg_list := ms \<rparr>))"

definition app_csm_enqueue_msg :: "mem \<Rightarrow> CSM \<Rightarrow> CSM option" where
  "app_csm_enqueue_msg msg csm = do {
     m \<leftarrow> swap16 msg 16;
     ty \<leftarrow> msg_type_field m;
     if ty = MSG_T_RG_APP_DATA then do {
       tlv \<leftarrow> param_type m 16;
       Some (if tlv > TLV_T_MLACP_CONNECT \<and> tlv < TLV_T_MLACP_LIST_END
             then mlacp_enqueue_msg m csm else app_insert_tail m csm) }
     else if ty = MSG_T_NOTIFICATION then do {
       rejected \<leftarrow> rd32be m 24;
       Some (case log_find rejected (msg_log csm) of
               None \<Rightarrow> app_insert_tail m csm
             | Some x \<Rightarrow>
                 if log_tlv x > TLV_T_MLACP_CONNECT \<and> log_tlv x \<le> TLV_T_MLACP_MAC_INFO
                 then mlacp_enqueue_msg m csm else app_insert_tail m csm) }
     else Some csm
   }"

definition iccp_csm_enqueue_msg :: "mem \<Rightarrow> CSM \<Rightarrow> CSM option" where
  "iccp_csm_enqueue_msg msg csm = do {
     m \<leftarrow> swap16 msg 0;
     ty \<leftarrow> msg_type_field m;
     if ty = MSG_T_RG_APP_DATA then app_csm_enqueue_msg m csm
     else if ty = MSG_T_NOTIFICATION then do {
       rejected \<leftarrow> rd32be m 24;
       case log_find rejected (msg_log csm) of
         None \<Rightarrow> Some (csm_insert_tail m csm)
       | Some x \<Rightarrow>
           if log_type x = MSG_T_RG_APP_DATA then app_csm_enqueue_msg m csm
           else Some (csm_insert_tail m csm) }
     else Some (csm_insert_tail m csm)
   }"

text \<open>\<open>iccp_csm_init_msg\<close> with \<open>malloc\<close> results as arguments: a copy of the received bytes.\<close>

definition iccp_csm_init_msg :: "bool \<Rightarrow> mem \<Rightarrow> int + mem" where
  "iccp_csm_init_msg malloc_ok data =
     (if data = [] then Inl (-1) else if \<not> malloc_ok then Inl (-1) else Inr data)"

section \<open>The role of the switch\<close>

definition iccp_csm_stp_role_count :: "csm_env \<Rightarrow> CSM \<Rightarrow> System \<Rightarrow> CSM \<times> System" where
  "iccp_csm_stp_role_count e csm sys =
     (if role_type csm = STP_ROLE_NONE then
        if inet_addr e (sender_ip csm) < inet_addr e (peer_ip csm)
        then (csm\<lparr> role_type := STP_ROLE_ACTIVE \<rparr>, emit [Set_iccp_role (mlag_id csm) True] sys)
        else (csm\<lparr> role_type := STP_ROLE_STANDBY \<rparr>,
              emit [Set_iccp_role (mlag_id csm) False, Fix_bridge_mac (mlag_id csm)] sys)
      else (csm, sys))"

definition app_csm_transit :: "CSM \<Rightarrow> CSM" where
  "app_csm_transit csm =
     (if app_current_state (app_csm csm) \<noteq> APP_NONEXISTENT \<and> sock_fd csm \<le> 0
      then upd_app (\<lambda>a. a\<lparr> app_current_state := APP_NONEXISTENT \<rparr>) csm
      else if app_current_state (app_csm csm) \<noteq> APP_OPERATIONAL \<and>
              current_state csm = ICCP_OPERATIONAL
      then upd_app (\<lambda>a. a\<lparr> app_current_state := APP_OPERATIONAL \<rparr>) csm
      else csm)"

section \<open>Queues\<close>

lemmas csm_upd_defs [simp] = upd_info_def upd_app_def upd_mlacp_def

interpretation csmq: fifo_queue csm_insert_tail iccp_csm_dequeue_msg msg_list
  by unfold_locales (auto simp: csm_insert_tail_def iccp_csm_dequeue_msg_def)

interpretation appq: fifo_queue app_insert_tail app_csm_dequeue_msg "\<lambda>c. app_msg_list (app_csm c)"
  by unfold_locales (auto simp: app_insert_tail_def app_csm_dequeue_msg_def)

interpretation mlacpq: fifo_queue mlacp_enqueue_msg mlacp_dequeue_msg "\<lambda>c. mlacp_msg_list (MLACP c)"
  by unfold_locales (auto simp: mlacp_enqueue_msg_def mlacp_dequeue_msg_def)

section \<open>The messages of the handshake on the wire\<close>

lemma enc16_lits:
  "enc16 0x0202 = [2, 2]" "enc16 0x0700 = [7, 0]" "enc16 0x0701 = [7, 1]" "enc16 0x0702 = [7, 2]"
  "enc16 0x8700 = [0x87, 0]" "enc16 0x8000 = [0x80, 0]" "enc16 0 = [0, 0]" "enc16 1 = [0, 1]"
  "enc16 2 = [0, 2]" "enc16 4 = [0, 4]" "enc16 5 = [0, 5]" "enc16 8 = [0, 8]" "enc16 12 = [0, 12]"
  "enc16 20 = [0, 20]" "enc16 24 = [0, 24]"
  by (simp_all add: enc16_def hi8_def lo8_def)

lemma capability_msg_wire:
  "iccp_csm_prepare_capability_msg csm mid =
     [2, 2, 0, 12] @ enc32 mid @
     [0x87, 0, 0, 4, if sender_capability_flag (iccp_info csm) then 0x80 else 0, 0, 1, 0]"
proof -
  have "\<not> bit (0x202 :: 16 word) 7" by simp
  moreover have "0x8000 OR (0x700 :: 16 word) = 0x8700" by simp
  ultimately show ?thesis
    by (simp add: iccp_csm_prepare_capability_msg_def LDPHdr_wire enc16_lits)
qed

lemma rg_connect_msg_wire:
  "iccp_csm_prepare_rg_connect_msg csm mid =
     [7, 0] @ enc16 (of_nat (16 + length (sender_name (iccp_info csm)))) @ enc32 mid @
     [0, 5, 0, 4] @ enc32 (icc_rg_id (iccp_info csm)) @
     [0, 1] @ enc16 (of_nat (length (sender_name (iccp_info csm)))) @ sender_name (iccp_info csm)"
proof -
  have "\<not> bit (0x700 :: 16 word) 7" "\<not> bit (1 :: 16 word) 7" "\<not> bit (1 :: 16 word) 6" by simp_all
  thus ?thesis
    by (simp add: iccp_csm_prepare_rg_connect_msg_def LDPHdr_wire ICCParameter_wire enc16_lits
        iccp_csm_fill_icc_rg_id_tlv_def ICCRGIDTLV_def Let_def)
qed

lemma nak_msg_wire:
  "iccp_csm_prepare_nak_msg csm mid =
     [7, 2, 0, 24] @ enc32 mid @ [0, 5, 0, 4] @ enc32 (icc_rg_id (iccp_info csm)) @ [0, 2, 0, 8] @
     (if status_code (iccp_info csm) = STATUS_CODE_U_ICCP_RG
      then enc32 STATUS_CODE_U_ICCP_RG @ enc32 (rejected_msg_id (iccp_info csm))
      else enc32 0 @ enc32 0)"
proof -
  have "\<not> bit (0x702 :: 16 word) 7" "\<not> bit (2 :: 16 word) 7" "\<not> bit (2 :: 16 word) 6" by simp_all
  thus ?thesis
    by (simp add: iccp_csm_prepare_nak_msg_def LDPHdr_wire ICCParameter_wire enc16_lits
        iccp_csm_fill_icc_rg_id_tlv_def ICCRGIDTLV_def Let_def)
qed

lemma rg_disconnect_msg_wire:
  "iccp_csm_prepare_rg_disconnect_msg csm mid =
     [7, 1, 0, 20] @ enc32 mid @ [0, 5, 0, 4] @ enc32 (icc_rg_id (iccp_info csm)) @ [0, 4, 0, 4] @
     enc32 (status_code (iccp_info csm))"
proof -
  have "\<not> bit (0x701 :: 16 word) 7" "\<not> bit (4 :: 16 word) 7" "\<not> bit (4 :: 16 word) 6" by simp_all
  thus ?thesis
    by (simp add: iccp_csm_prepare_rg_disconnect_msg_def LDPHdr_wire ICCParameter_wire enc16_lits
        iccp_csm_fill_icc_rg_id_tlv_def ICCRGIDTLV_def Let_def)
qed

text \<open>A message in the form in which it is queued.\<close>

definition to_host :: "mem \<Rightarrow> mem" where
  "to_host m = m[0 := m ! 1, 1 := m ! 0]"

lemma swap16_to_host: "2 \<le> length m \<Longrightarrow> swap16 m 0 = Some (to_host m)"
  by (simp add: swap16_def to_host_def)

lemma to_host_Cons [simp]: "to_host (a # b # m) = b # a # m"
  by (simp add: to_host_def)

lemma msg_type_field_Cons [simp]: "msg_type_field (a # b # m) = Some (be16 b a AND 0x7fff)"
  by (simp add: msg_type_field_def rd16le_def)

lemma msg_types:
  "be16 2 2 AND 0x7fff = 0x0202" "be16 7 0 AND 0x7fff = 0x0700" "be16 7 1 AND 0x7fff = 0x0701"
  "be16 7 2 AND 0x7fff = 0x0702" "be16 7 3 AND 0x7fff = 0x0703"
  by (simp_all add: be16_eval)

definition plain_type :: "mem \<Rightarrow> bool" where
  "plain_type m \<longleftrightarrow> 2 \<le> length m \<and>
     be16 (m ! 0) (m ! 1) AND 0x7fff \<notin> {MSG_T_NOTIFICATION, MSG_T_RG_APP_DATA}"

lemma enqueue_plain:
  assumes "plain_type m"
  shows "iccp_csm_enqueue_msg m csm = Some (csm_insert_tail (to_host m) csm)"
proof -
  obtain a b r where m: "m = a # b # r"
    using assms by (cases m; cases "tl m") (auto simp: plain_type_def)
  thus ?thesis using assms
    by (simp add: iccp_csm_enqueue_msg_def swap16_to_host plain_type_def)
qed

lemma plain_handshake [simp]:
  "plain_type (iccp_csm_prepare_capability_msg csm mid)"
  "plain_type (iccp_csm_prepare_rg_connect_msg csm mid)"
  "plain_type (iccp_csm_prepare_rg_disconnect_msg csm mid)"
  by (simp_all add: plain_type_def capability_msg_wire rg_connect_msg_wire rg_disconnect_msg_wire
      msg_types)


section \<open>Interpreting them\<close>

definition check_rg :: "32 word \<Rightarrow> CSM \<Rightarrow> CSM" where
  "check_rg rg csm =
     (if rg = icc_rg_id (iccp_info csm)
      then if status_code (iccp_info csm) = STATUS_CODE_U_ICCP_RG
           then upd_info (\<lambda>i. i\<lparr> status_code := 0, rejected_msg_id := 0 \<rparr>) csm else csm
      else upd_info (\<lambda>i. i\<lparr> status_code := STATUS_CODE_U_ICCP_RG, rejected_msg_id := rg \<rparr>) csm)"

lemma enc32_bytes: "\<exists>a b c d. enc32 w = [a, b, c, d] \<and> be32 a b c d = w"
  by (simp add: enc32_def enc16_def)

lemma correspond_capability:
  "iccp_csm_correspond_from_msg c (to_host (iccp_csm_prepare_capability_msg a mid)) sys =
     Some (if sender_capability_flag (iccp_info a)
           then upd_info (\<lambda>i. i\<lparr> peer_capability_flag := True \<rparr>) c else c, sys)"
proof -
  obtain p q r t where m: "enc32 mid = [p, q, r, t]" using enc32_bytes by blast
  have b: "be16 0x87 0 = 0x8700" "be16 0x80 0 = 0x8000" "be16 0 4 = 4" "be16 0 0 = 0"
    by (simp_all add: be16_eval)
  show ?thesis
    by (simp add: iccp_csm_correspond_from_msg_def iccp_csm_check_id_from_msg_def
        capability_msg_wire m msg_types iccp_csm_correspond_from_capability_msg_def swap16_def
        param_u_bit_def param_f_bit_def param_type_def rd16le_def rd16be_def rd8_def b)
qed

lemma correspond_rg_connect:
  "iccp_csm_correspond_from_msg c (to_host (iccp_csm_prepare_rg_connect_msg a mid)) sys =
     Some (upd_info (\<lambda>i. i\<lparr> peer_rg_connect_flag := True \<rparr>)
             (check_rg (icc_rg_id (iccp_info a)) c), sys)"
proof -
  obtain p q r t where m: "enc32 mid = [p, q, r, t]" using enc32_bytes by blast
  obtain p' q' r' t' where g: "enc32 (icc_rg_id (iccp_info a)) = [p', q', r', t']"
    "be32 p' q' r' t' = icc_rg_id (iccp_info a)" using enc32_bytes by blast
  have b: "be16 0 1 = 1" by (simp add: be16_eval)
  show ?thesis
    by (simp add: iccp_csm_correspond_from_msg_def iccp_csm_check_id_from_msg_def check_rg_def
        rg_connect_msg_wire m g msg_types iccp_csm_correspond_from_rg_connect_msg_def swap16_def
        param_u_bit_def param_f_bit_def param_type_def rd16le_def rd32be_def enc16_def b Let_def)
qed

lemma correspond_rg_disconnect:
  assumes "status_code (iccp_info a) \<noteq> STATUS_CODE_ICCP_RG_REMOVED"
  shows "iccp_csm_correspond_from_msg c (to_host (iccp_csm_prepare_rg_disconnect_msg a mid)) sys =
     Some (check_rg (icc_rg_id (iccp_info a)) c, sys)"
proof -
  obtain p q r t where m: "enc32 mid = [p, q, r, t]" using enc32_bytes by blast
  obtain p' q' r' t' where g: "enc32 (icc_rg_id (iccp_info a)) = [p', q', r', t']"
    "be32 p' q' r' t' = icc_rg_id (iccp_info a)" using enc32_bytes by blast
  obtain p2 q2 r2 t2 where st: "enc32 (status_code (iccp_info a)) = [p2, q2, r2, t2]"
    "be32 p2 q2 r2 t2 = status_code (iccp_info a)" using enc32_bytes by blast
  have b: "be16 0 4 = 4" by (simp add: be16_eval)
  show ?thesis using assms
    by (simp add: iccp_csm_correspond_from_msg_def iccp_csm_check_id_from_msg_def check_rg_def
        rg_disconnect_msg_wire m g st msg_types iccp_csm_correspond_from_rg_disconnect_msg_def
        swap16_def param_u_bit_def param_f_bit_def param_type_def rd16le_def rd16be_def rd32be_def
        b Let_def)
qed

lemma correspond_notification:
  assumes "2 \<le> length m" "length m < 264" "be16 (m ! 1) (m ! 0) AND 0x7fff = MSG_T_NOTIFICATION"
  shows "iccp_csm_correspond_from_msg c m sys = None"
proof -
  have "msg_type_field m = Some MSG_T_NOTIFICATION"
    using assms by (simp add: msg_type_field_def rd16le_def)
  moreover have "rd32be m 260 = None" using assms(2) by (simp add: rd32be_def)
  ultimately show ?thesis
    by (simp add: iccp_csm_correspond_from_msg_def split: option.split)
qed

section \<open>A concrete environment\<close>

text \<open>Values for the witnesses: every system call succeeds.\<close>

definition sample_csm_env :: csm_env where
  "sample_csm_env = \<lparr> now = 100, write_rc = (\<lambda>b. int (length b)), socket_rc = 9, bind_rc = 0,
     connect_rc = 0, epoll_add_rc = 0, close_rc = 0, accept_rc = 9, shell_rc = (\<lambda>_. 0), syncd_rc = (\<lambda>_. 0),
     if_exists = (\<lambda>_. True), inet_addr = (\<lambda>s. of_nat (length s)), rand_rc = 4 \<rparr>"

definition sample_system :: System where
  "sample_system = \<lparr> ICCP_MSG_ID = 1, warmboot_exit = False, server_fd = 5, readfd = [],
     readfd_count = 0, session_down_counter = 0, rx_peer_invalid_msg_counter = 0,
     rx_peer_hdr_read_sock_err_counter = 0, rx_peer_hdr_read_sock_zero_len_counter = 0,
     rx_peer_tlv_read_sock_err_counter = 0, rx_peer_tlv_read_sock_zero_len_counter = 0,
     socket_close_err_counter = 0, socket_cleanup_counter = 0, rx_retry_max_counter = 0, rx_retry_total_counter = 0,
     rx_retry_fail_counter = 0, trace = [] \<rparr>"

end
