(* ===== verification/Iccp_Sched.thy ===== *)
theory Iccp_Sched
  imports Iccp_Csm
begin

text \<open>
  The session side of the inter-chassis daemon (\<open>scheduler.c\<close>) and the transitions of the
  connection state machine (\<open>iccp_csm_transit\<close>): checking the configuration, connecting and
  accepting, receiving from the stream socket, the heartbeat, and tearing a session down.

  The mutex functions of \<open>scheduler.c\<close> are constant functions there and have no counterpart here.
\<close>

section \<open>Tearing a session down\<close>

definition scheduler_csm_socket_cleanup :: "csm_env \<Rightarrow> CSM \<Rightarrow> System \<Rightarrow> CSM \<times> System" where
  "scheduler_csm_socket_cleanup e csm sys =
     (if sock_fd csm \<le> 0 then (csm, sys)
      else
        let sys = emit [Epoll_del (sock_fd csm), Close (sock_fd csm)] sys;
            sys = (if close_rc e \<noteq> 0
                   then sys\<lparr> socket_close_err_counter := socket_close_err_counter sys + 1 \<rparr>
                   else sys)
        in (csm\<lparr> sock_fd := -1 \<rparr>, sys))"

definition scheduler_unregister_sock_read_event_callback :: "CSM \<Rightarrow> System \<Rightarrow> System" where
  "scheduler_unregister_sock_read_event_callback csm sys =
     (if sock_fd csm > 0 then sys\<lparr> readfd := removeAll (sock_fd csm) (readfd sys) \<rparr> else sys)"

text \<open>
  \<open>mlacp_link_enable_traffic_distribution\<close> on an interface of the machine; \<open>syncd_rc\<close> is what
  the request to \<open>mclagsyncd\<close> returns.
\<close>

definition mlacp_link_enable_traffic_distribution ::
    "csm_env \<Rightarrow> LocalInterface \<Rightarrow> LocalInterface \<times> iccp_event list" where
  "mlacp_link_enable_traffic_distribution e lif =
     (if lif_type lif = IF_T_PORT_CHANNEL \<and> lif_is_traffic_disable lif
      then (if syncd_rc e (lif_name lif) = 0 then lif\<lparr> lif_is_traffic_disable := False \<rparr> else lif,
            [Enable_traffic (lif_name lif)])
      else (lif, []))"

definition disconn_lif :: "csm_env \<Rightarrow> stp_role_type \<Rightarrow> LocalInterface \<Rightarrow> LocalInterface \<times> iccp_event list" where
  "disconn_lif e role lif =
     (let evs = (if role = STP_ROLE_STANDBY then [Recover_ipmac (lif_name lif)] else [])
      in if lif_is_traffic_disable lif
         then let (lif, evs') = mlacp_link_enable_traffic_distribution e lif in (lif, evs @ evs')
         else (lif, evs))"

text \<open>
  The calls into the forwarding database, the port isolation, the kernel and \<open>mclagsyncd\<close> are
  events.
\<close>

definition mlacp_peer_disconn_handler :: "csm_env \<Rightarrow> CSM \<Rightarrow> System \<Rightarrow> CSM \<times> System" where
  "mlacp_peer_disconn_handler e csm sys =
     (if warmboot_exit sys then (csm, sys)
      else if peer_warm_reboot_time csm \<noteq> 0
      then (csm\<lparr> peer_warm_reboot_time := 0, warm_reboot_disconn_time := now e \<rparr>, sys)
      else
        let sys = emit [Disconn_fdb (mlag_id csm), Set_iccp_state (mlag_id csm) False,
                        Isolate_cleanup (mlag_id csm)] sys;
            lifs = map (disconn_lif e (role_type csm)) (lif_list (MLACP csm));
            csm = upd_mlacp (\<lambda>m. m\<lparr> remote_system_id := replicate 6 0, lif_list := map fst lifs \<rparr>) csm;
            sys = emit (concat (map snd lifs)) sys;
            sys = (case peer_link_if csm of None \<Rightarrow> sys | Some n \<Rightarrow> emit [Update_vlan_mac n] sys);
            sys = sys\<lparr> session_down_counter := session_down_counter sys + 1 \<rparr>;
            sys = (if role_type csm = STP_ROLE_STANDBY then emit [Set_system_id (mlag_id csm)] sys
                   else sys)
        in (csm, emit (map (Del_remote_if (mlag_id csm)) (pif_list (MLACP csm))) sys))"

definition scheduler_session_disconnect_handler :: "csm_env \<Rightarrow> CSM \<Rightarrow> System \<Rightarrow> CSM \<times> System" where
  "scheduler_session_disconnect_handler e csm sys =
     (let sys = scheduler_unregister_sock_read_event_callback csm sys;
          (csm, sys) = (if sock_fd csm > 0 then scheduler_csm_socket_cleanup e csm sys
                        else (csm, sys));
          (csm, sys) = mlacp_peer_disconn_handler e csm sys;
          csm = upd_mlacp (\<lambda>m. m\<lparr> mlacp_current_state := MLACP_STATE_INIT \<rparr>) csm;
          (csm, sys) = iccp_csm_status_reset e csm False sys
      in (csm\<lparr> connTimePrev := now e \<rparr>, sys))"

definition set_peerlink_learn_kernel :: "csm_env \<Rightarrow> CSM \<Rightarrow> int \<Rightarrow> System \<Rightarrow> CSM \<times> System" where
  "set_peerlink_learn_kernel e csm enable sys =
     (case peer_link_if csm of
        None \<Rightarrow> (csm, sys)
      | Some name \<Rightarrow>
          let sys = emit [Bridge_learning name (enable \<noteq> 0)] sys
          in if shell_rc e name \<noteq> 0
             then (csm\<lparr> peer_link_learning_enable := enable,
                        peer_link_learning_retry_time := now e \<rparr>, sys)
             else (csm\<lparr> peer_link_learning_retry_time := 0 \<rparr>, sys))"

text \<open>
  Interfaces of a domain.  An interface object is identified by its name; the interfaces of
  \<open>lif_list\<close> are those whose \<open>csm\<close> pointer is this machine.
\<close>

definition mlacp_unbind_local_if :: "LocalInterface \<Rightarrow> CSM \<Rightarrow> CSM" where
  "mlacp_unbind_local_if lif =
     upd_mlacp (\<lambda>m. m\<lparr> lif_list := filter (\<lambda>l. lif_name l \<noteq> lif_name lif) (lif_list m),
                       lif_purge_list :=
                         (if mlacp_current_state m = MLACP_STATE_EXCHANGE \<and>
                             lif_type lif = IF_T_PORT_CHANNEL
                          then lif # lif_purge_list m else lif_purge_list m) \<rparr>)"

text \<open>
  The event stands for \<open>recover_if_ipmac_on_standby\<close> and \<open>mlacp_mlag_intf_detach_handler\<close>.
\<close>

definition iccp_cli_detach_mclag_domain_to_port_channel ::
    "string \<Rightarrow> CSM \<Rightarrow> System \<Rightarrow> CSM \<times> System" where
  "iccp_cli_detach_mclag_domain_to_port_channel ifname csm sys =
     (if take 11 ifname \<noteq> ''PortChannel'' then (csm, sys)
      else
        case find (\<lambda>l. lif_name l = ifname) (lif_list (MLACP csm)) of
          None \<Rightarrow> (csm, sys)
        | Some lif_po \<Rightarrow>
            if lif_type lif_po \<noteq> IF_T_PORT_CHANNEL \<or> lif_po_id lif_po \<le> 0 then (csm, sys)
            else
              let csm = mlacp_unbind_local_if lif_po csm;
                  members = filter (\<lambda>l. lif_type l = IF_T_PORT \<and> lif_po_id l = lif_po_id lif_po)
                              (lif_list (MLACP csm));
                  csm = fold mlacp_unbind_local_if members csm
              in (csm\<lparr> if_bind_list := filter (\<lambda>n. n \<noteq> ifname) (if_bind_list csm) \<rparr>,
                  emit [Detach_mclag ifname] sys))"

text \<open>
  \<open>iccp_csm_finalize\<close> ends with \<open>free(csm)\<close>: no machine is returned.
\<close>

definition iccp_csm_msg_list_finalize :: "CSM \<Rightarrow> CSM" where
  "iccp_csm_msg_list_finalize csm = csm\<lparr> msg_list := [] \<rparr>"

definition iccp_csm_finalize :: "csm_env \<Rightarrow> CSM \<Rightarrow> System \<Rightarrow> System" where
  "iccp_csm_finalize e csm sys =
     (let (csm, sys) =
            (if \<not> warmboot_exit sys then
               case peer_link_if csm of
                 None \<Rightarrow> (csm, sys)
               | Some name \<Rightarrow>
                   set_peerlink_learn_kernel e csm 1 (emit [Peerlink_port_learn name True] sys)
             else (csm, sys));
          (csm, sys) = scheduler_session_disconnect_handler e csm sys;
          (csm, sys) = fold (\<lambda>l (csm, sys).
                           iccp_cli_detach_mclag_domain_to_port_channel (lif_name l) csm sys)
                         (lif_list (MLACP csm)) (csm, sys);
          (csm, sys) = app_csm_finalize csm sys;
          csm = iccp_csm_msg_list_finalize (csm\<lparr> if_bind_list := [] \<rparr>)
      in emit [Csm_freed (mlag_id csm)] sys)"

section \<open>Setting a session up\<close>

definition scheduler_check_csm_config :: "csm_env \<Rightarrow> CSM \<Rightarrow> System \<Rightarrow> int \<times> CSM \<times> System" where
  "scheduler_check_csm_config e csm sys =
     (if mlag_id csm \<le> 0 \<or> peer_ip csm = [] \<or> sender_ip csm = [] then
        let (csm, sys) = iccp_csm_stp_role_count e csm sys in (-1, csm, sys)
      else if peer_itf_name csm \<noteq> [] then
        if \<not> if_exists e (peer_itf_name csm) then (-1, csm, sys)
        else
          let sys = emit [Mark_peer_link (peer_itf_name csm) True] sys;
              (csm, sys) = set_peerlink_learn_kernel e
                (csm\<lparr> peer_link_if := Some (peer_itf_name csm) \<rparr>) 0 sys;
              (csm, sys) = iccp_csm_stp_role_count e csm sys
          in (1, csm, sys)
      else
        let (csm, sys) = iccp_csm_stp_role_count e csm sys in (1, csm, sys))"

definition session_client_conn_handler :: "csm_env \<Rightarrow> CSM \<Rightarrow> System \<Rightarrow> CSM \<times> System" where
  "session_client_conn_handler e csm sys =
     (let connFd = socket_rc e;
          fail = (if connFd \<ge> 0
                  then (csm\<lparr> sock_fd := -1, connTimePrev := now e \<rparr>)
                  else (csm\<lparr> connTimePrev := now e \<rparr>))
      in if connFd = -1 then (fail, sys)
         else if bind_rc e < 0 then (fail, emit [Close connFd] sys)
         else
           let sys = emit [Connect connFd (peer_ip csm)] sys
           in if connect_rc e \<noteq> 0 then (fail, emit [Close connFd] sys)
              else
                let sys = emit [Epoll_add connFd] sys
                in if epoll_add_rc e \<noteq> 0 then (fail, emit [Close connFd] sys)
                   else (csm\<lparr> sock_fd := connFd, connTimePrev := now e \<rparr>,
                         sys\<lparr> readfd := connFd # readfd sys, readfd_count := readfd_count sys + 1 \<rparr>))"

definition scheduler_prepare_session :: "csm_env \<Rightarrow> CSM \<Rightarrow> System \<Rightarrow> CSM \<times> System" where
  "scheduler_prepare_session e csm sys =
     (let csm = (if connTimePrev csm = 0 then csm\<lparr> connTimePrev := now e \<rparr> else csm)
      in if now e - connTimePrev csm < CONNECT_INTERVAL_SEC then (csm, sys)
         else if sock_fd csm > 0 then (csm\<lparr> connTimePrev := now e \<rparr>, sys)
         else
           let (ret, csm, sys) = scheduler_check_csm_config e csm sys
           in if ret < 0 then (csm\<lparr> connTimePrev := now e \<rparr>, sys)
              else
                let local_ip = inet_addr e (sender_ip csm); remote_ip = inet_addr e (peer_ip csm)
                in if local_ip > remote_ip \<or> local_ip = remote_ip
                   then (csm\<lparr> connTimePrev := now e \<rparr>, sys)
                   else
                     let (csm, sys) = session_client_conn_handler e csm sys
                     in (csm\<lparr> connTimePrev := now e \<rparr>, sys))"

text \<open>
  \<open>scheduler_server_accept\<close>: the machine is the one found by the address of the client
  (\<open>system_get_csm_by_peer_ip\<close>), if there is one.
\<close>

fun system_get_csm_by_peer_ip :: "CSM list \<Rightarrow> string \<Rightarrow> nat option" where
  "system_get_csm_by_peer_ip [] ip = None"
| "system_get_csm_by_peer_ip (c # cs) ip =
     (if peer_ip c = ip then Some 0 else map_option Suc (system_get_csm_by_peer_ip cs ip))"

definition scheduler_server_accept ::
    "csm_env \<Rightarrow> string \<Rightarrow> CSM list \<Rightarrow> System \<Rightarrow> int \<times> CSM list \<times> System" where
  "scheduler_server_accept e client_addr csms sys =
     (if server_fd sys \<le> 0 then (-1, csms, sys)
      else
        let new_fd = accept_rc e;
            reject = (\<lambda>csms sys. (-1, csms, if new_fd \<ge> 0 then emit [Close new_fd] sys else sys))
        in if new_fd = -1 then reject csms sys
           else
             case system_get_csm_by_peer_ip csms client_addr of
               None \<Rightarrow> reject csms sys
             | Some k \<Rightarrow>
                 if sock_fd (csms ! k) > 0 then reject csms sys
                 else
                   let (ret, csm, sys) = scheduler_check_csm_config e (csms ! k) sys
                   in if ret < 0 then reject (csms[k := csm]) sys
                      else
                        let sys = emit [Epoll_add new_fd] sys
                        in if epoll_add_rc e \<noteq> 0 then reject (csms[k := csm]) sys
                           else (0, csms[k := csm\<lparr> sock_fd := new_fd,
                                                   current_state := ICCP_NONEXISTENT \<rparr>],
                                 sys\<lparr> readfd := new_fd # readfd sys,
                                      readfd_count := readfd_count sys + 1 \<rparr>))"

section \<open>The transitions of the machine\<close>

definition iccp_csm_enter_state :: "CSM \<Rightarrow> CSM" where
  "iccp_csm_enter_state csm =
     (case current_state csm of
        ICCP_INITIALIZED \<Rightarrow> upd_info (\<lambda>i. i\<lparr> sender_capability_flag := True \<rparr>) csm
      | ICCP_CAPREC \<Rightarrow> upd_info (\<lambda>i. i\<lparr> sender_capability_flag := True,
                                          peer_capability_flag := True \<rparr>) csm
      | ICCP_CONNECTING \<Rightarrow> upd_info (\<lambda>i. i\<lparr> sender_rg_connect_flag := True \<rparr>) csm
      | ICCP_OPERATIONAL \<Rightarrow> upd_info (\<lambda>i. i\<lparr> sender_rg_connect_flag := True,
                                               peer_rg_connect_flag := True \<rparr>) csm
      | _ \<Rightarrow> csm)"

definition correspond_opt :: "CSM \<Rightarrow> mem option \<Rightarrow> System \<Rightarrow> (CSM \<times> System) option" where
  "correspond_opt csm msg sys =
     (case msg of None \<Rightarrow> Some (csm, sys) | Some m \<Rightarrow> iccp_csm_correspond_from_msg csm m sys)"

text \<open>\<open>len = iccp_csm_prepare_iccp_msg(...); iccp_csm_send(csm, g_csm_buf, len)\<close>\<close>

definition send_state_msg :: "csm_env \<Rightarrow> CSM \<Rightarrow> System \<Rightarrow> CSM \<times> System" where
  "send_state_msg e csm sys =
     (let (msg, sys) = iccp_csm_prepare_iccp_msg csm sys;
          (rc, csm, sys) = iccp_csm_send e csm msg sys
      in (csm, sys))"

text \<open>The \<open>switch\<close> of \<open>iccp_csm_transit\<close>, per state.\<close>

definition transit_switch ::
    "csm_env \<Rightarrow> CSM \<Rightarrow> mem option \<Rightarrow> System \<Rightarrow> (CSM \<times> System) option" where
  "transit_switch e csm msg sys =
     (case current_state csm of
        ICCP_NONEXISTENT \<Rightarrow>
          let (csm, sys) = scheduler_prepare_session e csm sys
          in if sock_fd csm > 0 then
               let (ret, csm, sys) = scheduler_check_csm_config e csm sys
               in Some (if ret > 0 then csm\<lparr> current_state := ICCP_INITIALIZED \<rparr> else csm, sys)
             else Some (csm, sys)
      | ICCP_INITIALIZED \<Rightarrow> do {
          (csm, sys) \<leftarrow> correspond_opt csm msg sys;
          let (csm, sys) = send_state_msg e csm sys;
          let i = iccp_info csm;
          Some (if sender_capability_flag i \<and> \<not> peer_capability_flag i
                then csm\<lparr> current_state := ICCP_CAPSENT \<rparr>
                else if sender_capability_flag i \<and> peer_capability_flag i
                then csm\<lparr> current_state := ICCP_CAPREC \<rparr> else csm, sys) }
      | ICCP_CAPSENT \<Rightarrow> do {
          (csm, sys) \<leftarrow> correspond_opt csm msg sys;
          let i = iccp_info csm;
          Some (if sender_capability_flag i \<and> peer_capability_flag i
                then csm\<lparr> current_state := ICCP_CAPREC \<rparr> else csm, sys) }
      | ICCP_CAPREC \<Rightarrow> do {
          (csm, sys) \<leftarrow> correspond_opt csm msg sys;
          let (csm, sys) = send_state_msg e csm sys;
          let i = iccp_info csm;
          Some (if \<not> peer_rg_connect_flag i \<and> status_code i = 0
                then csm\<lparr> current_state := ICCP_CONNECTING \<rparr>
                else if peer_rg_connect_flag i \<and> status_code i = 0
                then csm\<lparr> current_state := ICCP_OPERATIONAL \<rparr> else csm, sys) }
      | ICCP_CONNECTING \<Rightarrow> do {
          (csm, sys) \<leftarrow> correspond_opt csm msg sys;
          let (csm, sys) = send_state_msg e csm sys;
          let i = iccp_info csm;
          Some (if status_code i > 0 then csm\<lparr> current_state := ICCP_CAPREC \<rparr>
                else if peer_rg_connect_flag i \<and> status_code i = 0
                then csm\<lparr> current_state := ICCP_OPERATIONAL \<rparr> else csm, sys) }
      | ICCP_OPERATIONAL \<Rightarrow> do {
          (csm, sys) \<leftarrow> correspond_opt csm msg sys;
          let i = iccp_info csm;
          if \<not> sender_rg_connect_flag i \<or> \<not> peer_rg_connect_flag i
          then let (csm, sys) = send_state_msg e csm sys
               in Some (csm\<lparr> current_state := ICCP_CAPREC \<rparr>, sys)
          else Some (csm, sys) })"

text \<open>
  The whole transition.  The result is \<open>Inr\<close> the machine, or \<open>Inl ()\<close> when it has been freed.
  The second \<open>switch\<close> cannot be in \<open>ICCP_NONEXISTENT\<close>: its guard is a change of state or a
  state other than that one, and no branch above returns to it.
\<close>

definition iccp_csm_transit ::
    "csm_env \<Rightarrow> CSM \<Rightarrow> System \<Rightarrow> ((unit + CSM) \<times> System) option" where
  "iccp_csm_transit e csm sys =
     (if current_state csm \<noteq> ICCP_NONEXISTENT \<and> sock_fd csm \<le> 0
      then Some (Inl (), iccp_csm_finalize e (csm\<lparr> current_state := ICCP_NONEXISTENT \<rparr>) sys)
      else
        let prev_state = current_state csm; (msg, csm) = iccp_csm_dequeue_msg csm
        in do {
          (csm, sys) \<leftarrow> transit_switch e csm msg sys;
          if prev_state \<noteq> current_state csm \<or>
             (current_state csm \<noteq> ICCP_NONEXISTENT \<and> msg \<noteq> None)
          then if current_state csm = ICCP_NONEXISTENT
               then Some (Inl (), iccp_csm_finalize e csm sys)
               else Some (Inr (iccp_csm_enter_state csm), sys)
          else Some (Inr csm, sys)
        })"

section \<open>Heartbeat\<close>

definition heartbeat_check :: "csm_env \<Rightarrow> CSM \<Rightarrow> System \<Rightarrow> CSM \<times> System" where
  "heartbeat_check e csm sys =
     (if heartbeat_update_time csm = 0 then (csm\<lparr> heartbeat_update_time := now e \<rparr>, sys)
      else if now e - heartbeat_update_time csm > session_timeout csm
      then scheduler_session_disconnect_handler e csm sys
      else (csm, sys))"

definition heartbeat_update :: "csm_env \<Rightarrow> CSM \<Rightarrow> System \<Rightarrow> CSM \<times> System" where
  "heartbeat_update e csm sys =
     (if sock_fd csm > 0 then heartbeat_check e csm sys else (csm, sys))"

section \<open>Receiving from the session socket\<close>

text \<open>
  The stream of the socket is the list of what successive \<open>recv\<close> calls can return: bytes (a call
  that asks for fewer leaves the rest), the end of the stream (no bytes), \<open>EAGAIN\<close>, or another
  error.  A call on the empty list has nothing to return: the header is read with a blocking call,
  the payload with \<open>MSG_DONTWAIT\<close>, which then fails with \<open>EAGAIN\<close>.
\<close>

datatype recv_answer = Data mem | Again | Failed

type_synonym stream = "recv_answer list"

fun recv :: "nat \<Rightarrow> stream \<Rightarrow> recv_answer option \<times> stream" where
  "recv n [] = (None, [])"
| "recv n (Data xs # s) = (Some (Data (take n xs)), if n < length xs then Data (drop n xs) # s else s)"
| "recv n (Again # s) = (Some Again, s)"
| "recv n (Failed # s) = (Some Failed, s)"

lemma recv_data_length: "recv n s = (Some (Data xs), s') \<Longrightarrow> length xs \<le> n"
  by (cases "(n, s)" rule: recv.cases) auto

datatype header_result = Hdr_ok mem stream | Hdr_err stream | Hdr_zero stream | Hdr_block

function recv_header :: "mem \<Rightarrow> stream \<Rightarrow> header_result" where
  "recv_header buf s =
     (if length buf = sizeof_LDPHdr then Hdr_ok buf s
      else case recv (sizeof_LDPHdr - length buf) s of
        (None, _) \<Rightarrow> Hdr_block
      | (Some (Data xs), s') \<Rightarrow> if xs = [] then Hdr_zero s' else recv_header (buf @ xs) s'
      | (Some Again, s') \<Rightarrow> Hdr_err s'
      | (Some Failed, s') \<Rightarrow> Hdr_err s')"
  by pat_completeness auto

termination
  by (relation "measure (\<lambda>(buf, s). sizeof_LDPHdr - length buf)")
     (auto dest!: recv_data_length [OF sym] simp: neq_Nil_conv)

declare recv_header.simps [simp del]

abbreviation (input) RECV_RETRY_INTERVAL_USEC :: "32 word"
  where "RECV_RETRY_INTERVAL_USEC \<equiv> 100000"
abbreviation (input) RECV_RETRY_MAX :: nat where "RECV_RETRY_MAX \<equiv> 10"

datatype data_result = Data_ok mem nat stream System | Data_err stream System | Data_overrun

text \<open>
  \<open>buf\<close> holds what \<open>g_csm_buf\<close> has so far, \<open>n\<close> is \<open>data_len\<close>; bytes stored behind the end of the
  65536-byte buffer are the result \<open>Data_overrun\<close>.
\<close>

function recv_data ::
    "32 word \<Rightarrow> mem \<Rightarrow> nat \<Rightarrow> nat \<Rightarrow> 32 word \<Rightarrow> stream \<Rightarrow> System \<Rightarrow> data_result" where
  "recv_data timeout buf n num_retry total_retry_time s sys =
     (if n = 0 then Data_ok buf num_retry s sys
      else
        let again = (\<lambda>s'.
              if num_retry + 1 > RECV_RETRY_MAX
              then Data_err s' (sys\<lparr> rx_retry_fail_counter := rx_retry_fail_counter sys + 1 \<rparr>)
              else if num_retry + 1 = RECV_RETRY_MAX
              then recv_data timeout buf n (num_retry + 1) total_retry_time s'
                     (emit [Usleep (timeout * 1000000 - total_retry_time)] sys)
              else
                let t = of_nat (num_retry + 1) * RECV_RETRY_INTERVAL_USEC
                in recv_data timeout buf n (num_retry + 1) (total_retry_time + t) s'
                     (emit [Usleep t] sys))
        in case recv n s of
             (None, s') \<Rightarrow> again s'
           | (Some (Data xs), s') \<Rightarrow>
               if xs = []
               then Data_err s' (sys\<lparr> rx_peer_tlv_read_sock_zero_len_counter :=
                                        rx_peer_tlv_read_sock_zero_len_counter sys + 1 \<rparr>)
               else if length buf + length xs > CSM_BUFFER_SIZE then Data_overrun
               else recv_data timeout (buf @ xs) (n - length xs) num_retry total_retry_time s' sys
           | (Some Again, s') \<Rightarrow> again s'
           | (Some Failed, s') \<Rightarrow>
               Data_err s' (sys\<lparr> rx_peer_tlv_read_sock_err_counter :=
                                  rx_peer_tlv_read_sock_err_counter sys + 1 \<rparr>))"
  by pat_completeness auto

termination
  by (relation "measures [\<lambda>(t, buf, n, r, w, s, sys). n, \<lambda>(t, buf, n, r, w, s, sys). 11 - r]")
     (auto simp: Suc_le_eq)

declare recv_data.simps [simp del]

datatype 'a io = Ret 'a | Fault | Blocked

definition set_retry_counter :: "nat \<Rightarrow> System \<Rightarrow> System" where
  "set_retry_counter num_retry sys =
     (if num_retry > 0
      then sys\<lparr> rx_retry_total_counter := rx_retry_total_counter sys + of_nat num_retry,
                rx_retry_max_counter :=
                  (if of_nat num_retry > rx_retry_max_counter sys then of_nat num_retry
                   else rx_retry_max_counter sys) \<rparr>
      else sys)"

definition scheduler_csm_read_callback ::
    "csm_env \<Rightarrow> bool \<Rightarrow> CSM \<Rightarrow> stream \<Rightarrow> System \<Rightarrow> (int \<times> CSM \<times> stream \<times> System) io" where
  "scheduler_csm_read_callback e malloc_ok csm s sys =
     (let recv_err = (\<lambda>s sys. let (csm, sys) = scheduler_session_disconnect_handler e csm sys
                              in Ret (-1, csm, s, sys))
      in if sock_fd csm \<le> 0 then Ret (-1, csm, s, sys)
         else case recv_header [] s of
           Hdr_block \<Rightarrow> Blocked
         | Hdr_err s \<Rightarrow> recv_err s (sys\<lparr> rx_peer_hdr_read_sock_err_counter :=
                                        rx_peer_hdr_read_sock_err_counter sys + 1 \<rparr>)
         | Hdr_zero s \<Rightarrow> recv_err s (sys\<lparr> rx_peer_hdr_read_sock_zero_len_counter :=
                                        rx_peer_hdr_read_sock_zero_len_counter sys + 1 \<rparr>)
         | Hdr_ok hdr s \<Rightarrow>
             let msg_len = unat (be16 (hdr ! 2) (hdr ! 3))
             in if msg_len \<ge> MSG_L_INCLUD_U_BIT_MSG_T_L_FIELDS then
                  case recv_data (word_of_int (session_timeout csm)) hdr
                         (msg_len - MSG_L_INCLUD_U_BIT_MSG_T_L_FIELDS) 0 0 s sys of
                    Data_overrun \<Rightarrow> Fault
                  | Data_err s sys \<Rightarrow> recv_err s sys
                  | Data_ok buf num_retry s sys \<Rightarrow>
                      let sys = set_retry_counter num_retry sys
                      in case iccp_csm_init_msg malloc_ok
                                (take (msg_len + MSG_L_INCLUD_U_BIT_MSG_T_L_FIELDS) buf) of
                           Inl _ \<Rightarrow> Ret (1, csm\<lparr> i_msg_in_count := i_msg_in_count csm + 1 \<rparr>, s, sys)
                         | Inr msg \<Rightarrow>
                             case iccp_csm_enqueue_msg msg csm of
                               None \<Rightarrow> Fault
                             | Some csm \<Rightarrow>
                                 Ret (1, csm\<lparr> icc_msg_in_count := icc_msg_in_count csm + 1 \<rparr>, s, sys)
                else recv_err s (sys\<lparr> rx_peer_invalid_msg_counter :=
                                      rx_peer_invalid_msg_counter sys + 1 \<rparr>))"

section \<open>Reassembly of messages\<close>

definition all_data :: "stream \<Rightarrow> bool" where
  "all_data s \<longleftrightarrow> (\<forall>a \<in> set s. \<exists>xs. a = Data xs \<and> xs \<noteq> [])"

definition flat :: "stream \<Rightarrow> mem" where
  "flat s = concat (map (\<lambda>a. case a of Data xs \<Rightarrow> xs | _ \<Rightarrow> []) s)"

lemma recv_all_data:
  assumes "all_data s" "n > 0" "flat s \<noteq> []"
  shows "\<exists>xs s'. recv n s = (Some (Data xs), s') \<and> all_data s' \<and> xs \<noteq> [] \<and> length xs \<le> n \<and>
           flat s = xs @ flat s'"
proof -
  obtain ys s0 where s: "s = Data ys # s0" "ys \<noteq> []" "all_data s0"
    using assms(1,3) by (cases s) (auto simp: all_data_def flat_def)
  show ?thesis
  proof (cases "n < length ys")
    case True
    thus ?thesis using s assms(2) by (auto simp: all_data_def flat_def)
  next
    case False
    thus ?thesis using s assms(2) by (auto simp: all_data_def flat_def)
  qed
qed

lemma recv_header_data:
  assumes "all_data s" "length buf \<le> 8" "8 \<le> length buf + length (flat s)"
  shows "\<exists>s'. recv_header buf s = Hdr_ok (buf @ take (8 - length buf) (flat s)) s' \<and>
           all_data s' \<and> flat s' = drop (8 - length buf) (flat s)"
  using assms
proof (induction buf s rule: recv_header.induct)
  case (1 buf s)
  show ?case
  proof (cases "length buf = 8")
    case True
    thus ?thesis using 1(2) by (subst recv_header.simps) simp
  next
    case False
    hence pos: "8 - length buf > 0" using 1(3) by simp
    have "flat s \<noteq> []" using 1(4) pos by auto
    from recv_all_data [OF 1(2) pos this] obtain xs s' where
      r: "recv (8 - length buf) s = (Some (Data xs), s')" and d: "all_data s'" "xs \<noteq> []"
      "length xs \<le> 8 - length buf" "flat s = xs @ flat s'" by blast
    have "\<exists>s''. recv_header (buf @ xs) s' =
        Hdr_ok ((buf @ xs) @ take (8 - length (buf @ xs)) (flat s')) s'' \<and>
        all_data s'' \<and> flat s'' = drop (8 - length (buf @ xs)) (flat s')"
      using 1(1) [OF False, of _ s' _ xs] r d 1(3,4) by simp
    then obtain s'' where ih: "recv_header (buf @ xs) s' =
        Hdr_ok ((buf @ xs) @ take (8 - length (buf @ xs)) (flat s')) s''"
      "all_data s''" "flat s'' = drop (8 - length (buf @ xs)) (flat s')" by blast
    have "recv_header buf s = recv_header (buf @ xs) s'"
      using False r d(2) by (subst recv_header.simps) simp
    moreover have "take (8 - length buf) (flat s) = xs @ take (8 - length (buf @ xs)) (flat s')"
      "drop (8 - length buf) (flat s) = drop (8 - length (buf @ xs)) (flat s')"
      using d(3,4) by simp_all
    ultimately show ?thesis using ih by auto
  qed
qed

lemma recv_data_stream:
  assumes "all_data s" "n \<le> length (flat s)"
  shows "\<exists>s'. recv_data t buf n r w s sys =
           (if length buf + n \<le> CSM_BUFFER_SIZE \<or> n = 0
            then Data_ok (buf @ take n (flat s)) r s' sys else Data_overrun) \<and>
         all_data s' \<and> flat s' = drop n (flat s)"
  using assms
proof (induction n arbitrary: buf s rule: less_induct)
  case (less n)
  show ?case
  proof (cases "n = 0")
    case True
    thus ?thesis using less.prems by (subst recv_data.simps) auto
  next
    case False
    hence pos: "n > 0" by simp
    have "flat s \<noteq> []" using less.prems(2) pos by auto
    from recv_all_data [OF less.prems(1) pos this] obtain xs s' where
      r: "recv n s = (Some (Data xs), s')" and d: "all_data s'" "xs \<noteq> []" "length xs \<le> n"
      "flat s = xs @ flat s'" by blast
    have unfold: "recv_data t buf n r w s sys =
      (if length buf + length xs > CSM_BUFFER_SIZE then Data_overrun
       else recv_data t (buf @ xs) (n - length xs) r w s' sys)"
      using False r d(2) by (subst recv_data.simps) (simp add: Let_def)
    have le: "n - length xs \<le> length (flat s')" using less.prems(2) d(4) by simp
    have lt: "n - length xs < n" using d(2) pos by (cases xs) auto
    obtain s'' where ih: "recv_data t (buf @ xs) (n - length xs) r w s' sys =
        (if length (buf @ xs) + (n - length xs) \<le> CSM_BUFFER_SIZE \<or> n - length xs = 0
         then Data_ok ((buf @ xs) @ take (n - length xs) (flat s')) r s'' sys else Data_overrun)"
      "all_data s''" "flat s'' = drop (n - length xs) (flat s')"
      using less.IH [OF lt d(1) le] by blast
    have tk: "take n (flat s) = xs @ take (n - length xs) (flat s')"
      "drop n (flat s) = drop (n - length xs) (flat s')" using d(3,4) by simp_all
    show ?thesis using unfold ih tk d(3) False
      by (intro exI [of _ s'']) auto
  qed
qed

text \<open>A complete message at the head of the stream: its length field counts all but four bytes.\<close>

definition wire_msg :: "mem \<Rightarrow> bool" where
  "wire_msg m \<longleftrightarrow> 8 \<le> length m \<and> length m = unat (be16 (m ! 2) (m ! 3)) + 4"

lemma read_callback_data:
  assumes s: "all_data s" "flat s = m @ rest" and m: "wire_msg m" and sock: "sock_fd csm > 0"
  shows "\<exists>s'. scheduler_csm_read_callback e ok csm s sys =
     (if length m \<le> CSM_BUFFER_SIZE \<or> length m = 8
      then (case iccp_csm_init_msg ok m of
              Inl _ \<Rightarrow> Ret (1, csm\<lparr> i_msg_in_count := i_msg_in_count csm + 1 \<rparr>, s', sys)
            | Inr msg \<Rightarrow> (case iccp_csm_enqueue_msg msg csm of
                None \<Rightarrow> Fault
              | Some csm' \<Rightarrow> Ret (1, csm'\<lparr> icc_msg_in_count := icc_msg_in_count csm' + 1 \<rparr>, s', sys)))
      else Fault) \<and> all_data s' \<and> flat s' = rest"
proof -
  have len: "8 \<le> length m" and L: "length m = unat (be16 (m ! 2) (m ! 3)) + 4"
    using m by (simp_all add: wire_msg_def)
  obtain s1 where h: "recv_header [] s = Hdr_ok (take 8 m) s1" "all_data s1"
      "flat s1 = drop 8 m @ rest"
    using recv_header_data [OF s(1), of "[]"] s(2) len by auto
  have bytes: "take 8 m ! 2 = m ! 2" "take 8 m ! 3 = m ! 3" by simp_all
  define n where "n = unat (be16 (m ! 2) (m ! 3)) - 4"
  have n: "n = length m - 8" "unat (be16 (m ! 2) (m ! 3)) \<ge> 4" using len L by (simp_all add: n_def)
  have le: "n \<le> length (flat s1)" using h(3) n(1) by simp
  obtain s2 where d: "recv_data (word_of_int (session_timeout csm)) (take 8 m) n 0 0 s1 sys =
      (if length (take 8 m) + n \<le> CSM_BUFFER_SIZE \<or> n = 0
       then Data_ok (take 8 m @ take n (flat s1)) 0 s2 sys else Data_overrun)"
      "all_data s2" "flat s2 = drop n (flat s1)"
    using recv_data_stream [OF h(2) le, of "word_of_int (session_timeout csm)" "take 8 m" 0 0 sys] by blast
  have whole: "take 8 m @ take n (flat s1) = m" "flat s2 = rest"
    using h(3) n(1) d(3) by simp_all
  have cond: "length (take 8 m) + n \<le> CSM_BUFFER_SIZE \<or> n = 0 \<longleftrightarrow>
      length m \<le> CSM_BUFFER_SIZE \<or> length m = 8"
    using n(1) len by auto
  have "scheduler_csm_read_callback e ok csm s sys =
     (if length m \<le> CSM_BUFFER_SIZE \<or> length m = 8
      then (case iccp_csm_init_msg ok m of
              Inl _ \<Rightarrow> Ret (1, csm\<lparr> i_msg_in_count := i_msg_in_count csm + 1 \<rparr>, s2, sys)
            | Inr msg \<Rightarrow> (case iccp_csm_enqueue_msg msg csm of
                None \<Rightarrow> Fault
              | Some csm' \<Rightarrow> Ret (1, csm'\<lparr> icc_msg_in_count := icc_msg_in_count csm' + 1 \<rparr>, s2, sys)))
      else Fault)"
    using sock h(1) n(2) d(1) cond L
    by (simp add: scheduler_csm_read_callback_def Let_def bytes n_def [symmetric] whole
        set_retry_counter_def)
  thus ?thesis using d(2) whole(2) by blast
qed



text \<open>
  C28.  A length field of at least 65533 makes the read callback store behind the end of the
  65536-byte buffer g_csm_buf: the header plus the announced payload do not fit, and the loop does
  not compare them.
\<close>

theorem oversized_length_overruns_buffer:
  assumes "all_data s" "flat s = m @ rest" "wire_msg m" "sock_fd csm > 0"
    and "unat (be16 (m ! 2) (m ! 3)) \<ge> 65533"
  shows "scheduler_csm_read_callback e ok csm s sys = Fault"
proof -
  have "length m > 65536" using assms(3,5) by (simp add: wire_msg_def)
  thus ?thesis using read_callback_data [OF assms(1-4), of e ok sys] by auto
qed

lemma be16_ff_lo: "unat (be16 0xff 0xff) = 65535"
  by (simp add: unat_be16)

theorem oversized_length_overruns_buffer_witness:
  "\<exists>m. wire_msg m \<and>
     scheduler_csm_read_callback sample_csm_env True (CSM_zero\<lparr> sock_fd := 9 \<rparr>) [Data m] sample_system = Fault"
proof -
  define m :: mem where "m = [0x07, 0x03, 0xff, 0xff] @ replicate 65535 0"
  have f: "m ! 2 = 0xff" "m ! 3 = 0xff" "length m = 65539"
    by (simp_all add: m_def)
  have w: "wire_msg m" using f by (simp add: wire_msg_def be16_ff_lo)
  have d: "all_data [Data m]" "flat [Data m] = m @ []"
    using f(3) by (auto simp: all_data_def flat_def)
  show ?thesis
    using oversized_length_overruns_buffer [OF d w, of "CSM_zero\<lparr> sock_fd := 9 \<rparr>" sample_csm_env True sample_system]
      w f be16_ff_lo by auto
qed


end
