(* ===== verification/Iccp_Handshake.thy ===== *)
theory Iccp_Handshake
  imports Iccp_Sched
begin

text \<open>
  Two connection state machines at the ends of one session.  The handshake of capability and
  connect messages is described by an abstract machine on pairs of states, which the machines of
  \<open>Iccp_Sched\<close> refine; from the abstract machine follows that the handshake completes under every
  fair schedule.
\<close>

section \<open>Two machines on one connection\<close>

text \<open>
  One turn of a machine: its part of \<open>scheduler_transit_fsm\<close> without the heartbeat check.  The
  messages it puts on the wire are the buffers that \<open>write\<close> accepted in full.
\<close>

definition wire_out :: "csm_env \<Rightarrow> iccp_event list \<Rightarrow> mem list" where
  "wire_out e evs =
     concat (map (\<lambda>ev. case ev of
       Write fd buf \<Rightarrow> if write_rc e buf = int (length buf) then [buf] else [] | _ \<Rightarrow> []) evs)"

definition machine_turn ::
    "csm_env \<Rightarrow> CSM \<times> System \<Rightarrow> ((CSM \<times> System) \<times> mem list) option" where
  "machine_turn e = (\<lambda>(csm, sys).
     do { (r, sys') \<leftarrow> iccp_csm_transit e csm (sys\<lparr> trace := [] \<rparr>);
          case r of
            Inl _ \<Rightarrow> None
          | Inr csm' \<Rightarrow> Some ((app_csm_transit csm', sys'), wire_out e (trace sys')) })"

fun deliver :: "mem list \<Rightarrow> CSM \<Rightarrow> CSM option" where
  "deliver [] csm = Some csm"
| "deliver (m # ms) csm = Option.bind (iccp_csm_enqueue_msg m csm) (deliver ms)"

text \<open>A schedule says whose turn it is and what that machine's environment answers.\<close>

fun run_link ::
    "(bool \<times> csm_env) list \<Rightarrow> (CSM \<times> System) \<times> (CSM \<times> System)
      \<Rightarrow> ((CSM \<times> System) \<times> (CSM \<times> System)) option" where
  "run_link [] ab = Some ab"
| "run_link ((left, e) # sched) (a, b) =
     (if left
      then do { (a, out) \<leftarrow> machine_turn e a; c \<leftarrow> deliver out (fst b); run_link sched (a, (c, snd b)) }
      else do { (b, out) \<leftarrow> machine_turn e b; c \<leftarrow> deliver out (fst a); run_link sched ((c, snd a), b) })"

section \<open>The handshake as an abstract machine\<close>

text \<open>
  How many of the two handshake messages a machine in a given state has sent, and how many of its
  peer's it has interpreted.
\<close>

fun hs_sent :: "ICCP_CONNECTION_STATE \<Rightarrow> nat" where
  "hs_sent ICCP_NONEXISTENT = 0"
| "hs_sent ICCP_INITIALIZED = 0"
| "hs_sent ICCP_CAPSENT = 1"
| "hs_sent ICCP_CAPREC = 1"
| "hs_sent ICCP_CONNECTING = 2"
| "hs_sent ICCP_OPERATIONAL = 2"

fun hs_seen :: "ICCP_CONNECTION_STATE \<Rightarrow> nat" where
  "hs_seen ICCP_NONEXISTENT = 0"
| "hs_seen ICCP_INITIALIZED = 0"
| "hs_seen ICCP_CAPSENT = 0"
| "hs_seen ICCP_CAPREC = 1"
| "hs_seen ICCP_CONNECTING = 1"
| "hs_seen ICCP_OPERATIONAL = 2"

fun hs_next :: "ICCP_CONNECTION_STATE \<Rightarrow> nat \<Rightarrow> ICCP_CONNECTION_STATE" where
  "hs_next ICCP_NONEXISTENT n = ICCP_NONEXISTENT"
| "hs_next ICCP_INITIALIZED n = (if n \<ge> 1 then ICCP_CAPREC else ICCP_CAPSENT)"
| "hs_next ICCP_CAPSENT n = (if n \<ge> 1 then ICCP_CAPREC else ICCP_CAPSENT)"
| "hs_next ICCP_CAPREC n = (if n \<ge> 2 then ICCP_OPERATIONAL else ICCP_CONNECTING)"
| "hs_next ICCP_CONNECTING n = (if n \<ge> 2 then ICCP_OPERATIONAL else ICCP_CONNECTING)"
| "hs_next ICCP_OPERATIONAL n = ICCP_OPERATIONAL"

definition is_cap :: "mem \<Rightarrow> bool" where
  "is_cap m \<longleftrightarrow> (\<exists>x mid. sender_capability_flag (iccp_info x) \<and>
                          m = iccp_csm_prepare_capability_msg x mid)"

definition is_rg :: "32 word \<Rightarrow> mem \<Rightarrow> bool" where
  "is_rg rg m \<longleftrightarrow> (\<exists>x mid. icc_rg_id (iccp_info x) = rg \<and>
                          m = iccp_csm_prepare_rg_connect_msg x mid)"

definition hs_msgs :: "32 word \<Rightarrow> nat \<Rightarrow> nat \<Rightarrow> mem list \<Rightarrow> bool" where
  "hs_msgs rg i j ms \<longleftrightarrow> list_all2 (\<lambda>P m. P m) (drop i (take j [is_cap, is_rg rg])) ms"

text \<open>A machine of group \<open>rg\<close> whose peer has sent \<open>n\<close> of its handshake messages.\<close>

definition hs_side :: "32 word \<Rightarrow> ICCP_CONNECTION_STATE \<Rightarrow> nat \<Rightarrow> CSM \<Rightarrow> bool" where
  "hs_side rg p n csm \<longleftrightarrow>
     current_state csm = p \<and> p \<noteq> ICCP_NONEXISTENT \<and> sock_fd csm > 0 \<and>
     icc_rg_id (iccp_info csm) = rg \<and> status_code (iccp_info csm) = 0 \<and>
     sender_capability_flag (iccp_info csm) \<and>
     peer_capability_flag (iccp_info csm) = (hs_seen p \<ge> 1) \<and>
     peer_rg_connect_flag (iccp_info csm) = (hs_seen p \<ge> 2) \<and>
     (p = ICCP_OPERATIONAL \<longrightarrow> sender_rg_connect_flag (iccp_info csm)) \<and>
     app_current_state (app_csm csm) =
       (if p = ICCP_OPERATIONAL then APP_OPERATIONAL else APP_NONEXISTENT) \<and>
     hs_seen p \<le> n \<and> n \<le> 2 \<and>
     (\<exists>ms. msg_list csm = map to_host ms \<and> hs_msgs rg (hs_seen p) n ms)"

definition reliable :: "csm_env \<Rightarrow> bool" where
  "reliable e \<longleftrightarrow> (\<forall>buf. write_rc e buf = int (length buf))"

lemma hs_msgs_simps [simp]:
  "hs_msgs rg 0 0 ms = (ms = [])"
  "hs_msgs rg 0 1 ms = (\<exists>m. ms = [m] \<and> is_cap m)"
  "hs_msgs rg 0 (Suc 0) ms = (\<exists>m. ms = [m] \<and> is_cap m)"
  "hs_msgs rg 0 2 ms = (\<exists>m m'. ms = [m, m'] \<and> is_cap m \<and> is_rg rg m')"
  "hs_msgs rg 1 1 ms = (ms = [])"
  "hs_msgs rg (Suc 0) (Suc 0) ms = (ms = [])"
  "hs_msgs rg 1 2 ms = (\<exists>m. ms = [m] \<and> is_rg rg m)"
  "hs_msgs rg (Suc 0) 2 ms = (\<exists>m. ms = [m] \<and> is_rg rg m)"
  "hs_msgs rg 2 2 ms = (ms = [])"
  by (auto simp: hs_msgs_def list_all2_Cons1 numeral_2_eq_2)

lemma send_ok:
  assumes "sock_fd csm > 0" "buf \<noteq> []"
  shows "\<exists>l c. iccp_csm_send e csm (Some buf) sys =
     (write_rc e buf, csm\<lparr> msg_log := l, app_csm := (app_csm csm)\<lparr> mlacp := (MLACP csm)\<lparr> iccp_counters := c \<rparr>\<rparr>\<rparr>,
      emit [Write (sock_fd csm) buf] sys)"
proof -
  have count: "\<exists>c. count_tx t st x = x\<lparr> app_csm := (app_csm x)\<lparr> mlacp := (MLACP x)\<lparr> iccp_counters := c \<rparr>\<rparr>\<rparr>"
    for t st and x :: CSM
  proof (cases "mlacp_fsm_iccp_to_dbg_msg_type t < 29")
    case True
    thus ?thesis by (auto simp: count_tx_def Let_def)
  next
    case False
    hence "count_tx t st x = x\<lparr> app_csm := (app_csm x)\<lparr> mlacp := (MLACP x)\<lparr> iccp_counters := iccp_counters (MLACP x) \<rparr>\<rparr>\<rparr>"
      by (simp add: count_tx_def Let_def)
    thus ?thesis by blast
  qed
  let ?x = "csm\<lparr> msg_log := log_sent (log_entry buf) (msg_log csm) \<rparr>"
  obtain c0 where c0: "count_tx (log_tlv (log_entry buf)) 0 ?x =
      ?x\<lparr> app_csm := (app_csm ?x)\<lparr> mlacp := (MLACP ?x)\<lparr> iccp_counters := c0 \<rparr>\<rparr>\<rparr>"
    using count by blast
  obtain c1 where c1: "count_tx (log_tlv (log_entry buf)) 1 ?x =
      ?x\<lparr> app_csm := (app_csm ?x)\<lparr> mlacp := (MLACP ?x)\<lparr> iccp_counters := c1 \<rparr>\<rparr>\<rparr>"
    using count by blast
  show ?thesis
  proof (cases "write_rc e buf \<le> 0 \<or> write_rc e buf \<noteq> int (length buf)")
    case True
    thus ?thesis using assms c1 by (auto simp: iccp_csm_send_def Let_def)
  next
    case False
    thus ?thesis using assms c0 by (auto simp: iccp_csm_send_def Let_def)
  qed
qed

lemma wire_nonempty [simp]:
  "iccp_csm_prepare_capability_msg c mid \<noteq> []" "iccp_csm_prepare_rg_connect_msg c mid \<noteq> []"
  by (simp_all add: capability_msg_wire rg_connect_msg_wire)

lemma send_state_msg_some:
  assumes "sock_fd csm > 0" "iccp_csm_prepare_iccp_msg csm sys = (Some buf, sys')" "buf \<noteq> []"
  shows "\<exists>l c. send_state_msg e csm sys =
     (csm\<lparr> msg_log := l, app_csm := (app_csm csm)\<lparr> mlacp := (MLACP csm)\<lparr> iccp_counters := c \<rparr>\<rparr>\<rparr>,
      emit [Write (sock_fd csm) buf] sys')"
proof -
  obtain l c where "iccp_csm_send e csm (Some buf) sys' =
     (write_rc e buf, csm\<lparr> msg_log := l, app_csm := (app_csm csm)\<lparr> mlacp := (MLACP csm)\<lparr> iccp_counters := c \<rparr>\<rparr>\<rparr>,
      emit [Write (sock_fd csm) buf] sys')"
    using send_ok [OF assms(1,3)] by blast
  thus ?thesis by (intro exI [of _ l] exI [of _ c]) (simp add: send_state_msg_def assms(2))
qed

lemma send_state_msg_none:
  "iccp_csm_prepare_iccp_msg csm sys = (None, sys') \<Longrightarrow> send_state_msg e csm sys = (csm, sys')"
  by (simp add: send_state_msg_def iccp_csm_send_def)

lemma correspond_cap_seen:
  assumes "is_cap m"
  shows "iccp_csm_correspond_from_msg c (to_host m) sys =
    Some (c\<lparr> iccp_info := (iccp_info c)\<lparr> peer_capability_flag := True \<rparr>\<rparr>, sys)"
  using assms by (auto simp: is_cap_def correspond_capability)

lemma correspond_rg_seen:
  assumes "is_rg (icc_rg_id (iccp_info c)) m" "status_code (iccp_info c) = 0"
  shows "iccp_csm_correspond_from_msg c (to_host m) sys =
    Some (c\<lparr> iccp_info := (iccp_info c)\<lparr> peer_rg_connect_flag := True \<rparr>\<rparr>, sys)"
  using assms by (auto simp: is_rg_def correspond_rg_connect check_rg_def)

lemma wire_out_write: "reliable e \<Longrightarrow> wire_out e [Write fd buf] = [buf]"
  by (simp add: wire_out_def reliable_def)

lemmas transit_defs =
  machine_turn_def iccp_csm_transit_def iccp_csm_dequeue_msg_def transit_switch_def
  correspond_opt_def iccp_csm_enter_state_def app_csm_transit_def emit_def Let_def


text \<open>Taking the next message of the peer, if it is there, and interpreting it.\<close>

lemma hs_receive:
  assumes side: "hs_side rg p n csm"
  defines "k \<equiv> (if n > hs_seen p then hs_seen p + 1 else hs_seen p)"
  shows "\<exists>msg ms.
    iccp_csm_dequeue_msg csm = (msg, csm\<lparr> msg_list := map to_host ms \<rparr>) \<and>
    correspond_opt (csm\<lparr> msg_list := map to_host ms \<rparr>) msg sys =
      Some (csm\<lparr> msg_list := map to_host ms,
                 iccp_info := (iccp_info csm)\<lparr> peer_capability_flag := k \<ge> 1,
                                               peer_rg_connect_flag := k \<ge> 2 \<rparr>\<rparr>, sys) \<and>
    hs_msgs rg k n ms"
proof -
  obtain ms where ms: "msg_list csm = map to_host ms" "hs_msgs rg (hs_seen p) n ms"
    and n: "hs_seen p \<le> n" "n \<le> 2"
    and f: "peer_capability_flag (iccp_info csm) = (hs_seen p \<ge> 1)"
           "peer_rg_connect_flag (iccp_info csm) = (hs_seen p \<ge> 2)"
           "icc_rg_id (iccp_info csm) = rg" "status_code (iccp_info csm) = 0"
    using side by (auto simp: hs_side_def)
  have id: "csm\<lparr> msg_list := msg_list csm \<rparr> = csm" by simp
  show ?thesis
  proof (cases ms)
    case Nil
    have "n = hs_seen p" using Nil ms(2) n by (simp add: hs_msgs_def)
    thus ?thesis using Nil ms f unfolding k_def
      by (intro exI [of _ None] exI [of _ "[]"])
         (simp add: iccp_csm_dequeue_msg_def correspond_opt_def hs_msgs_def)
  next
    case (Cons m ms')
    hence lt: "hs_seen p < n" using ms(2) n by (cases "hs_seen p = n") (auto simp: hs_msgs_def)
    hence cases: "hs_seen p = 0 \<and> is_cap m \<or> hs_seen p = 1 \<and> is_rg rg m"
      and rest: "hs_msgs rg (hs_seen p + 1) n ms'"
      using ms(2) n Cons by (auto simp: hs_msgs_def numeral_2_eq_2 le_Suc_eq less_Suc_eq)
    have "correspond_opt (csm\<lparr> msg_list := map to_host ms' \<rparr>) (Some (to_host m)) sys =
      Some (csm\<lparr> msg_list := map to_host ms',
                 iccp_info := (iccp_info csm)\<lparr> peer_capability_flag := k \<ge> 1,
                                               peer_rg_connect_flag := k \<ge> 2 \<rparr>\<rparr>, sys)"
      using cases lt f unfolding k_def
      by (auto simp: correspond_opt_def correspond_cap_seen correspond_rg_seen)
    thus ?thesis using Cons ms(1) rest lt unfolding k_def
      by (intro exI [of _ "Some (to_host m)"] exI [of _ ms']) (simp add: iccp_csm_dequeue_msg_def)
  qed
qed

lemma is_capI: "sender_capability_flag (iccp_info x) \<Longrightarrow> is_cap (iccp_csm_prepare_capability_msg x mid)"
  by (auto simp: is_cap_def)

lemma is_rgI: "icc_rg_id (iccp_info x) = rg \<Longrightarrow> is_rg rg (iccp_csm_prepare_rg_connect_msg x mid)"
  by (auto simp: is_rg_def)

lemma hs_turn_send:
  assumes side: "hs_side rg p n csm" and rel: "reliable e"
    and p: "p = ICCP_INITIALIZED \<or> p = ICCP_CAPREC"
  shows "\<exists>csm' sys' out. machine_turn e (csm, sys) = Some ((csm', sys'), out) \<and>
    hs_side rg (hs_next p n) n csm' \<and> hs_msgs rg (hs_sent p) (hs_sent (hs_next p n)) out"
proof -
  define sys0 where "sys0 = sys\<lparr> trace := [] \<rparr>"
  define k where "k = (if n > hs_seen p then hs_seen p + 1 else hs_seen p)"
  obtain msg ms where deq: "iccp_csm_dequeue_msg csm = (msg, csm\<lparr> msg_list := map to_host ms \<rparr>)"
    and cor: "correspond_opt (csm\<lparr> msg_list := map to_host ms \<rparr>) msg sys0 =
      Some (csm\<lparr> msg_list := map to_host ms,
                 iccp_info := (iccp_info csm)\<lparr> peer_capability_flag := k \<ge> 1,
                                               peer_rg_connect_flag := k \<ge> 2 \<rparr>\<rparr>, sys0)"
    and rest: "hs_msgs rg k n ms"
    using hs_receive [OF side] unfolding k_def by blast
  let ?c = "csm\<lparr> msg_list := map to_host ms,
                 iccp_info := (iccp_info csm)\<lparr> peer_capability_flag := k \<ge> 1,
                                               peer_rg_connect_flag := k \<ge> 2 \<rparr>\<rparr>"
  have st: "current_state csm = p" "sock_fd csm > 0" "status_code (iccp_info csm) = 0"
    "icc_rg_id (iccp_info csm) = rg" "sender_capability_flag (iccp_info csm)"
    "app_current_state (app_csm csm) = APP_NONEXISTENT" "hs_seen p \<le> n" "n \<le> 2"
    using side p by (auto simp: hs_side_def)
  obtain buf where prep: "iccp_csm_prepare_iccp_msg ?c sys0 =
      (Some buf, sys0\<lparr> ICCP_MSG_ID := ICCP_MSG_ID sys + 1 \<rparr>)" and buf: "buf \<noteq> []"
    "p = ICCP_INITIALIZED \<Longrightarrow> is_cap buf" "p = ICCP_CAPREC \<Longrightarrow> is_rg rg buf"
  proof (cases "p = ICCP_INITIALIZED")
    case True
    show ?thesis
      by (rule that [of "iccp_csm_prepare_capability_msg ?c (ICCP_MSG_ID sys)"])
         (use True st in \<open>auto simp: iccp_csm_prepare_iccp_msg_def sys0_def Let_def intro: is_capI\<close>)
  next
    case False
    with p have "p = ICCP_CAPREC" by simp
    thus ?thesis
      by (intro that [of "iccp_csm_prepare_rg_connect_msg ?c (ICCP_MSG_ID sys)"])
         (use st in \<open>auto simp: iccp_csm_prepare_iccp_msg_def sys0_def Let_def intro: is_rgI\<close>)
  qed
  obtain l cn where snd: "send_state_msg e ?c sys0 =
     (?c\<lparr> msg_log := l, app_csm := (app_csm ?c)\<lparr> mlacp := (MLACP ?c)\<lparr> iccp_counters := cn \<rparr>\<rparr>\<rparr>,
      emit [Write (sock_fd ?c) buf] (sys0\<lparr> ICCP_MSG_ID := ICCP_MSG_ID sys + 1 \<rparr>))"
    using send_state_msg_some [OF _ prep buf(1), of e] st(2) by auto
  have k: "k \<le> n" "k \<le> 2" "k = hs_seen (hs_next p n)" using st p by (auto simp: k_def)
  show ?thesis
    using p
  proof
    assume i: "p = ICCP_INITIALIZED"
    show ?thesis
      using st i deq cor snd rest k rel buf
      by (auto simp: machine_turn_def iccp_csm_transit_def transit_switch_def iccp_csm_enter_state_def
          app_csm_transit_def emit_def Let_def sys0_def wire_out_write hs_side_def)
  next
    assume i: "p = ICCP_CAPREC"
    show ?thesis
      using st i deq cor snd rest k rel buf
      by (auto simp: machine_turn_def iccp_csm_transit_def transit_switch_def iccp_csm_enter_state_def
          app_csm_transit_def emit_def Let_def sys0_def wire_out_write hs_side_def)
  qed
qed

lemma hs_turn_wait:
  assumes side: "hs_side rg p n csm"
    and p: "p = ICCP_CAPSENT \<or> p = ICCP_CONNECTING \<or> p = ICCP_OPERATIONAL"
  shows "\<exists>csm' sys' out. machine_turn e (csm, sys) = Some ((csm', sys'), out) \<and>
    hs_side rg (hs_next p n) n csm' \<and> hs_msgs rg (hs_sent p) (hs_sent (hs_next p n)) out"
proof -
  define sys0 where "sys0 = sys\<lparr> trace := [] \<rparr>"
  define k where "k = (if n > hs_seen p then hs_seen p + 1 else hs_seen p)"
  obtain msg ms where deq: "iccp_csm_dequeue_msg csm = (msg, csm\<lparr> msg_list := map to_host ms \<rparr>)"
    and cor: "correspond_opt (csm\<lparr> msg_list := map to_host ms \<rparr>) msg sys0 =
      Some (csm\<lparr> msg_list := map to_host ms,
                 iccp_info := (iccp_info csm)\<lparr> peer_capability_flag := k \<ge> 1,
                                               peer_rg_connect_flag := k \<ge> 2 \<rparr>\<rparr>, sys0)"
    and rest: "hs_msgs rg k n ms"
    using hs_receive [OF side] unfolding k_def by blast
  let ?c = "csm\<lparr> msg_list := map to_host ms,
                 iccp_info := (iccp_info csm)\<lparr> peer_capability_flag := k \<ge> 1,
                                               peer_rg_connect_flag := k \<ge> 2 \<rparr>\<rparr>"
  have st: "current_state csm = p" "sock_fd csm > 0" "status_code (iccp_info csm) = 0"
    "icc_rg_id (iccp_info csm) = rg" "sender_capability_flag (iccp_info csm)"
    "app_current_state (app_csm csm) =
       (if p = ICCP_OPERATIONAL then APP_OPERATIONAL else APP_NONEXISTENT)"
    "hs_seen p \<le> n" "n \<le> 2" "p = ICCP_OPERATIONAL \<longrightarrow> sender_rg_connect_flag (iccp_info csm)"
    using side by (auto simp: hs_side_def)
  have snd: "p = ICCP_CONNECTING \<Longrightarrow> send_state_msg e ?c sys0 = (?c, sys0)"
    using st by (intro send_state_msg_none) (simp add: iccp_csm_prepare_iccp_msg_def Let_def)
  have k: "k \<le> n" "k \<le> 2" "k = hs_seen (hs_next p n)" using st p by (auto simp: k_def)
  have out: "wire_out e [] = []" by (simp add: wire_out_def)
  from p consider "p = ICCP_CAPSENT" | "p = ICCP_CONNECTING" | "p = ICCP_OPERATIONAL" by blast
  thus ?thesis
  proof cases
    case 1
    thus ?thesis using st deq cor rest k
      by (auto simp: machine_turn_def iccp_csm_transit_def transit_switch_def iccp_csm_enter_state_def
          app_csm_transit_def Let_def sys0_def out hs_side_def)
  next
    case 2
    thus ?thesis using st deq cor rest k snd
      by (auto simp: machine_turn_def iccp_csm_transit_def transit_switch_def iccp_csm_enter_state_def
          app_csm_transit_def Let_def sys0_def out hs_side_def)
  next
    case 3
    thus ?thesis using st deq cor rest k
      by (auto simp: machine_turn_def iccp_csm_transit_def transit_switch_def iccp_csm_enter_state_def
          app_csm_transit_def Let_def sys0_def out hs_side_def)
  qed
qed

lemma hs_turn:
  assumes "hs_side rg p n csm" "reliable e"
  shows "\<exists>csm' sys' out. machine_turn e (csm, sys) = Some ((csm', sys'), out) \<and>
    hs_side rg (hs_next p n) n csm' \<and> hs_msgs rg (hs_sent p) (hs_sent (hs_next p n)) out"
proof (cases "p = ICCP_INITIALIZED \<or> p = ICCP_CAPREC")
  case True
  thus ?thesis using hs_turn_send [OF assms] by blast
next
  case False
  moreover have "p \<noteq> ICCP_NONEXISTENT" using assms(1) by (simp add: hs_side_def)
  ultimately have "p = ICCP_CAPSENT \<or> p = ICCP_CONNECTING \<or> p = ICCP_OPERATIONAL"
    by (cases p) auto
  thus ?thesis using hs_turn_wait [OF assms(1)] by blast
qed

lemma deliver_plain:
  "list_all plain_type ms \<Longrightarrow> deliver ms csm = Some (csm\<lparr> msg_list := msg_list csm @ map to_host ms \<rparr>)"
  by (induction ms arbitrary: csm) (simp_all add: enqueue_plain csm_insert_tail_def)

lemma hs_msgs_plain:
  assumes "hs_msgs rg i j ms"
  shows "list_all plain_type ms"
proof -
  have all2: "list_all2 (\<lambda>P m. P m) ps ms \<Longrightarrow> (\<And>P m. P \<in> set ps \<Longrightarrow> P m \<Longrightarrow> plain_type m) \<Longrightarrow>
      list_all plain_type ms" for ps :: "(mem \<Rightarrow> bool) list"
    by (induction ps ms rule: list_all2_induct) auto
  show ?thesis
    by (rule all2 [OF assms [unfolded hs_msgs_def]])
       (auto simp: is_cap_def is_rg_def dest!: in_set_dropD in_set_takeD)
qed

lemma hs_msgs_append:
  assumes "hs_msgs rg i j ms" "hs_msgs rg j l ms'" "i \<le> j" "j \<le> l"
  shows "hs_msgs rg i l (ms @ ms')"
proof -
  let ?ps = "[is_cap, is_rg rg]"
  have "drop i (take l ?ps) = drop i (take j ?ps) @ drop j (take l ?ps)"
  proof -
    have "take l ?ps = take j ?ps @ drop j (take l ?ps)"
      using assms(4) by (metis append_take_drop_id min.absorb1 take_take)
    hence "drop i (take l ?ps) = drop i (take j ?ps) @ drop (i - length (take j ?ps)) (drop j (take l ?ps))"
      by (metis drop_append)
    moreover have "drop (i - length (take j ?ps)) (drop j (take l ?ps)) = drop j (take l ?ps)"
      using assms(3) by (cases "j \<le> 2") auto
    ultimately show ?thesis by simp
  qed
  thus ?thesis using assms(1,2) by (simp only: hs_msgs_def list_all2_appendI)
qed

lemma hs_deliver:
  assumes side: "hs_side rg q i csm" and out: "hs_msgs rg i j ms" and le: "i \<le> j" "j \<le> 2"
  shows "\<exists>csm'. deliver ms csm = Some csm' \<and> hs_side rg q j csm'"
proof -
  obtain old where old: "msg_list csm = map to_host old" "hs_msgs rg (hs_seen q) i old"
    and i: "hs_seen q \<le> i" using side by (auto simp: hs_side_def)
  have all: "hs_msgs rg (hs_seen q) j (old @ ms)" by (rule hs_msgs_append [OF old(2) out i le(1)])
  let ?csm = "csm\<lparr> msg_list := msg_list csm @ map to_host ms \<rparr>"
  have "\<exists>ms'. msg_list ?csm = map to_host ms' \<and> hs_msgs rg (hs_seen q) j ms'"
    by (rule exI [of _ "old @ ms"]) (simp add: old(1) all)
  hence "hs_side rg q j ?csm"
    unfolding hs_side_def using side [unfolded hs_side_def] le by simp
  thus ?thesis using deliver_plain [OF hs_msgs_plain [OF out]] by blast
qed

section \<open>Refinement and completion of the handshake\<close>

fun hs_run :: "bool list \<Rightarrow> ICCP_CONNECTION_STATE \<times> ICCP_CONNECTION_STATE
    \<Rightarrow> ICCP_CONNECTION_STATE \<times> ICCP_CONNECTION_STATE" where
  "hs_run [] pq = pq"
| "hs_run (left # sched) (p, q) =
     (if left then hs_run sched (hs_next p (hs_sent q), q)
      else hs_run sched (p, hs_next q (hs_sent p)))"

definition hs_link :: "32 word \<Rightarrow> ICCP_CONNECTION_STATE \<times> ICCP_CONNECTION_STATE
    \<Rightarrow> (CSM \<times> System) \<times> (CSM \<times> System) \<Rightarrow> bool" where
  "hs_link rg = (\<lambda>(p, q) (a, b). hs_side rg p (hs_sent q) (fst a) \<and> hs_side rg q (hs_sent p) (fst b))"

lemma hs_sent_mono: "hs_sent p \<le> hs_sent (hs_next p n)" and hs_sent_le: "hs_sent p \<le> 2"
  by (cases p; simp)+

lemma hs_refinement:
  assumes "hs_link rg pq ab" "\<forall>(left, e) \<in> set sched. reliable e"
  shows "\<exists>ab'. run_link sched ab = Some ab' \<and> hs_link rg (hs_run (map fst sched) pq) ab'"
  using assms
proof (induction sched arbitrary: pq ab)
  case Nil
  thus ?case by simp
next
  case (Cons le sched)
  obtain left e where le: "le = (left, e)" by (cases le)
  obtain ca sa cb sb where ab: "ab = ((ca, sa), (cb, sb))" by (metis surj_pair)
  obtain p q where pq: "pq = (p, q)" by (cases pq)
  have sides: "hs_side rg p (hs_sent q) ca" "hs_side rg q (hs_sent p) cb"
    using Cons.prems(1) by (simp_all add: hs_link_def ab pq)
  have rel: "reliable e" "\<forall>(left, e) \<in> set sched. reliable e" using Cons.prems(2) by (auto simp: le)
  show ?case
  proof (cases left)
    case True
    obtain ca' sa' out where turn: "machine_turn e (ca, sa) = Some ((ca', sa'), out)"
      "hs_side rg (hs_next p (hs_sent q)) (hs_sent q) ca'"
      "hs_msgs rg (hs_sent p) (hs_sent (hs_next p (hs_sent q))) out"
      using hs_turn [OF sides(1) rel(1)] by blast
    obtain cb' where del: "deliver out cb = Some cb'"
      "hs_side rg q (hs_sent (hs_next p (hs_sent q))) cb'"
      using hs_deliver [OF sides(2) turn(3) hs_sent_mono hs_sent_le] by blast
    have "hs_link rg (hs_next p (hs_sent q), q) ((ca', sa'), (cb', sb))"
      using turn(2) del(2) by (simp add: hs_link_def)
    from Cons.IH [OF this rel(2)] turn(1) del(1) show ?thesis
      by (simp add: True ab pq le)
  next
    case False
    obtain cb' sb' out where turn: "machine_turn e (cb, sb) = Some ((cb', sb'), out)"
      "hs_side rg (hs_next q (hs_sent p)) (hs_sent p) cb'"
      "hs_msgs rg (hs_sent q) (hs_sent (hs_next q (hs_sent p))) out"
      using hs_turn [OF sides(2) rel(1)] by blast
    obtain ca' where del: "deliver out ca = Some ca'"
      "hs_side rg p (hs_sent (hs_next q (hs_sent p))) ca'"
      using hs_deliver [OF sides(1) turn(3) hs_sent_mono hs_sent_le] by blast
    have "hs_link rg (p, hs_next q (hs_sent p)) ((ca', sa), (cb', sb'))"
      using turn(2) del(2) by (simp add: hs_link_def)
    from Cons.IH [OF this rel(2)] turn(1) del(1) show ?thesis
      by (simp add: False ab pq le)
  qed
qed

fun hs_level :: "ICCP_CONNECTION_STATE \<Rightarrow> nat" where
  "hs_level ICCP_NONEXISTENT = 0"
| "hs_level ICCP_INITIALIZED = 1"
| "hs_level ICCP_CAPSENT = 2"
| "hs_level ICCP_CAPREC = 3"
| "hs_level ICCP_CONNECTING = 4"
| "hs_level ICCP_OPERATIONAL = 5"

lemma hs_level_next:
  "hs_level p \<le> hs_level (hs_next p n)"
  "1 \<le> r \<Longrightarrow> r < 5 \<Longrightarrow> r \<le> hs_level p \<Longrightarrow> r \<le> hs_level q \<Longrightarrow> r + 1 \<le> hs_level (hs_next p (hs_sent q))"
  by (cases p; simp) (cases p; cases q; simp)

lemma hs_run_mono:
  "hs_run sched (p, q) = (p', q') \<Longrightarrow> hs_level p \<le> hs_level p' \<and> hs_level q \<le> hs_level q'"
proof (induction sched arbitrary: p q)
  case (Cons left sched)
  have "hs_level p \<le> hs_level (hs_next p (hs_sent q))" "hs_level q \<le> hs_level (hs_next q (hs_sent p))"
    by (rule hs_level_next(1))+
  thus ?case using Cons.IH [of "hs_next p (hs_sent q)" q] Cons.IH [of p "hs_next q (hs_sent p)"] Cons.prems
    by (cases left) auto
qed simp

text \<open>A round in which both machines take a turn takes both one level further.\<close>

lemma hs_run_left:
  assumes "hs_run sched (p, q) = (p', q')" "True \<in> set sched"
    "1 \<le> r" "r < 5" "r \<le> hs_level p" "r \<le> hs_level q"
  shows "r + 1 \<le> hs_level p'"
  using assms
proof (induction sched arbitrary: p q)
  case (Cons left sched)
  show ?case
  proof (cases left)
    case True
    have "r + 1 \<le> hs_level (hs_next p (hs_sent q))" by (rule hs_level_next(2)) (use Cons.prems in auto)
    thus ?thesis using hs_run_mono [of sched _ q p' q'] Cons.prems(1) True by fastforce
  next
    case False
    have "r \<le> hs_level (hs_next q (hs_sent p))" using Cons.prems(6) hs_level_next(1) order_trans by blast
    thus ?thesis using Cons.IH [of p "hs_next q (hs_sent p)"] Cons.prems False by simp
  qed
qed simp

lemma hs_run_right:
  assumes "hs_run sched (p, q) = (p', q')" "False \<in> set sched"
    "1 \<le> r" "r < 5" "r \<le> hs_level p" "r \<le> hs_level q"
  shows "r + 1 \<le> hs_level q'"
  using assms
proof (induction sched arbitrary: p q)
  case (Cons left sched)
  show ?case
  proof (cases left)
    case False
    have "r + 1 \<le> hs_level (hs_next q (hs_sent p))" by (rule hs_level_next(2)) (use Cons.prems in auto)
    thus ?thesis using hs_run_mono [of sched p _ p' q'] Cons.prems(1) False by fastforce
  next
    case True
    have "r \<le> hs_level (hs_next p (hs_sent q))" using Cons.prems(5) hs_level_next(1) order_trans by blast
    thus ?thesis using Cons.IH [of "hs_next p (hs_sent q)" q] Cons.prems True by simp
  qed
qed simp

lemma hs_run_append: "hs_run (s @ t) pq = hs_run t (hs_run s pq)"
  by (induction s pq rule: hs_run.induct) simp_all

definition fair_round :: "bool list \<Rightarrow> bool" where
  "fair_round s \<longleftrightarrow> True \<in> set s \<and> False \<in> set s"

lemma hs_run_rounds:
  assumes "list_all fair_round rs" "1 \<le> r" "r \<le> hs_level p" "r \<le> hs_level q"
    "hs_run (concat rs) (p, q) = (p', q')"
  shows "min 5 (r + length rs) \<le> hs_level p' \<and> min 5 (r + length rs) \<le> hs_level q'"
  using assms
proof (induction rs arbitrary: r p q)
  case (Cons s rs)
  obtain p1 q1 where one: "hs_run s (p, q) = (p1, q1)" by (cases "hs_run s (p, q)")
  have tail: "hs_run (concat rs) (p1, q1) = (p', q')" using Cons.prems(5) by (simp add: hs_run_append one)
  show ?case
  proof (cases "r < 5")
    case True
    have "r + 1 \<le> hs_level p1" "r + 1 \<le> hs_level q1"
      using hs_run_left [OF one _ Cons.prems(2) True Cons.prems(3,4)]
        hs_run_right [OF one _ Cons.prems(2) True Cons.prems(3,4)] Cons.prems(1)
      by (auto simp: fair_round_def)
    thus ?thesis using Cons.IH [of "r + 1" p1 q1] Cons.prems(1) tail by simp
  next
    case False
    thus ?thesis using hs_run_mono [OF Cons.prems(5)] Cons.prems(3,4) by simp
  qed
qed (auto simp: min_def)

lemma hs_level_top: "5 \<le> hs_level p \<Longrightarrow> p = ICCP_OPERATIONAL"
  by (cases p) simp_all


text \<open>A machine that has just entered \<open>ICCP_INITIALIZED\<close> after the session came up.\<close>

definition session_started :: "32 word \<Rightarrow> CSM \<Rightarrow> bool" where
  "session_started rg csm \<longleftrightarrow>
     current_state csm = ICCP_INITIALIZED \<and> sock_fd csm > 0 \<and> msg_list csm = [] \<and>
     icc_rg_id (iccp_info csm) = rg \<and> status_code (iccp_info csm) = 0 \<and>
     sender_capability_flag (iccp_info csm) \<and> \<not> peer_capability_flag (iccp_info csm) \<and>
     \<not> peer_rg_connect_flag (iccp_info csm) \<and> app_current_state (app_csm csm) = APP_NONEXISTENT"

lemma session_started_side: "session_started rg csm \<Longrightarrow> hs_side rg ICCP_INITIALIZED 0 csm"
  by (simp add: session_started_def hs_side_def)

definition operational :: "CSM \<Rightarrow> bool" where
  "operational csm \<longleftrightarrow> current_state csm = ICCP_OPERATIONAL \<and>
     app_current_state (app_csm csm) = APP_OPERATIONAL \<and> msg_list csm = []"

text \<open>
  C2.  Two switches of the same redundancy group whose sessions have just come up both reach
  ICCP_OPERATIONAL, with the application operational and no message left over, under every schedule
  of the two main loops in which each side takes a turn in each of at least four rounds. Every
  message that one side writes is read by the other.
\<close>

theorem handshake_completes:
  assumes "session_started rg (fst a)" "session_started rg (fst b)"
    and "\<forall>(left, e) \<in> set (concat rounds). reliable e"
    and "list_all (\<lambda>s. fair_round (map fst s)) rounds" "4 \<le> length rounds"
  shows "\<exists>a' b'. run_link (concat rounds) (a, b) = Some (a', b') \<and>
           operational (fst a') \<and> operational (fst b')"
proof -
  let ?start = "(ICCP_INITIALIZED, ICCP_INITIALIZED)"
  have "hs_link rg ?start (a, b)"
    using assms(1,2) by (simp add: hs_link_def session_started_side)
  from hs_refinement [OF this assms(3)] obtain a' b' where
    run: "run_link (concat rounds) (a, b) = Some (a', b')"
    and link: "hs_link rg (hs_run (map fst (concat rounds)) ?start) (a', b')" by auto
  obtain p q where pq: "hs_run (map fst (concat rounds)) ?start = (p, q)" by fastforce
  have "min 5 (1 + length (map (map fst) rounds)) \<le> hs_level p \<and>
        min 5 (1 + length (map (map fst) rounds)) \<le> hs_level q"
    by (rule hs_run_rounds [of "map (map fst) rounds" 1 ICCP_INITIALIZED ICCP_INITIALIZED])
       (use assms(4) pq in \<open>simp_all add: list.pred_map comp_def map_concat\<close>)
  hence "p = ICCP_OPERATIONAL" "q = ICCP_OPERATIONAL"
    using assms(5) by (auto intro!: hs_level_top simp: min_def split: if_splits)
  hence "operational (fst a') \<and> operational (fst b')"
    using link pq by (auto simp: hs_link_def hs_side_def operational_def)
  thus ?thesis using run by blast
qed

definition sample_started :: CSM where
  "sample_started = CSM_zero\<lparr> sock_fd := 9, current_state := ICCP_INITIALIZED,
     iccp_info := IccpInfo_zero\<lparr> icc_rg_id := 7, sender_capability_flag := True \<rparr>\<rparr>"

lemma sample_started_ok: "session_started 7 sample_started"
  by (simp add: sample_started_def session_started_def CSM_zero_def IccpInfo_zero_def AppCSM_zero_def)

lemma sample_reliable: "reliable sample_csm_env"
  by (simp add: sample_csm_env_def reliable_def)

theorem handshake_completes_witness:
  "\<exists>a' b'.
     run_link (concat (replicate 4 [(True, sample_csm_env), (False, sample_csm_env)]))
       ((sample_started, sample_system), (sample_started, sample_system)) = Some (a', b') \<and>
     operational (fst a') \<and> operational (fst b')"
  by (rule handshake_completes [of 7])
     (auto simp: sample_started_ok sample_reliable fair_round_def list_all_iff)

text \<open>
  C3.  Refinement. Under any schedule the two machines, with their message buffers, flags, queues
  and logs, follow the abstract handshake hs_run on pairs of connection states: no turn faults, and
  after the schedule each machine is in the state of the abstract one, with the flags that state
  implies and exactly the messages of the peer that it has not read yet in its queue.
\<close>

theorem handshake_refines_protocol:
  assumes "session_started rg (fst a)" "session_started rg (fst b)"
    and "\<forall>(left, e) \<in> set sched. reliable e"
  shows "\<exists>ab'. run_link sched (a, b) = Some ab' \<and>
           hs_link rg (hs_run (map fst sched) (ICCP_INITIALIZED, ICCP_INITIALIZED)) ab'"
  using hs_refinement [of rg "(ICCP_INITIALIZED, ICCP_INITIALIZED)" "(a, b)" sched] assms
  by (simp add: hs_link_def session_started_side)

theorem handshake_refines_protocol_witness:
  "\<exists>ab'. run_link [(True, sample_csm_env), (False, sample_csm_env), (True, sample_csm_env)]
       ((sample_started, sample_system), (sample_started, sample_system)) = Some ab' \<and>
     hs_link 7 (hs_run [True, False, True] (ICCP_INITIALIZED, ICCP_INITIALIZED)) ab'"
  using handshake_refines_protocol [of 7 "(sample_started, sample_system)" "(sample_started, sample_system)"
      "[(True, sample_csm_env), (False, sample_csm_env), (True, sample_csm_env)]"]
  by (simp add: sample_started_ok sample_reliable)

end
