(* ===== verification/Iccp_Cli.thy ===== *)
theory Iccp_Cli
  imports Iccp_Sched
begin

text \<open>
  Configuration of the inter-chassis daemon (\<open>iccp_cli.c\<close>, \<open>iccp_cmd.c\<close> and the binding of
  interfaces in \<open>app_csm.c\<close>).  The state is the list of machines \<open>csm_list\<close> and \<open>System\<close>.  The
  result \<open>None\<close> is a store outside a fixed-size array, or a string without a terminator in it.
\<close>

section \<open>Looking machines up\<close>

fun system_get_csm_by_mlacp_id :: "CSM list \<Rightarrow> int \<Rightarrow> nat option" where
  "system_get_csm_by_mlacp_id [] i = None"
| "system_get_csm_by_mlacp_id (c # cs) i =
     (if mlacp_id (MLACP c) = i then Some 0 else map_option Suc (system_get_csm_by_mlacp_id cs i))"

text \<open>\<open>malloc\<close> may fail; a new machine goes to the head of the list.\<close>

definition system_create_csm ::
    "csm_env \<Rightarrow> bool \<Rightarrow> CSM list \<Rightarrow> System \<Rightarrow> bool \<times> CSM list \<times> System" where
  "system_create_csm e malloc_ok csms sys =
     (if \<not> malloc_ok then (False, csms, sys)
      else let (csm, sys) = iccp_csm_init e CSM_zero sys in (True, csm # csms, sys))"

definition set_mc_lag_id :: "CSM \<Rightarrow> 16 word \<Rightarrow> CSM" where
  "set_mc_lag_id csm mid =
     upd_mlacp (\<lambda>m. m\<lparr> mlacp_id := uint mid \<rparr>)
       (upd_info (\<lambda>i. i\<lparr> icc_rg_id := ucast mid \<rparr>) (csm\<lparr> mlag_id := uint mid \<rparr>))"

definition set_mc_lag_by_id ::
    "csm_env \<Rightarrow> bool \<Rightarrow> 16 word \<Rightarrow> CSM list \<Rightarrow> System \<Rightarrow> int \<times> CSM list \<times> System" where
  "set_mc_lag_by_id e malloc_ok mid csms sys =
     (case system_get_csm_by_mlacp_id csms (uint mid) of
        Some k \<Rightarrow> (0, csms, sys)
      | None \<Rightarrow>
          let (ok, csms, sys) = system_create_csm e malloc_ok csms sys
          in if \<not> ok then (-1, csms, sys)
             else (0, (case csms of [] \<Rightarrow> [] | c # cs \<Rightarrow> set_mc_lag_id c mid # cs), sys))"

text \<open>\<open>unset_mc_lag_by_id\<close> with \<open>unset_mc_lag_id\<close>: the machine leaves the list.\<close>

definition remove_nth :: "nat \<Rightarrow> 'a list \<Rightarrow> 'a list" where
  "remove_nth k xs = take k xs @ drop (Suc k) xs"

definition unset_mc_lag_by_id ::
    "csm_env \<Rightarrow> 16 word \<Rightarrow> CSM list \<Rightarrow> System \<Rightarrow> int \<times> CSM list \<times> System" where
  "unset_mc_lag_by_id e mid csms sys =
     (case system_get_csm_by_mlacp_id csms (uint mid) of
        None \<Rightarrow> (-1, csms, sys)
      | Some k \<Rightarrow>
          (0, remove_nth k csms,
           iccp_csm_finalize e (csms ! k) (emit [Del_iccp_info (mlag_id (csms ! k))] sys)))"

section \<open>Addresses and timers\<close>

abbreviation (input) INET_ADDRSTRLEN :: nat where "INET_ADDRSTRLEN \<equiv> 16"
abbreviation (input) IFNAMSIZ :: nat where "IFNAMSIZ \<equiv> 16"
abbreviation (input) MAX_L_PORT_NAME :: nat where "MAX_L_PORT_NAME \<equiv> 20"

definition bytes_of :: "string \<Rightarrow> mem" where
  "bytes_of s = map of_char s"

definition set_local_address ::
    "csm_env \<Rightarrow> int \<Rightarrow> string \<Rightarrow> CSM list \<Rightarrow> System \<Rightarrow> (int \<times> CSM list \<times> System) option" where
  "set_local_address e mid addr csms sys =
     (case system_get_csm_by_mlacp_id csms mid of
        None \<Rightarrow> Some (-1, csms, sys)
      | Some k \<Rightarrow>
          if sender_ip (csms ! k) = addr \<and> addr \<noteq> [] then Some (0, csms, sys)
          else
            let (csm, sys) = (if sender_ip (csms ! k) \<noteq> []
                              then scheduler_session_disconnect_handler e (csms ! k) sys
                              else (csms ! k, sys))
            in if length addr \<ge> INET_ADDRSTRLEN then None
               else Some (0, csms[k := upd_info (\<lambda>i. i\<lparr> sender_name := bytes_of addr \<rparr>)
                                        (csm\<lparr> sender_ip := addr \<rparr>)], sys))"

definition unset_local_address ::
    "csm_env \<Rightarrow> int \<Rightarrow> CSM list \<Rightarrow> System \<Rightarrow> int \<times> CSM list \<times> System" where
  "unset_local_address e mid csms sys =
     (case system_get_csm_by_mlacp_id csms mid of
        None \<Rightarrow> (-1, csms, sys)
      | Some k \<Rightarrow>
          let csm = upd_info (\<lambda>i. i\<lparr> sender_name := [] \<rparr>) ((csms ! k)\<lparr> sender_ip := [] \<rparr>);
              (csm, sys) = scheduler_session_disconnect_handler e csm sys
          in (0, csms[k := csm], sys))"

definition set_peer_address ::
    "csm_env \<Rightarrow> int \<Rightarrow> string \<Rightarrow> CSM list \<Rightarrow> System \<Rightarrow> (int \<times> CSM list \<times> System) option" where
  "set_peer_address e mid addr csms sys =
     (case system_get_csm_by_mlacp_id csms mid of
        None \<Rightarrow> Some (-1, csms, sys)
      | Some k \<Rightarrow>
          if peer_ip (csms ! k) = addr \<and> addr \<noteq> [] then Some (0, csms, sys)
          else
            let (csm, sys) = (if peer_ip (csms ! k) \<noteq> []
                              then scheduler_session_disconnect_handler e (csms ! k) sys
                              else (csms ! k, sys))
            in if length addr \<ge> INET_ADDRSTRLEN then None
               else Some (0, csms[k := csm\<lparr> peer_ip := addr \<rparr>], sys))"

definition unset_peer_address ::
    "csm_env \<Rightarrow> int \<Rightarrow> CSM list \<Rightarrow> System \<Rightarrow> int \<times> CSM list \<times> System" where
  "unset_peer_address e mid csms sys =
     (case system_get_csm_by_mlacp_id csms mid of
        None \<Rightarrow> (-1, csms, sys)
      | Some k \<Rightarrow>
          let (csm, sys) = scheduler_session_disconnect_handler e ((csms ! k)\<lparr> peer_ip := [] \<rparr>) sys
          in (0, csms[k := csm], sys))"

definition set_keepalive_time :: "int \<Rightarrow> int \<Rightarrow> CSM list \<Rightarrow> int \<times> CSM list" where
  "set_keepalive_time mid t csms =
     (case system_get_csm_by_mlacp_id csms mid of
        None \<Rightarrow> (-1, csms)
      | Some k \<Rightarrow>
          (0, if keepalive_time (csms ! k) \<noteq> t
              then csms[k := (csms ! k)\<lparr> keepalive_time := t, heartbeat_send_time := 0 \<rparr>]
              else csms))"

definition set_session_timeout :: "int \<Rightarrow> int \<Rightarrow> CSM list \<Rightarrow> int \<times> CSM list" where
  "set_session_timeout mid t csms =
     (case system_get_csm_by_mlacp_id csms mid of
        None \<Rightarrow> (-1, csms)
      | Some k \<Rightarrow> (0, csms[k := (csms ! k)\<lparr> session_timeout := t \<rparr>]))"

section \<open>The peer link\<close>

text \<open>
  \<open>memset(csm->peer_itf_name, 0, MAX_L_PORT_NAME)\<close> clears 20 bytes of an array of 16; the four
  bytes behind it are the lower half of \<open>peer_link_learning_retry_time\<close>.
\<close>

definition clear_peer_itf_name :: "CSM \<Rightarrow> CSM" where
  "clear_peer_itf_name csm =
     csm\<lparr> peer_itf_name := [],
          peer_link_learning_retry_time :=
            peer_link_learning_retry_time csm - peer_link_learning_retry_time csm mod 2 ^ 32 \<rparr>"

definition peer_link_prefix :: "string \<Rightarrow> bool" where
  "peer_link_prefix ifname \<longleftrightarrow>
     take 8 ifname = ''Ethernet'' \<or> take 11 ifname = ''PortChannel'' \<or> take 5 ifname = ''VTTNL''"

definition set_peer_link ::
    "csm_env \<Rightarrow> int \<Rightarrow> string \<Rightarrow> CSM list \<Rightarrow> System \<Rightarrow> (int \<times> CSM list \<times> System) option" where
  "set_peer_link e mid ifname csms sys =
     (if \<not> peer_link_prefix ifname then Some (-1, csms, sys)
      else case system_get_csm_by_mlacp_id csms mid of
        None \<Rightarrow> Some (-1, csms, sys)
      | Some k \<Rightarrow>
          if length ifname > MAX_L_PORT_NAME then Some (-1, csms, sys)
          else if peer_itf_name (csms ! k) = ifname then Some (0, csms, sys)
          else
            let (csm, sys) =
                  (if peer_itf_name (csms ! k) \<noteq> [] then
                     let (csm, sys) = scheduler_session_disconnect_handler e (csms ! k) sys
                     in case peer_link_if csm of
                          None \<Rightarrow> (csm, sys)
                        | Some n \<Rightarrow> (csm\<lparr> peer_link_if := None \<rparr>, emit [Mark_peer_link n False] sys)
                   else (csms ! k, sys));
                csm = clear_peer_itf_name csm
            in if length ifname \<ge> IFNAMSIZ then None
               else
                 let csm = csm\<lparr> peer_itf_name := ifname \<rparr>;
                     (csm, sys) =
                       (if if_exists e ifname then
                          let csm = upd_mlacp (\<lambda>m. m\<lparr> system_config_changed := True \<rparr>)
                                      (csm\<lparr> peer_link_if := Some ifname \<rparr>)
                          in set_peerlink_learn_kernel e csm 0 (emit [Mark_peer_link ifname True] sys)
                        else (csm, sys));
                     (csm, sys) = scheduler_session_disconnect_handler e csm sys
                 in Some (0, csms[k := csm], sys))"

definition unset_peer_link ::
    "csm_env \<Rightarrow> int \<Rightarrow> CSM list \<Rightarrow> System \<Rightarrow> int \<times> CSM list \<times> System" where
  "unset_peer_link e mid csms sys =
     (case system_get_csm_by_mlacp_id csms mid of
        None \<Rightarrow> (-1, csms, sys)
      | Some k \<Rightarrow>
          let (csm, sys) =
                (if mlacp_current_state (MLACP (csms ! k)) = MLACP_STATE_EXCHANGE then
                   case peer_link_if (csms ! k) of
                     None \<Rightarrow> (csms ! k, sys)
                   | Some n \<Rightarrow>
                       set_peerlink_learn_kernel e (csms ! k) 1 (emit [Peerlink_port_learn n True] sys)
                 else (csms ! k, sys));
              (csm, sys) = scheduler_session_disconnect_handler e csm sys;
              csm = clear_peer_itf_name csm;
              (csm, sys) =
                (case peer_link_if csm of
                   None \<Rightarrow> (csm, sys)
                 | Some n \<Rightarrow> (upd_mlacp (\<lambda>m. m\<lparr> system_config_changed := True \<rparr>)
                              (csm\<lparr> peer_link_if := None \<rparr>), emit [Mark_peer_link n False] sys))
          in (0, csms[k := csm], sys))"

section \<open>Binding interfaces\<close>

text \<open>
  \<open>lif->csm\<close> is the machine whose \<open>lif_list\<close> holds the interface.  \<open>tbl\<close> is the table of all
  interfaces, in which \<open>local_if_find_by_name\<close> and \<open>local_if_find_by_po_id\<close> search.
\<close>

definition bound_to :: "string \<Rightarrow> CSM \<Rightarrow> bool" where
  "bound_to n csm \<longleftrightarrow> n \<in> lif_name ` set (lif_list (MLACP csm))"

definition insert_lif :: "LocalInterface \<Rightarrow> CSM \<Rightarrow> CSM" where
  "insert_lif lif = upd_mlacp (\<lambda>m. m\<lparr> lif_list := lif # lif_list m \<rparr>)"

definition mlacp_bind_local_if ::
    "LocalInterface list \<Rightarrow> nat \<Rightarrow> LocalInterface \<Rightarrow> CSM list \<Rightarrow> System \<Rightarrow> int \<times> CSM list \<times> System" where
  "mlacp_bind_local_if tbl k lif csms sys =
     (if bound_to (lif_name lif) (csms ! k) then (0, csms, sys)
      else
        let csm = upd_mlacp (\<lambda>m. m\<lparr> lif_purge_list :=
                    filter (\<lambda>l. lif_name l \<noteq> lif_name lif) (lif_purge_list m) \<rparr>) (csms ! k);
            csms = map (\<lambda>c. if bound_to (lif_name lif) c then mlacp_unbind_local_if lif c else c)
                     (csms[k := csm]);
            csms = csms[k := insert_lif lif (csms ! k)]
        in if lif_type lif = IF_T_PORT_CHANNEL then (0, csms, sys)
           else
             case find (\<lambda>l. lif_type l = IF_T_PORT_CHANNEL \<and> lif_po_id l = lif_po_id lif)
                    (lif_list (MLACP (csms ! k))) of
               Some po \<Rightarrow> (0, csms, emit [Update_ipmac (lif_name po)] sys)
             | None \<Rightarrow>
                 (case find (\<lambda>l. lif_type l = IF_T_PORT_CHANNEL \<and> lif_po_id l = lif_po_id lif) tbl of
                    None \<Rightarrow> (-1, csms, sys)
                  | Some po \<Rightarrow> (0, csms[k := insert_lif po (csms ! k)], sys)))"

definition mlacp_bind_port_channel_to_csm ::
    "LocalInterface list \<Rightarrow> nat \<Rightarrow> string \<Rightarrow> CSM list \<Rightarrow> System \<Rightarrow> CSM list \<times> System" where
  "mlacp_bind_port_channel_to_csm tbl k ifname csms sys =
     (case find (\<lambda>l. lif_name l = ifname) tbl of
        None \<Rightarrow> (csms, sys)
      | Some lif \<Rightarrow>
          let (rc, csms, sys) = mlacp_bind_local_if tbl k lif csms sys
          in (csms, emit [Get_members ifname, Mlag_link_add ifname] sys))"

definition iccp_cli_attach_mclag_domain_to_port_channel ::
    "LocalInterface list \<Rightarrow> bool \<Rightarrow> int \<Rightarrow> string \<Rightarrow> CSM list \<Rightarrow> System \<Rightarrow> int \<times> CSM list \<times> System" where
  "iccp_cli_attach_mclag_domain_to_port_channel tbl malloc_ok domain ifname csms sys =
     (if take 11 ifname \<noteq> ''PortChannel'' then (-1, csms, sys)
      else case system_get_csm_by_mlacp_id csms domain of
        None \<Rightarrow> (-1, csms, sys)
      | Some k \<Rightarrow>
          let (csms, sys) =
                (if find (\<lambda>l. lif_name l = ifname) tbl \<noteq> None
                 then mlacp_bind_port_channel_to_csm tbl k ifname csms sys else (csms, sys))
          in if ifname \<in> set (if_bind_list (csms ! k)) then (0, csms, sys)
             else if \<not> malloc_ok then (-1, csms, sys)
             else (0, csms[k := (csms ! k)\<lparr> if_bind_list :=
                            take (MAX_L_PORT_NAME - 1) ifname # if_bind_list (csms ! k) \<rparr>], sys))"

section \<open>Hardware addresses\<close>

definition hex_digit :: "char \<Rightarrow> byte option" where
  "hex_digit ch =
     (let v = (of_char ch :: nat)
      in if 48 \<le> v \<and> v \<le> 57 then Some (of_nat (v - 48))
         else if 65 \<le> v \<and> v \<le> 70 then Some (of_nat (v - 65 + 10))
         else if 97 \<le> v \<and> v \<le> 102 then Some (of_nat (v - 97 + 10))
         else None)"

text \<open>
  The loop writes octet by octet into the caller's array: when it stops at a character that is no
  hexadecimal digit, the octets before it have been replaced, and the one it stops in holds the
  digit read so far.
\<close>

function parse_octets :: "string \<Rightarrow> nat \<Rightarrow> mem \<Rightarrow> int \<times> mem" where
  "parse_octets str i bin =
     (if i \<ge> 6 then (0, bin)
      else case hex_digit (str ! (i * 3)) of
        None \<Rightarrow> (-1, bin)
      | Some l \<Rightarrow>
          let bin = bin[i := push_bit 4 l]
          in case hex_digit (str ! (i * 3 + 1)) of
               None \<Rightarrow> (-1, bin)
             | Some r \<Rightarrow> parse_octets str (Suc i) (bin[i := push_bit 4 l OR r]))"
  by pat_completeness auto
termination
  by (relation "measure (\<lambda>(str, i, bin). 6 - i)") auto

declare parse_octets.simps [simp del]

definition parseMacString :: "string \<Rightarrow> mem \<Rightarrow> int \<times> mem" where
  "parseMacString str bin =
     (if length str \<noteq> 17 then (-1, bin)
      else if \<not> (str ! 2 = str ! 5 \<and> str ! 5 = str ! 8 \<and> str ! 8 = str ! 11 \<and> str ! 11 = str ! 14)
      then (-1, bin)
      else if str ! 2 \<noteq> CHR '':'' \<and> str ! 2 \<noteq> CHR ''-'' then (-1, bin)
      else parse_octets str 0 bin)"

definition set_local_system_id :: "string \<Rightarrow> CSM list \<Rightarrow> CSM list" where
  "set_local_system_id mac =
     map (upd_mlacp (\<lambda>m. m\<lparr> system_id := snd (parseMacString mac (system_id m)) \<rparr>))"

definition unset_local_system_id :: "CSM list \<Rightarrow> CSM list" where
  "unset_local_system_id = map (upd_mlacp (\<lambda>m. m\<lparr> system_id := replicate 6 0 \<rparr>))"

section \<open>Reading a hardware address back\<close>

definition hex_char :: "nat \<Rightarrow> char" where
  "hex_char n = (if n < 10 then char_of (48 + n) else char_of (87 + n))"

fun mac_octets :: "char \<Rightarrow> mem \<Rightarrow> string" where
  "mac_octets sep [] = []"
| "mac_octets sep [b] = [hex_char (unat b div 16), hex_char (unat b mod 16)]"
| "mac_octets sep (b # bs) =
     hex_char (unat b div 16) # hex_char (unat b mod 16) # sep # mac_octets sep bs"

lemma hex_digit_char: "n < 16 \<Longrightarrow> hex_digit (hex_char n) = Some (of_nat n)"
  by (auto simp: hex_digit_def hex_char_def)

lemma unat_byte_div: "unat (b :: byte) div 16 < 16"
proof -
  have "unat b < 2 ^ LENGTH(8)" by (rule unsigned_less)
  thus ?thesis by simp
qed

lemma nibbles: "push_bit 4 (of_nat (unat b div 16)) OR of_nat (unat b mod 16) = (b :: byte)"
proof -
  have "of_nat (unat b div 16) = drop_bit 4 b" "of_nat (unat b mod 16) = take_bit 4 b"
    by (simp_all add: drop_bit_eq_div take_bit_eq_mod word_arith_nat_div word_arith_nat_mod)
  moreover have "push_bit 4 (drop_bit 4 b) OR take_bit 4 b = b"
    by (rule bit_word_eqI) (auto simp: bit_simps)
  ultimately show ?thesis by simp
qed

lemma mac_six:
  assumes "length bs = 6"
  obtains a b c d e f where "bs = [a, b, c, d, e, f]"
  using assms by (auto simp: length_Suc_conv numeral_eq_Suc)

text \<open>
  Reading back. The text of a hardware address, six octets of two hexadecimal digits with
  colons or with hyphens between them, is read by parseMacString as those six octets, whatever the
  array held before.
\<close>

theorem mac_string_round_trip:
  assumes "length bs = 6" "length bin = 6" "sep = CHR '':'' \<or> sep = CHR ''-''"
  shows "parseMacString (mac_octets sep bs) bin = (0, bs)"
proof -
  obtain a b c d e f where bs: "bs = [a, b, c, d, e, f]" using mac_six [OF assms(1)] .
  obtain a' b' c' d' e' f' where bin: "bin = [a', b', c', d', e', f']" using mac_six [OF assms(2)] .
  have hd: "hex_digit (hex_char (unat x div 16)) = Some (of_nat (unat x div 16))"
    "hex_digit (hex_char (unat x mod 16)) = Some (of_nat (unat x mod 16))" for x :: byte
    by (simp_all add: hex_digit_char unat_byte_div)
  have "parse_octets (mac_octets sep bs) 0 bin = (0, bs)"
    unfolding bs bin by (simp add: parse_octets.simps hd nibbles)
  thus ?thesis using assms(3) by (auto simp: parseMacString_def bs)
qed

theorem mac_string_round_trip_witness:
  "parseMacString (mac_octets CHR '':'' [0, 1, 2, 0xfe, 0x1f, 0xff]) [0, 0, 0, 0, 0, 0] =
     (0, [0, 1, 2, 0xfe, 0x1f, 0xff])"
  by (rule mac_string_round_trip) simp_all

text \<open>
  A malformed address is stored in part. set_local_system_id ignores the result of
  parseMacString, which has by then overwritten the octets in front of the malformed one and half of
  that one.
\<close>

theorem malformed_mac_half_stored:
  "set_local_system_id ''10:20:3x:40:50:60''
      [upd_mlacp (\<lambda>m. m\<lparr> system_id := [1, 2, 3, 4, 5, 6] \<rparr>) CSM_zero] =
     [upd_mlacp (\<lambda>m. m\<lparr> system_id := [0x10, 0x20, 0x30, 4, 5, 6] \<rparr>) CSM_zero]"
  by (simp add: set_local_system_id_def parseMacString_def parse_octets.simps hex_digit_def)

end
