(* ===== verification/Iccp_Session.thy ===== *)
theory Iccp_Session
  imports Iccp_Cli
begin

text \<open>
  Sessions of the inter-chassis daemon over their whole life: what tearing a session down leaves of
  a machine, the invariant of a machine, and the daemon as a transition system over the list of
  machines, whose steps are the calls of the main loop and of the configuration.
\<close>

section \<open>Tearing a session down\<close>

lemma status_reset_keep:
  "iccp_csm_status_reset e csm False sys =
     (csm\<lparr> msg_list := [], sock_fd := -1, connTimePrev := 0, heartbeat_send_time := 0,
        heartbeat_update_time := 0, peer_warm_reboot_time := 0, warm_reboot_disconn_time := 0,
        peer_link_learning_retry_time := 0, peer_link_learning_enable := 0,
        role_type := STP_ROLE_NONE, peer_link_if := None, u_msg_in_count := 0,
        i_msg_in_count := 0, icc_msg_in_count := 0, icc_msg_out_count := 0,
        current_state := ICCP_NONEXISTENT,
        iccp_info := (iccp_info csm)\<lparr> status_code := 0, rejected_msg_id := 0,
          peer_capability_flag := False, peer_rg_connect_flag := False,
          sender_capability_flag := False, sender_rg_connect_flag := False \<rparr>,
        app_csm := (app_csm csm)\<lparr> app_msg_list := [], app_current_state := APP_NONEXISTENT,
          rx_connect_msg_id := 0, tx_connect_msg_id := 0, invalid_msg_id := 0,
          invalid_msg := False, nak_msg := False,
          mlacp := (MLACP csm)\<lparr> sync_req_num := -1, need_to_sync := False,
            mlacp_current_state := MLACP_STATE_INIT, remote_system_id := replicate 6 0,
            mlacp_msg_list := [], arp_msg_list := [], ndisc_msg_list := [], mac_msg_list := [],
            pif_list := [], lif_purge_list := [] \<rparr>\<rparr>,
        msg_log := MsgLog_zero \<rparr>, sys)"
  by (simp add: iccp_csm_status_reset_def app_csm_init_def mlacp_init_def Let_def)

text \<open>What a session leaves behind and what of the configuration survives it.\<close>

definition session_over :: "CSM \<Rightarrow> bool" where
  "session_over csm \<longleftrightarrow>
     current_state csm = ICCP_NONEXISTENT \<and> sock_fd csm = -1 \<and> role_type csm = STP_ROLE_NONE \<and>
     peer_link_if csm = None \<and> msg_list csm = [] \<and> app_msg_list (app_csm csm) = [] \<and>
     mlacp_msg_list (MLACP csm) = [] \<and> app_current_state (app_csm csm) = APP_NONEXISTENT \<and>
     mlacp_current_state (MLACP csm) = MLACP_STATE_INIT \<and> status_code (iccp_info csm) = 0 \<and>
     \<not> peer_capability_flag (iccp_info csm) \<and> \<not> peer_rg_connect_flag (iccp_info csm) \<and>
     \<not> sender_capability_flag (iccp_info csm) \<and> \<not> sender_rg_connect_flag (iccp_info csm) \<and>
     heartbeat_update_time csm = 0 \<and> msg_log csm = MsgLog_zero"

definition same_config :: "CSM \<Rightarrow> CSM \<Rightarrow> bool" where
  "same_config csm csm' \<longleftrightarrow>
     mlag_id csm' = mlag_id csm \<and> peer_ip csm' = peer_ip csm \<and> sender_ip csm' = sender_ip csm \<and>
     peer_itf_name csm' = peer_itf_name csm \<and> keepalive_time csm' = keepalive_time csm \<and>
     session_timeout csm' = session_timeout csm \<and> if_bind_list csm' = if_bind_list csm \<and>
     icc_rg_id (iccp_info csm') = icc_rg_id (iccp_info csm) \<and>
     sender_name (iccp_info csm') = sender_name (iccp_info csm) \<and>
     mlacp_id (MLACP csm') = mlacp_id (MLACP csm) \<and> system_id (MLACP csm') = system_id (MLACP csm) \<and>
     system_config_changed (MLACP csm') = system_config_changed (MLACP csm) \<and>
     map lif_name (lif_list (MLACP csm')) = map lif_name (lif_list (MLACP csm))"

lemma same_config_refl [simp]: "same_config c c"
  by (simp add: same_config_def)

lemma same_config_trans [trans]: "same_config a b \<Longrightarrow> same_config b c \<Longrightarrow> same_config a c"
  by (simp add: same_config_def)

lemma disconn_lif_name: "lif_name (fst (disconn_lif e r l)) = lif_name l"
  by (simp add: disconn_lif_def mlacp_link_enable_traffic_distribution_def Let_def)

lemma peer_disconn_config:
  "same_config csm (fst (mlacp_peer_disconn_handler e csm sys))"
  by (simp add: mlacp_peer_disconn_handler_def same_config_def Let_def disconn_lif_name comp_def)

lemma disconnect_form:
  "fst (scheduler_session_disconnect_handler e csm sys) =
     (fst (iccp_csm_status_reset e
        (upd_mlacp (\<lambda>m. m\<lparr> mlacp_current_state := MLACP_STATE_INIT \<rparr>)
          (fst (mlacp_peer_disconn_handler e
             (if sock_fd csm > 0 then csm\<lparr> sock_fd := -1 \<rparr> else csm)
             (snd (if sock_fd csm > 0
                   then scheduler_csm_socket_cleanup e csm (scheduler_unregister_sock_read_event_callback csm sys)
                   else (csm, scheduler_unregister_sock_read_event_callback csm sys)))))) False sys))
     \<lparr> connTimePrev := now e \<rparr>"
  by (simp add: scheduler_session_disconnect_handler_def scheduler_csm_socket_cleanup_def Let_def
      status_reset_keep split: prod.split)

lemma disconnect_over:
  "session_over (fst (scheduler_session_disconnect_handler e csm sys))"
  "same_config csm (fst (scheduler_session_disconnect_handler e csm sys))"
  "connTimePrev (fst (scheduler_session_disconnect_handler e csm sys)) = now e"
  "warm_reboot_disconn_time (fst (scheduler_session_disconnect_handler e csm sys)) = 0"
proof -
  show "session_over (fst (scheduler_session_disconnect_handler e csm sys))"
    "connTimePrev (fst (scheduler_session_disconnect_handler e csm sys)) = now e"
    "warm_reboot_disconn_time (fst (scheduler_session_disconnect_handler e csm sys)) = 0"
    by (simp_all add: disconnect_form status_reset_keep session_over_def)
  define c0 where "c0 = (if sock_fd csm > 0 then csm\<lparr> sock_fd := -1 \<rparr> else csm)"
  have "same_config csm c0" by (simp add: c0_def same_config_def)
  also have "same_config c0 (fst (mlacp_peer_disconn_handler e c0 s))" for s
    by (rule peer_disconn_config)
  finally have "same_config csm (fst (mlacp_peer_disconn_handler e c0 s))" for s .
  thus "same_config csm (fst (scheduler_session_disconnect_handler e csm sys))"
    by (simp add: disconnect_form status_reset_keep same_config_def c0_def [symmetric])
qed

text \<open>Events are only ever added.\<close>

definition adds :: "(iccp_event \<Rightarrow> bool) \<Rightarrow> System \<Rightarrow> System \<Rightarrow> bool" where
  "adds P sys sys' \<longleftrightarrow> (\<exists>evs. trace sys' = trace sys @ evs \<and> list_all P evs)"

lemma adds_refl [simp]: "adds P sys sys"
  by (simp add: adds_def)

lemma adds_trans: "adds P a b \<Longrightarrow> adds P b c \<Longrightarrow> adds P a c"
  by (auto simp: adds_def)

lemma adds_emit: "list_all P evs \<Longrightarrow> adds P sys (emit evs sys)"
  by (auto simp: adds_def emit_def)

lemma adds_same: "trace sys' = trace sys \<Longrightarrow> adds P sys sys'"
  by (auto simp: adds_def)

definition no_unmark :: "iccp_event \<Rightarrow> bool" where
  "no_unmark ev \<longleftrightarrow> (\<forall>n. ev \<noteq> Mark_peer_link n False)"

lemma disconn_lif_events: "list_all no_unmark (snd (disconn_lif e r l))"
  by (simp add: disconn_lif_def mlacp_link_enable_traffic_distribution_def no_unmark_def Let_def)

lemma peer_disconn_adds: "adds no_unmark sys (snd (mlacp_peer_disconn_handler e csm sys))"
proof -
  have lifs: "list_all no_unmark (concat (map (snd \<circ> disconn_lif e r) ls))" for r ls
    by (induction ls) (simp_all add: disconn_lif_events)
  have "\<exists>evs. trace (snd (mlacp_peer_disconn_handler e csm sys)) = trace sys @ evs \<and> list_all no_unmark evs"
  proof (cases "warmboot_exit sys \<or> peer_warm_reboot_time csm \<noteq> 0")
    case True
    thus ?thesis by (auto simp: mlacp_peer_disconn_handler_def)
  next
    case False
    thus ?thesis using lifs [of "role_type csm" "lif_list (MLACP csm)"]
      by (cases "peer_link_if csm"; cases "role_type csm = STP_ROLE_STANDBY")
         (auto simp: mlacp_peer_disconn_handler_def Let_def emit_def no_unmark_def list_all_iff comp_def)
  qed
  thus ?thesis by (simp add: adds_def)
qed

lemma disconnect_sys:
  "snd (scheduler_session_disconnect_handler e csm sys) =
     snd (mlacp_peer_disconn_handler e
       (if sock_fd csm > 0 then csm\<lparr> sock_fd := -1 \<rparr> else csm)
       (snd (if sock_fd csm > 0
             then scheduler_csm_socket_cleanup e csm (scheduler_unregister_sock_read_event_callback csm sys)
             else (csm, scheduler_unregister_sock_read_event_callback csm sys))))"
  by (simp add: scheduler_session_disconnect_handler_def scheduler_csm_socket_cleanup_def Let_def
      status_reset_keep split: prod.split)

lemma disconnect_adds: "adds no_unmark sys (snd (scheduler_session_disconnect_handler e csm sys))"
proof -
  let ?s1 = "snd (if sock_fd csm > 0
             then scheduler_csm_socket_cleanup e csm (scheduler_unregister_sock_read_event_callback csm sys)
             else (csm, scheduler_unregister_sock_read_event_callback csm sys))"
  have "adds no_unmark sys ?s1"
    by (auto simp: adds_def scheduler_csm_socket_cleanup_def emit_def no_unmark_def Let_def
        scheduler_unregister_sock_read_event_callback_def)
  thus ?thesis unfolding disconnect_sys by (rule adds_trans [OF _ peer_disconn_adds])
qed

lemma learn_kernel_adds: "adds no_unmark sys (snd (set_peerlink_learn_kernel e csm en sys))"
  by (auto simp: set_peerlink_learn_kernel_def emit_def adds_def no_unmark_def Let_def split: option.split)

lemma learn_kernel_config:
  "same_config csm (fst (set_peerlink_learn_kernel e csm en sys))"
  by (simp add: set_peerlink_learn_kernel_def same_config_def Let_def split: option.split)

text \<open>
  Removing the peer link clears its name, but the interface stays marked as a peer link and the
  change of configuration is not announced: the disconnect handler that runs first forgets the
  interface, so the code that would unmark it finds none.
\<close>

theorem unset_peer_link_keeps_mark:
  assumes "system_get_csm_by_mlacp_id csms mid = Some k" "k < length csms"
    and "unset_peer_link e mid csms sys = (rc, csms', sys')"
  shows "peer_itf_name (csms' ! k) = [] \<and> peer_link_if (csms' ! k) = None \<and>
    system_config_changed (MLACP (csms' ! k)) = system_config_changed (MLACP (csms ! k)) \<and>
    (\<exists>evs. trace sys' = trace sys @ evs \<and> (\<forall>n. Mark_peer_link n False \<notin> set evs))"
proof -
  define pre where "pre = (if mlacp_current_state (MLACP (csms ! k)) = MLACP_STATE_EXCHANGE then
                   case peer_link_if (csms ! k) of
                     None \<Rightarrow> (csms ! k, sys)
                   | Some n \<Rightarrow>
                       set_peerlink_learn_kernel e (csms ! k) 1 (emit [Peerlink_port_learn n True] sys)
                 else (csms ! k, sys))"
  obtain c1 s1 where p: "pre = (c1, s1)" by (cases pre)
  obtain c2 s2 where d: "scheduler_session_disconnect_handler e c1 s1 = (c2, s2)"
    by (cases "scheduler_session_disconnect_handler e c1 s1")
  have over: "session_over c2" "same_config c1 c2" "adds no_unmark s1 s2"
    using disconnect_over(1) [of e c1 s1] disconnect_over(2) [of c1 e s1] disconnect_adds [of s1 e c1]
    by (simp_all add: d)
  have ad1: "adds no_unmark sys s1 \<and> same_config (csms ! k) c1"
  proof (cases "mlacp_current_state (MLACP (csms ! k)) = MLACP_STATE_EXCHANGE \<and> peer_link_if (csms ! k) \<noteq> None")
    case True
    then obtain n where n: "peer_link_if (csms ! k) = Some n" by auto
    have "adds no_unmark sys (emit [Peerlink_port_learn n True] sys)"
      by (rule adds_emit) (simp add: no_unmark_def)
    from adds_trans [OF this learn_kernel_adds [of _ e "csms ! k" 1]]
      learn_kernel_config [of "csms ! k" e 1 "emit [Peerlink_port_learn n True] sys"]
    show ?thesis using p True n by (simp add: pre_def)
  next
    case False
    thus ?thesis using p by (auto simp: pre_def split: if_splits option.splits)
  qed
  have res: "csms' = csms[k := clear_peer_itf_name c2]" "sys' = s2"
    using assms(1,3) over(1) p d
    by (auto simp: unset_peer_link_def pre_def [symmetric] session_over_def clear_peer_itf_name_def Let_def)
  have "peer_itf_name (csms' ! k) = []" "peer_link_if (csms' ! k) = None"
    using res assms(2) over(1) by (simp_all add: clear_peer_itf_name_def session_over_def)
  moreover have "system_config_changed (MLACP (csms' ! k)) = system_config_changed (MLACP (csms ! k))"
    using res assms(2) over(2) ad1 by (simp add: clear_peer_itf_name_def same_config_def)
  moreover have "\<exists>evs. trace sys' = trace sys @ evs \<and> (\<forall>n. Mark_peer_link n False \<notin> set evs)"
    using adds_trans [OF conjunct1 [OF ad1] over(3)] res(2)
    by (auto simp: adds_def no_unmark_def list_all_iff)
  ultimately show ?thesis by blast
qed

section \<open>Invariant of a machine\<close>

definition csm_ok :: "CSM \<Rightarrow> bool" where
  "csm_ok csm \<longleftrightarrow>
     (current_state csm \<noteq> ICCP_NONEXISTENT \<longrightarrow> sock_fd csm > 0) \<and>
     app_current_state (app_csm csm) \<in> {APP_NONEXISTENT, APP_OPERATIONAL} \<and>
     (app_current_state (app_csm csm) = APP_OPERATIONAL \<longrightarrow> sock_fd csm > 0) \<and>
     (mlacp_current_state (MLACP csm) \<noteq> MLACP_STATE_INIT \<longrightarrow>
        app_current_state (app_csm csm) = APP_OPERATIONAL) \<and>
     status_code (iccp_info csm) \<in> {0, STATUS_CODE_U_ICCP_RG} \<and> log_ok (msg_log csm) \<and>
     (current_state csm = ICCP_OPERATIONAL \<longrightarrow>
        sender_rg_connect_flag (iccp_info csm) \<and> peer_rg_connect_flag (iccp_info csm))"

text \<open>The fields the invariant speaks about.\<close>

definition ok_view :: "CSM \<Rightarrow> ICCP_CONNECTION_STATE \<times> int \<times> APP_CONNECTION_STATE \<times> MLACP_APP_STATE \<times> IccpInfo \<times> MsgLog" where
  "ok_view csm = (current_state csm, sock_fd csm, app_current_state (app_csm csm),
     mlacp_current_state (MLACP csm), iccp_info csm, msg_log csm)"

lemma csm_ok_view: "ok_view c = ok_view c' \<Longrightarrow> csm_ok c = csm_ok c'"
  by (simp add: ok_view_def csm_ok_def)

lemma session_over_ok: "session_over c \<Longrightarrow> csm_ok c"
  by (simp add: session_over_def csm_ok_def)

lemma disconnect_ok: "csm_ok (fst (scheduler_session_disconnect_handler e csm sys))"
  by (rule session_over_ok) (rule disconnect_over(1))

lemma heartbeat_ok: "csm_ok csm \<Longrightarrow> csm_ok (fst (heartbeat_update e csm sys))"
proof -
  assume ok: "csm_ok csm"
  moreover have "csm_ok (csm\<lparr> heartbeat_update_time := now e \<rparr>) = csm_ok csm"
    by (rule csm_ok_view) (simp add: ok_view_def)
  ultimately show ?thesis by (simp add: heartbeat_update_def heartbeat_check_def disconnect_ok)
qed

lemma app_transit_ok: "csm_ok csm \<Longrightarrow> csm_ok (app_csm_transit csm)"
  by (auto simp: csm_ok_def app_csm_transit_def)

lemma send_view:
  assumes "iccp_csm_send e csm msg sys = (rc, csm', sys')"
  shows "\<exists>l. ok_view csm' = ok_view (csm\<lparr> msg_log := l \<rparr>) \<and> (log_ok (msg_log csm) \<longrightarrow> log_ok l)"
proof (cases "\<exists>buf. msg = Some buf \<and> sock_fd csm > 0 \<and> buf \<noteq> []")
  case True
  then obtain buf where b: "msg = Some buf" "sock_fd csm > 0" "buf \<noteq> []" by blast
  have "ok_view csm' = ok_view (csm\<lparr> msg_log := log_sent (log_entry buf) (msg_log csm) \<rparr>)"
    using assms b by (auto simp: iccp_csm_send_def count_tx_def ok_view_def Let_def split: if_splits)
  thus ?thesis by (intro exI [of _ "log_sent (log_entry buf) (msg_log csm)"]) simp
next
  case False
  hence "csm' = csm" using assms by (cases msg) (auto simp: iccp_csm_send_def split: if_splits)
  thus ?thesis by (intro exI [of _ "msg_log csm"]) simp
qed

lemma send_ok_inv:
  assumes "csm_ok csm" "iccp_csm_send e csm msg sys = (rc, csm', sys')"
  shows "csm_ok csm'"
proof -
  obtain l where "ok_view csm' = ok_view (csm\<lparr> msg_log := l \<rparr>)" "log_ok (msg_log csm) \<longrightarrow> log_ok l"
    using send_view [OF assms(2)] by blast
  thus ?thesis using assms(1) csm_ok_view [of csm' "csm\<lparr> msg_log := l \<rparr>"] by (simp add: csm_ok_def)
qed

text \<open>Interpreting a message changes only \<open>iccp_info\<close> and a counter.\<close>

definition masked :: "CSM \<Rightarrow> CSM" where
  "masked c = c\<lparr> iccp_info := IccpInfo_zero, u_msg_in_count := 0 \<rparr>"

definition only_info :: "CSM \<Rightarrow> CSM \<Rightarrow> bool" where
  "only_info c c' \<longleftrightarrow> masked c' = masked c"

definition legal_status :: "CSM \<Rightarrow> bool" where
  "legal_status c \<longleftrightarrow> status_code (iccp_info c) \<in> {0, STATUS_CODE_U_ICCP_RG}"

lemma only_info_simps [simp]:
  "only_info c c" "only_info c (c\<lparr> iccp_info := i \<rparr>)" "only_info c (c\<lparr> u_msg_in_count := u \<rparr>)"
  by (simp_all add: only_info_def masked_def)

lemma only_info_trans: "only_info a b \<Longrightarrow> only_info b c \<Longrightarrow> only_info a c"
  by (simp add: only_info_def)

lemma only_infoD:
  assumes "only_info c c'"
  shows "current_state c' = current_state c" "sock_fd c' = sock_fd c" "app_csm c' = app_csm c"
    "msg_log c' = msg_log c" "msg_list c' = msg_list c"
proof -
  have m: "masked c' = masked c" using assms by (simp add: only_info_def)
  show "current_state c' = current_state c" using arg_cong [OF m, of current_state] by (simp add: masked_def)
  show "sock_fd c' = sock_fd c" using arg_cong [OF m, of sock_fd] by (simp add: masked_def)
  show "app_csm c' = app_csm c" using arg_cong [OF m, of app_csm] by (simp add: masked_def)
  show "msg_log c' = msg_log c" using arg_cong [OF m, of msg_log] by (simp add: masked_def)
  show "msg_list c' = msg_list c" using arg_cong [OF m, of msg_list] by (simp add: masked_def)
qed

lemma check_id_eq:
  "iccp_csm_check_id_from_msg csm m =
     (case msg_type_field m of
        None \<Rightarrow> None
      | Some ty \<Rightarrow> if ty = MSG_T_CAPABILITY then Some csm else map_option (\<lambda>rg. check_rg rg csm) (rd32be m 12))"
  by (cases "msg_type_field m"; cases "rd32be m 12")
     (simp_all add: iccp_csm_check_id_from_msg_def check_rg_def Let_def)

lemma check_rg_info: "only_info csm (check_rg rg csm)" "legal_status csm \<Longrightarrow> legal_status (check_rg rg csm)"
  by (auto simp: check_rg_def legal_status_def)

lemma check_id_info:
  assumes "iccp_csm_check_id_from_msg csm m = Some csm'"
  shows "only_info csm csm' \<and> (legal_status csm \<longrightarrow> legal_status csm')"
proof -
  have "csm' = csm \<or> (\<exists>rg. csm' = check_rg rg csm)"
    using assms unfolding check_id_eq by (auto split: option.splits if_splits)
  thus ?thesis by (auto simp: check_rg_info)
qed

lemma cap_info:
  assumes "iccp_csm_correspond_from_capability_msg csm m = Some csm'"
  shows "only_info csm csm' \<and> legal_status csm' = legal_status csm"
proof -
  have "csm' = csm \<or> csm' = csm\<lparr> iccp_info := (iccp_info csm)\<lparr> peer_capability_flag := True \<rparr>\<rparr>"
    using assms unfolding iccp_csm_correspond_from_capability_msg_def Option.bind_eq_Some_conv
    by (elim exE conjE) (simp split: if_splits add: Option.bind_eq_Some_conv, blast?)+
  thus ?thesis by (elim disjE) (simp_all add: legal_status_def)
qed

lemma conn_info:
  assumes "iccp_csm_correspond_from_rg_connect_msg csm m = Some csm'"
  shows "only_info csm csm' \<and> legal_status csm' = legal_status csm"
proof -
  have "csm' = csm \<or> csm' = csm\<lparr> iccp_info := (iccp_info csm)\<lparr> peer_rg_connect_flag := True \<rparr>\<rparr>"
    using assms unfolding iccp_csm_correspond_from_rg_connect_msg_def Option.bind_eq_Some_conv
    by (elim exE conjE) (simp split: if_splits add: Option.bind_eq_Some_conv, blast?)+
  thus ?thesis by (elim disjE) (simp_all add: legal_status_def)
qed

lemma disc_info:
  assumes "iccp_csm_correspond_from_rg_disconnect_msg csm m = Some csm'"
  shows "only_info csm csm' \<and> legal_status csm' = legal_status csm"
proof -
  have "csm' = csm \<or> csm' = csm\<lparr> iccp_info := (iccp_info csm)\<lparr> sender_rg_connect_flag := False, peer_rg_connect_flag := False \<rparr>\<rparr>"
    using assms unfolding iccp_csm_correspond_from_rg_disconnect_msg_def Option.bind_eq_Some_conv
    by (elim exE conjE) (simp split: if_splits add: Option.bind_eq_Some_conv, blast?)+
  thus ?thesis by (elim disjE) (simp_all add: legal_status_def)
qed

lemma correspond_info:
  assumes "correspond_opt csm msg sys = Some (csm', sys')"
  shows "only_info csm csm' \<and> (legal_status csm \<longrightarrow> legal_status csm')"
proof (cases msg)
  case None
  thus ?thesis using assms by (simp add: correspond_opt_def)
next
  case (Some m)
  obtain c1 ty where c1: "iccp_csm_check_id_from_msg csm m = Some c1" "msg_type_field m = Some ty"
    using assms Some by (auto simp: correspond_opt_def iccp_csm_correspond_from_msg_def bind_eq_Some_conv)
  have first: "only_info csm c1" "legal_status csm \<longrightarrow> legal_status c1"
    using check_id_info [OF c1(1)] by simp_all
  have "only_info c1 csm' \<and> legal_status csm' = legal_status c1"
    using assms Some c1 cap_info [of c1 m csm'] conn_info [of c1 m csm'] disc_info [of c1 m csm']
    by (auto simp: correspond_opt_def iccp_csm_correspond_from_msg_def bind_eq_Some_conv
        legal_status_def split: if_splits)
  thus ?thesis using first by (blast intro: only_info_trans)
qed

text \<open>The invariant without its last clause, which a transition restores at its end.\<close>

definition ok_base :: "CSM \<Rightarrow> bool" where
  "ok_base csm \<longleftrightarrow>
     (current_state csm \<noteq> ICCP_NONEXISTENT \<longrightarrow> sock_fd csm > 0) \<and>
     app_current_state (app_csm csm) \<in> {APP_NONEXISTENT, APP_OPERATIONAL} \<and>
     (app_current_state (app_csm csm) = APP_OPERATIONAL \<longrightarrow> sock_fd csm > 0) \<and>
     (mlacp_current_state (MLACP csm) \<noteq> MLACP_STATE_INIT \<longrightarrow>
        app_current_state (app_csm csm) = APP_OPERATIONAL) \<and>
     legal_status csm \<and> log_ok (msg_log csm)"

lemma csm_ok_iff: "csm_ok csm \<longleftrightarrow> ok_base csm \<and> (current_state csm = ICCP_OPERATIONAL \<longrightarrow>
     sender_rg_connect_flag (iccp_info csm) \<and> peer_rg_connect_flag (iccp_info csm))"
  by (auto simp: csm_ok_def ok_base_def legal_status_def)

lemma ok_base_view: "ok_view c = ok_view c' \<Longrightarrow> ok_base c = ok_base c'"
  by (simp add: ok_view_def ok_base_def legal_status_def)

lemma ok_base_state:
  "ok_base c \<Longrightarrow> current_state c \<noteq> ICCP_NONEXISTENT \<Longrightarrow> ok_base (c\<lparr> current_state := s \<rparr>)"
  by (simp add: ok_base_def legal_status_def)

lemma correspond_base:
  assumes "correspond_opt c msg sys = Some (c', sys')" "ok_base c"
  shows "ok_base c' \<and> current_state c' = current_state c"
proof -
  have i: "only_info c c'" "legal_status c \<longrightarrow> legal_status c'" using correspond_info [OF assms(1)] by simp_all
  show ?thesis using assms(2) i(2) by (simp add: ok_base_def only_infoD [OF i(1)])
qed

lemma send_state_base:
  assumes "send_state_msg e c sys = (c', sys')" "ok_base c"
  shows "ok_base c' \<and> current_state c' = current_state c \<and> iccp_info c' = iccp_info c"
proof -
  obtain msg s1 where p: "iccp_csm_prepare_iccp_msg c sys = (msg, s1)" by fastforce
  then obtain rc where "iccp_csm_send e c msg s1 = (rc, c', sys')"
    using assms(1) by (cases "iccp_csm_send e c msg s1") (auto simp: send_state_msg_def)
  from send_view [OF this] obtain l where v: "ok_view c' = ok_view (c\<lparr> msg_log := l \<rparr>)"
    "log_ok (msg_log c) \<longrightarrow> log_ok l" by blast
  have "ok_base c' = ok_base (c\<lparr> msg_log := l \<rparr>)" by (rule ok_base_view [OF v(1)])
  thus ?thesis using assms(2) v by (simp add: ok_base_def legal_status_def ok_view_def)
qed

lemma role_view: "ok_view (fst (iccp_csm_stp_role_count e c s)) = ok_view c"
  by (simp add: iccp_csm_stp_role_count_def ok_view_def)

lemma learn_view: "ok_view (fst (set_peerlink_learn_kernel e c en s)) = ok_view c"
  by (simp add: set_peerlink_learn_kernel_def ok_view_def Let_def split: option.split)

lemma check_config_view: "ok_view (fst (snd (scheduler_check_csm_config e c s))) = ok_view c"
proof -
  have "ok_view (c\<lparr> peer_link_if := p \<rparr>) = ok_view c" for p by (simp add: ok_view_def)
  thus ?thesis
    by (simp add: scheduler_check_csm_config_def Let_def case_prod_beta role_view learn_view)
qed

lemma prepare_session_base:
  assumes "scheduler_prepare_session e c s = (c', s')" "ok_base c" "current_state c = ICCP_NONEXISTENT"
  shows "ok_base c' \<and> current_state c' = ICCP_NONEXISTENT"
proof -
  define c0 where "c0 = (if connTimePrev c = 0 then c\<lparr> connTimePrev := now e \<rparr> else c)"
  have v0: "ok_view c0 = ok_view c" by (simp add: c0_def ok_view_def)
  have t: "ok_view (x\<lparr> connTimePrev := t \<rparr>) = ok_view x" for x t by (simp add: ok_view_def)
  obtain ret c1 s1 where k: "scheduler_check_csm_config e c0 s = (ret, c1, s1)" by (metis surj_pair)
  have v1: "ok_view c1 = ok_view c" using check_config_view [of e c0 s] k v0 by simp
  obtain c2 s2 where h: "session_client_conn_handler e c1 s1 = (c2, s2)" by fastforce
  have sock: "sock_fd c0 = sock_fd c" using v0 by (simp add: ok_view_def)
  show ?thesis
  proof (cases "ok_view c' = ok_view c")
    case True
    thus ?thesis using ok_base_view [OF True] assms(2,3) by (simp add: ok_view_def)
  next
    case False
    hence c': "\<not> sock_fd c > 0" "c' = c2\<lparr> connTimePrev := now e \<rparr>"
      using assms(1) v0 v1 k h sock t
      by (auto simp: scheduler_prepare_session_def c0_def [symmetric] Let_def split: if_splits)
    have "\<exists>fd ct. c2 = c1\<lparr> sock_fd := fd, connTimePrev := ct \<rparr> \<or> c2 = c1\<lparr> connTimePrev := ct \<rparr>"
      using h by (auto simp: session_client_conn_handler_def Let_def split: if_splits)
    thus ?thesis using c' v1 assms(2,3)
      by (auto simp: ok_view_def ok_base_def legal_status_def)
  qed
qed

lemma switch_base:
  assumes "transit_switch e c msg sys = Some (c', sys')" "ok_base c"
  shows "ok_base c'" "current_state c \<noteq> ICCP_NONEXISTENT \<Longrightarrow> current_state c' \<noteq> ICCP_NONEXISTENT"
    "current_state c = ICCP_NONEXISTENT \<Longrightarrow> current_state c' \<in> {ICCP_NONEXISTENT, ICCP_INITIALIZED}"
proof -
  have goal: "ok_base c' \<and> (if current_state c = ICCP_NONEXISTENT
      then current_state c' \<in> {ICCP_NONEXISTENT, ICCP_INITIALIZED}
      else current_state c' \<noteq> ICCP_NONEXISTENT)"
  proof (cases "current_state c = ICCP_NONEXISTENT")
    case True
    obtain c1 s1 where p: "scheduler_prepare_session e c sys = (c1, s1)" by fastforce
    have b1: "ok_base c1" "current_state c1 = ICCP_NONEXISTENT"
      using prepare_session_base [OF p assms(2) True] by simp_all
    obtain ret c2 s2 where k: "scheduler_check_csm_config e c1 s1 = (ret, c2, s2)" by (metis surj_pair)
    have v2: "ok_view c2 = ok_view c1" using check_config_view [of e c1 s1] k by simp
    have b2: "ok_base c2" using b1(1) ok_base_view [OF v2] by simp
    have "c' = c1 \<or> sock_fd c1 > 0 \<and> (c' = c2 \<or> c' = c2\<lparr> current_state := ICCP_INITIALIZED \<rparr>)"
      using assms(1) True p k by (auto simp: transit_switch_def Let_def split: if_splits)
    thus ?thesis using True b1 b2 v2 by (auto simp: ok_view_def ok_base_def legal_status_def)
  next
    case False
    obtain c1 s1 where k: "correspond_opt c msg sys = Some (c1, s1)"
      using assms(1) False by (cases "current_state c") (auto simp: transit_switch_def bind_eq_Some_conv)
    have b1: "ok_base c1" "current_state c1 = current_state c" using correspond_base [OF k assms(2)] by simp_all
    obtain c2 s2 where h: "send_state_msg e c1 s1 = (c2, s2)" by fastforce
    have b2: "ok_base c2" "current_state c2 = current_state c"
      using send_state_base [OF h b1(1)] b1(2) by simp_all
    have "\<exists>s x. (x = c1 \<or> x = c2) \<and> s \<noteq> ICCP_NONEXISTENT \<and> (c' = x \<or> c' = x\<lparr> current_state := s \<rparr>)"
      using assms(1) False k h
      by (cases "current_state c") (auto simp: transit_switch_def Let_def split: if_splits)
    thus ?thesis using False b1 b2 ok_base_state by fastforce
  qed
  show "ok_base c'" using goal by simp
  show "current_state c \<noteq> ICCP_NONEXISTENT \<Longrightarrow> current_state c' \<noteq> ICCP_NONEXISTENT" using goal by simp
  show "current_state c = ICCP_NONEXISTENT \<Longrightarrow> current_state c' \<in> {ICCP_NONEXISTENT, ICCP_INITIALIZED}"
    using goal by simp
qed

lemma enter_state_ok: "ok_base c \<Longrightarrow> csm_ok (iccp_csm_enter_state c)"
  by (cases "current_state c") (simp_all add: iccp_csm_enter_state_def csm_ok_iff ok_base_def legal_status_def)

lemma switch_operational_idle:
  assumes "transit_switch e c None sys = Some (c', sys')" "current_state c = ICCP_OPERATIONAL" "csm_ok c"
  shows "c' = c"
  using assms by (auto simp: transit_switch_def correspond_opt_def csm_ok_def)

lemma transit_ok:
  assumes "csm_ok csm" "iccp_csm_transit e csm sys = Some (r, sys')"
  shows "\<exists>csm'. r = Inr csm' \<and> csm_ok csm'"
proof -
  obtain msg c0 where d: "iccp_csm_dequeue_msg csm = (msg, c0)" by fastforce
  have v0: "ok_view c0 = ok_view csm"
    using d by (cases "msg_list csm") (auto simp: iccp_csm_dequeue_msg_def ok_view_def)
  have ok0: "csm_ok c0" and st: "current_state c0 = current_state csm"
    using assms(1) csm_ok_view [OF v0] v0 by (simp_all add: ok_view_def)
  have live: "\<not> (current_state csm \<noteq> ICCP_NONEXISTENT \<and> sock_fd csm \<le> 0)"
    using assms(1) by (auto simp: csm_ok_def)
  then obtain c1 s1 where sw: "transit_switch e c0 msg sys = Some (c1, s1)"
    and r: "r = (if current_state csm \<noteq> current_state c1 \<or> current_state c1 \<noteq> ICCP_NONEXISTENT \<and> msg \<noteq> None
                 then if current_state c1 = ICCP_NONEXISTENT then Inl () else Inr (iccp_csm_enter_state c1)
                 else Inr c1)"
    using assms(2) d by (auto simp: iccp_csm_transit_def bind_eq_Some_conv split: if_splits)
  have b: "ok_base c0" using ok0 by (simp add: csm_ok_iff)
  note base = switch_base [OF sw b]
  show ?thesis
  proof (cases "current_state csm \<noteq> current_state c1 \<or> current_state c1 \<noteq> ICCP_NONEXISTENT \<and> msg \<noteq> None")
    case True
    hence "current_state c1 \<noteq> ICCP_NONEXISTENT" using base(2,3) st by auto
    thus ?thesis using r True enter_state_ok [OF base(1)] by simp
  next
    case False
    have "csm_ok c1"
    proof (cases "current_state c1 = ICCP_OPERATIONAL")
      case True
      hence "msg = None" "current_state c0 = ICCP_OPERATIONAL" using False st by auto
      thus ?thesis using switch_operational_idle [of e c0 sys c1 s1] sw ok0 by simp
    next
      case False
      thus ?thesis using base(1) by (simp add: csm_ok_iff)
    qed
    thus ?thesis using r False by auto
  qed
qed

lemma app_enqueue_cases:
  assumes "app_csm_enqueue_msg m csm = Some x"
  shows "\<exists>m'. x = csm \<or> x = mlacp_enqueue_msg m' csm \<or> x = app_insert_tail m' csm"
proof -
  obtain m1 ty where m1: "swap16 m 16 = Some m1" "msg_type_field m1 = Some ty"
    using assms by (cases "swap16 m 16"; cases "msg_type_field (the (swap16 m 16))")
      (simp_all add: app_csm_enqueue_msg_def)
  have "x = csm \<or> x = mlacp_enqueue_msg m1 csm \<or> x = app_insert_tail m1 csm"
    using assms m1
    by (cases "param_type m1 16"; cases "rd32be m1 24"; cases "log_find (the (rd32be m1 24)) (msg_log csm)")
       (simp_all add: app_csm_enqueue_msg_def split: if_splits)
  thus ?thesis by blast
qed

lemma enqueue_cases:
  assumes "iccp_csm_enqueue_msg m csm = Some x"
  shows "\<exists>m'. x = csm_insert_tail m' csm \<or> app_csm_enqueue_msg m' csm = Some x"
proof -
  obtain m1 ty where m1: "swap16 m 0 = Some m1" "msg_type_field m1 = Some ty"
    using assms by (cases "swap16 m 0"; cases "msg_type_field (the (swap16 m 0))")
      (simp_all add: iccp_csm_enqueue_msg_def)
  have "x = csm_insert_tail m1 csm \<or> app_csm_enqueue_msg m1 csm = Some x"
    using assms m1
    by (cases "rd32be m1 24"; cases "log_find (the (rd32be m1 24)) (msg_log csm)")
       (simp_all add: iccp_csm_enqueue_msg_def split: if_splits)
  thus ?thesis by blast
qed

lemma enqueue_view:
  assumes "iccp_csm_enqueue_msg m csm = Some csm'"
  shows "ok_view csm' = ok_view csm"
proof -
  have "ok_view (csm_insert_tail m' csm) = ok_view csm" "ok_view (mlacp_enqueue_msg m' csm) = ok_view csm"
    "ok_view (app_insert_tail m' csm) = ok_view csm" for m'
    by (simp_all add: ok_view_def csm_insert_tail_def mlacp_enqueue_msg_def app_insert_tail_def)
  thus ?thesis using enqueue_cases [OF assms] app_enqueue_cases by metis
qed

lemma read_ok:
  assumes "csm_ok csm" "scheduler_csm_read_callback e m csm s sys = Ret (rc, csm', s', sys')"
  shows "csm_ok csm'"
proof -
  have d: "csm_ok c" if "scheduler_session_disconnect_handler e csm x = (c, y)" for c x y
    using disconnect_ok [of e csm x] that by simp
  have i: "csm_ok (csm\<lparr> i_msg_in_count := n \<rparr>)" for n
    using assms(1) csm_ok_view [of "csm\<lparr> i_msg_in_count := n \<rparr>" csm] by (simp add: ok_view_def)
  have q: "csm_ok (c\<lparr> icc_msg_in_count := n \<rparr>)" if "iccp_csm_enqueue_msg x csm = Some c" for c x n
    using assms(1) csm_ok_view [of "c\<lparr> icc_msg_in_count := n \<rparr>" csm] enqueue_view [OF that]
    by (simp add: ok_view_def)
  show ?thesis using assms
    by (auto simp: scheduler_csm_read_callback_def Let_def d i q
        split: if_splits header_result.splits data_result.splits sum.splits option.splits prod.splits)
qed

section \<open>The daemon as a transition system\<close>

text \<open>
  The first part of \<open>mlacp_fsm_transit\<close>, which ends the synchronisation when the session is gone.
  The flag says that the function returned there.
\<close>

definition mlacp_fsm_torn_down :: "csm_env \<Rightarrow> CSM \<Rightarrow> System \<Rightarrow> bool \<times> CSM \<times> System" where
  "mlacp_fsm_torn_down e csm sys =
     (if sock_fd csm \<le> 0 \<or> app_current_state (app_csm csm) \<noteq> APP_OPERATIONAL then
        if mlacp_current_state (MLACP csm) \<noteq> MLACP_STATE_INIT then
          let csm = upd_mlacp (\<lambda>m. m\<lparr> mlacp_msg_list := [], arp_msg_list := [], ndisc_msg_list := [],
                       mac_msg_list := [], mlacp_current_state := MLACP_STATE_INIT \<rparr>) csm;
              (csm, sys) =
                (if sock_fd csm > 0 then
                   let (csm, sys) = scheduler_csm_socket_cleanup e csm sys
                   in (csm, sys\<lparr> socket_cleanup_counter := socket_cleanup_counter sys + 1 \<rparr>)
                 else (csm, sys))
          in (True, csm, sys)
        else (True, csm, sys)
      else (False, csm, sys))"

type_synonym iccpd = "CSM list \<times> System"

text \<open>
  One call from the main loop or from the configuration.  \<open>sync\<close> stands for the rest of
  \<open>mlacp_fsm_transit\<close>, which runs with the session up and may put the synchronisation into any
  state.
\<close>

inductive iccpd_step :: "iccpd \<Rightarrow> iccpd \<Rightarrow> bool" where
  transit: "k < length cs \<Longrightarrow> iccp_csm_transit e (cs ! k) sys = Some (Inr c, sys') \<Longrightarrow>
    iccpd_step (cs, sys) (cs[k := c], sys')"
| freed: "k < length cs \<Longrightarrow> iccp_csm_transit e (cs ! k) sys = Some (Inl (), sys') \<Longrightarrow>
    iccpd_step (cs, sys) (remove_nth k cs, sys')"
| app: "k < length cs \<Longrightarrow> iccpd_step (cs, sys) (cs[k := app_csm_transit (cs ! k)], sys)"
| torn_down: "k < length cs \<Longrightarrow> mlacp_fsm_torn_down e (cs ! k) sys = (b, c, sys') \<Longrightarrow>
    iccpd_step (cs, sys) (cs[k := c], sys')"
| sync: "k < length cs \<Longrightarrow> mlacp_fsm_torn_down e (cs ! k) sys = (False, c, sys') \<Longrightarrow>
    iccpd_step (cs, sys) (cs[k := upd_mlacp (\<lambda>m. m\<lparr> mlacp_current_state := st \<rparr>) c], sys')"
| heartbeat: "k < length cs \<Longrightarrow> heartbeat_update e (cs ! k) sys = (c, sys') \<Longrightarrow>
    iccpd_step (cs, sys) (cs[k := c], sys')"
| read: "k < length cs \<Longrightarrow> scheduler_csm_read_callback e m (cs ! k) s sys = Ret (rc, c, s', sys') \<Longrightarrow>
    iccpd_step (cs, sys) (cs[k := c], sys')"
| send: "k < length cs \<Longrightarrow> iccp_csm_send e (cs ! k) msg sys = (rc, c, sys') \<Longrightarrow>
    iccpd_step (cs, sys) (cs[k := c], sys')"
| accept: "scheduler_server_accept e addr cs sys = (rc, cs', sys') \<Longrightarrow> iccpd_step (cs, sys) (cs', sys')"
| set_id: "set_mc_lag_by_id e m mid cs sys = (rc, cs', sys') \<Longrightarrow> iccpd_step (cs, sys) (cs', sys')"
| unset_id: "unset_mc_lag_by_id e mid cs sys = (rc, cs', sys') \<Longrightarrow> iccpd_step (cs, sys) (cs', sys')"
| set_local: "set_local_address e i addr cs sys = Some (rc, cs', sys') \<Longrightarrow> iccpd_step (cs, sys) (cs', sys')"
| unset_local: "unset_local_address e i cs sys = (rc, cs', sys') \<Longrightarrow> iccpd_step (cs, sys) (cs', sys')"
| set_peer: "set_peer_address e i addr cs sys = Some (rc, cs', sys') \<Longrightarrow> iccpd_step (cs, sys) (cs', sys')"
| unset_peer: "unset_peer_address e i cs sys = (rc, cs', sys') \<Longrightarrow> iccpd_step (cs, sys) (cs', sys')"
| set_link: "set_peer_link e i ifname cs sys = Some (rc, cs', sys') \<Longrightarrow> iccpd_step (cs, sys) (cs', sys')"
| unset_link: "unset_peer_link e i cs sys = (rc, cs', sys') \<Longrightarrow> iccpd_step (cs, sys) (cs', sys')"
| set_timeout: "set_session_timeout i t cs = (rc, cs') \<Longrightarrow> iccpd_step (cs, sys) (cs', sys)"
| set_keepalive: "set_keepalive_time i t cs = (rc, cs') \<Longrightarrow> iccpd_step (cs, sys) (cs', sys)"
| set_system_id: "iccpd_step (cs, sys) (set_local_system_id mac cs, sys)"
| detach: "k < length cs \<Longrightarrow>
    iccp_cli_detach_mclag_domain_to_port_channel ifname (cs ! k) sys = (c, sys') \<Longrightarrow>
    iccpd_step (cs, sys) (cs[k := c], sys')"

definition iccpd_init :: "iccpd \<Rightarrow> bool" where
  "iccpd_init s \<longleftrightarrow> fst s = []"

definition iccpd_inv :: "iccpd \<Rightarrow> bool" where
  "iccpd_inv s \<longleftrightarrow> (\<forall>c \<in> set (fst s). csm_ok c)"

lemma lookup_id_bound: "system_get_csm_by_mlacp_id cs i = Some k \<Longrightarrow> k < length cs"
  by (induction cs arbitrary: k) (auto split: if_splits)

lemma lookup_ip_bound: "system_get_csm_by_peer_ip cs i = Some k \<Longrightarrow> k < length cs"
  by (induction cs arbitrary: k) (auto split: if_splits)

lemma all_ok_update: "\<forall>c \<in> set cs. csm_ok c \<Longrightarrow> csm_ok c' \<Longrightarrow> \<forall>c \<in> set (cs[k := c']). csm_ok c"
  using set_update_subset_insert [of cs k c'] by blast

lemma in_set_remove_nth: "x \<in> set (remove_nth k xs) \<Longrightarrow> x \<in> set xs"
  by (auto simp: remove_nth_def dest: in_set_takeD in_set_dropD)

lemma torn_down_id: "csm_ok c \<Longrightarrow> mlacp_fsm_torn_down e c sys = (b, c', sys') \<Longrightarrow>
    c' = c \<and> sys' = sys \<and> b = (app_current_state (app_csm c) \<noteq> APP_OPERATIONAL)"
  by (auto simp: mlacp_fsm_torn_down_def csm_ok_def split: if_splits)

lemma view_ok: "csm_ok c \<Longrightarrow> ok_view c' = ok_view c \<Longrightarrow> csm_ok c'"
  using csm_ok_view by blast

lemma check_config_ok:
  "scheduler_check_csm_config e c s = (ret, c', s') \<Longrightarrow> csm_ok c \<Longrightarrow> csm_ok c'"
  using check_config_view [of e c s] view_ok by simp

lemma accept_ok:
  assumes "\<forall>c \<in> set cs. csm_ok c" "scheduler_server_accept e addr cs sys = (rc, cs', sys')"
  shows "\<forall>c \<in> set cs'. csm_ok c"
proof (cases "system_get_csm_by_peer_ip cs addr")
  case None
  thus ?thesis using assms by (auto simp: scheduler_server_accept_def Let_def split: if_splits)
next
  case (Some k)
  obtain ret c1 s1 where k: "scheduler_check_csm_config e (cs ! k) sys = (ret, c1, s1)" by (metis surj_pair)
  have ok: "csm_ok (cs ! k)" using assms(1) lookup_ip_bound [OF Some] by simp
  have ok1: "csm_ok c1" by (rule check_config_ok [OF k ok])
  have v: "sock_fd c1 = sock_fd (cs ! k)"
    using check_config_view [of e "cs ! k" sys] k by (simp add: ok_view_def)
  have new: "\<not> sock_fd (cs ! k) > 0 \<Longrightarrow> csm_ok (c1\<lparr> sock_fd := fd, current_state := ICCP_NONEXISTENT \<rparr>)" for fd
    using ok1 v by (auto simp: csm_ok_def)
  have "cs' = cs \<or> cs' = cs[k := c1] \<or>
      (\<exists>fd. \<not> sock_fd (cs ! k) > 0 \<and> cs' = cs[k := c1\<lparr> sock_fd := fd, current_state := ICCP_NONEXISTENT \<rparr>])"
    using assms(2) Some k by (auto simp: scheduler_server_accept_def Let_def split: if_splits)
  thus ?thesis using assms(1) ok1 new all_ok_update by metis
qed

lemma disconnect_okD: "scheduler_session_disconnect_handler e c s = (c', s') \<Longrightarrow> csm_ok c'"
  using disconnect_ok [of e c s] by simp

lemma status_fields_ok [simp]:
  "csm_ok (c\<lparr> peer_ip := a \<rparr>) = csm_ok c" "csm_ok (c\<lparr> session_timeout := t \<rparr>) = csm_ok c"
  "csm_ok (c\<lparr> keepalive_time := t, heartbeat_send_time := h \<rparr>) = csm_ok c"
  "csm_ok (c\<lparr> if_bind_list := l \<rparr>) = csm_ok c"
  "csm_ok (c\<lparr> sender_ip := a, iccp_info := (iccp_info c)\<lparr> sender_name := n \<rparr>\<rparr>) = csm_ok c"
  by (simp_all add: csm_ok_def)

lemma clear_name_ok [simp]: "csm_ok (clear_peer_itf_name c) = csm_ok c"
  by (simp add: clear_peer_itf_name_def csm_ok_def)

lemma new_machine_ok: "csm_ok (set_mc_lag_id (fst (iccp_csm_init e CSM_zero sys)) mid)"
  by (simp add: set_mc_lag_id_def iccp_csm_init_def iccp_csm_status_reset_def app_csm_init_def
      mlacp_init_def csm_ok_def Let_def)

lemma set_id_ok:
  "\<forall>c \<in> set cs. csm_ok c \<Longrightarrow> set_mc_lag_by_id e m mid cs sys = (rc, cs', sys') \<Longrightarrow>
    \<forall>c \<in> set cs'. csm_ok c"
  using new_machine_ok [of e sys mid]
  by (auto simp: set_mc_lag_by_id_def system_create_csm_def Let_def split: option.splits if_splits prod.splits)

lemma unset_id_ok:
  "\<forall>c \<in> set cs. csm_ok c \<Longrightarrow> unset_mc_lag_by_id e mid cs sys = (rc, cs', sys') \<Longrightarrow>
    \<forall>c \<in> set cs'. csm_ok c"
  by (auto simp: unset_mc_lag_by_id_def dest: in_set_remove_nth split: option.splits)

lemma all_ok_either:
  "cs' = cs \<or> cs' = cs[k := a] \<or> cs' = cs[k := b] \<Longrightarrow> \<forall>c \<in> set cs. csm_ok c \<Longrightarrow> csm_ok a \<Longrightarrow> csm_ok b \<Longrightarrow>
    \<forall>c \<in> set cs'. csm_ok c"
  using all_ok_update [of cs a k] all_ok_update [of cs b k] by blast

lemma set_local_ok:
  assumes "\<forall>c \<in> set cs. csm_ok c" "set_local_address e i a cs sys = Some (rc, cs', sys')"
  shows "\<forall>c \<in> set cs'. csm_ok c"
proof (cases "system_get_csm_by_mlacp_id cs i")
  case (Some k)
  let ?set = "\<lambda>c. upd_info (\<lambda>i. i\<lparr> sender_name := bytes_of a \<rparr>) (c\<lparr> sender_ip := a \<rparr>)"
  have "cs' = cs \<or> cs' = cs[k := ?set (fst (scheduler_session_disconnect_handler e (cs ! k) sys))] \<or>
      cs' = cs[k := ?set (cs ! k)]"
    using assms(2) Some by (auto simp: set_local_address_def Let_def case_prod_beta split: if_splits)
  moreover have set: "csm_ok (?set c)" if "csm_ok c" for c using that by (simp add: csm_ok_def)
  moreover have "csm_ok (cs ! k)" using assms(1) lookup_id_bound [OF Some] by simp
  ultimately show ?thesis using all_ok_either [OF _ assms(1) set [OF disconnect_ok] set] by blast
qed (use assms in \<open>simp add: set_local_address_def\<close>)

lemma set_peer_ok:
  assumes "\<forall>c \<in> set cs. csm_ok c" "set_peer_address e i a cs sys = Some (rc, cs', sys')"
  shows "\<forall>c \<in> set cs'. csm_ok c"
proof (cases "system_get_csm_by_mlacp_id cs i")
  case (Some k)
  let ?set = "\<lambda>c. c\<lparr> peer_ip := a \<rparr>"
  have "cs' = cs \<or> cs' = cs[k := ?set (fst (scheduler_session_disconnect_handler e (cs ! k) sys))] \<or>
      cs' = cs[k := ?set (cs ! k)]"
    using assms(2) Some by (auto simp: set_peer_address_def Let_def case_prod_beta split: if_splits)
  moreover have set: "csm_ok (?set c)" if "csm_ok c" for c using that by (simp add: csm_ok_def)
  moreover have "csm_ok (cs ! k)" using assms(1) lookup_id_bound [OF Some] by simp
  ultimately show ?thesis using all_ok_either [OF _ assms(1) set [OF disconnect_ok] set] by blast
qed (use assms in \<open>simp add: set_peer_address_def\<close>)

lemma unset_addresses_ok:
  assumes "\<forall>c \<in> set cs. csm_ok c"
  shows "unset_local_address e i cs sys = (rc, cs', sys') \<Longrightarrow> \<forall>c \<in> set cs'. csm_ok c"
    "unset_peer_address e i cs sys = (rc, cs', sys') \<Longrightarrow> \<forall>c \<in> set cs'. csm_ok c"
proof -
  have upd: "\<forall>c \<in> set (cs[k := fst (scheduler_session_disconnect_handler e c s)]). csm_ok c" for k c s
    by (rule all_ok_update [OF assms disconnect_ok])
  show "unset_local_address e i cs sys = (rc, cs', sys') \<Longrightarrow> \<forall>c \<in> set cs'. csm_ok c"
    using assms upd by (cases "system_get_csm_by_mlacp_id cs i")
       (simp_all add: unset_local_address_def Let_def case_prod_beta, metis)
  show "unset_peer_address e i cs sys = (rc, cs', sys') \<Longrightarrow> \<forall>c \<in> set cs'. csm_ok c"
    using assms upd by (cases "system_get_csm_by_mlacp_id cs i")
       (simp_all add: unset_peer_address_def Let_def case_prod_beta, metis)
qed

lemma ends_in_disconnect:
  assumes "(let (c, s) = B1; c = f c
            in if q then None
               else let c = g c; (c, s) = B2 c s; (c, s) = scheduler_session_disconnect_handler e c s
                    in Some (0, cs[k := c], s)) = Some (rc, cs', sys')"
  shows "\<exists>c s. cs' = cs[k := fst (scheduler_session_disconnect_handler e c s)]"
proof -
  obtain c1 s1 where 1: "B1 = (c1, s1)" by (cases B1)
  obtain c2 s2 where 2: "B2 (g (f c1)) s1 = (c2, s2)" by (cases "B2 (g (f c1)) s1")
  have "cs' = cs[k := fst (scheduler_session_disconnect_handler e c2 s2)]"
    using assms by (simp add: 1 2 Let_def case_prod_beta split: if_splits)
  thus ?thesis by blast
qed

lemma set_link_ok:
  assumes "\<forall>c \<in> set cs. csm_ok c" "set_peer_link e i a cs sys = Some (rc, cs', sys')"
  shows "\<forall>c \<in> set cs'. csm_ok c"
proof (cases "system_get_csm_by_mlacp_id cs i")
  case None
  thus ?thesis using assms by (simp add: set_peer_link_def split: if_splits)
next
  case (Some k)
  show ?thesis
  proof (cases "\<not> peer_link_prefix a \<or> length a > 20 \<or> peer_itf_name (cs ! k) = a")
    case True
    hence "cs' = cs" using assms(2) Some unfolding set_peer_link_def by (auto split: if_splits)
    thus ?thesis using assms(1) by simp
  next
    case False
    hence "\<exists>c s. cs' = cs[k := fst (scheduler_session_disconnect_handler e c s)]"
      using assms(2) Some unfolding set_peer_link_def
      by (simp only: option.case de_Morgan_disj not_not not_True_eq_False if_True if_False) (erule ends_in_disconnect)
    thus ?thesis using all_ok_update [OF assms(1) disconnect_ok] by blast
  qed
qed

lemma unset_link_ok:
  assumes "\<forall>c \<in> set cs. csm_ok c" "unset_peer_link e i cs sys = (rc, cs', sys')"
  shows "\<forall>c \<in> set cs'. csm_ok c"
proof (cases "system_get_csm_by_mlacp_id cs i")
  case None
  thus ?thesis using assms by (simp add: unset_peer_link_def)
next
  case (Some k)
  have "peer_link_if (clear_peer_itf_name (fst (scheduler_session_disconnect_handler e c s))) = None" for c s
    using disconnect_over(1) [of e c s] by (simp add: session_over_def clear_peer_itf_name_def)
  hence "\<exists>c s. cs' = cs[k := clear_peer_itf_name (fst (scheduler_session_disconnect_handler e c s))]"
    using assms(2) Some by (auto simp: unset_peer_link_def Let_def case_prod_beta)
  thus ?thesis using all_ok_update [OF assms(1)] disconnect_ok clear_name_ok by blast
qed

lemma timers_ok:
  assumes ok: "\<forall>c \<in> set cs. csm_ok c"
  shows "set_session_timeout i t cs = (rc, cs') \<Longrightarrow> \<forall>c \<in> set cs'. csm_ok c"
    "set_keepalive_time i t cs = (rc, cs') \<Longrightarrow> \<forall>c \<in> set cs'. csm_ok c"
proof -
  have upd: "\<forall>c \<in> set (cs[k := (cs ! k)\<lparr> session_timeout := t \<rparr>]). csm_ok c"
    "\<forall>c \<in> set (cs[k := (cs ! k)\<lparr> keepalive_time := t, heartbeat_send_time := 0 \<rparr>]). csm_ok c"
    if "system_get_csm_by_mlacp_id cs i = Some k" for k
  proof -
    have c: "csm_ok (cs ! k)" using ok lookup_id_bound [OF that] by simp
    show "\<forall>c \<in> set (cs[k := (cs ! k)\<lparr> session_timeout := t \<rparr>]). csm_ok c"
      by (rule all_ok_update [OF ok]) (simp add: c)
    show "\<forall>c \<in> set (cs[k := (cs ! k)\<lparr> keepalive_time := t, heartbeat_send_time := 0 \<rparr>]). csm_ok c"
      by (rule all_ok_update [OF ok]) (simp add: c)
  qed
  show "set_session_timeout i t cs = (rc, cs') \<Longrightarrow> \<forall>c \<in> set cs'. csm_ok c"
    using ok upd(1) by (cases "system_get_csm_by_mlacp_id cs i") (auto simp: set_session_timeout_def)
  show "set_keepalive_time i t cs = (rc, cs') \<Longrightarrow> \<forall>c \<in> set cs'. csm_ok c"
    using ok upd(2) by (cases "system_get_csm_by_mlacp_id cs i") (auto simp: set_keepalive_time_def split: if_splits)
qed

lemma unbind_view: "ok_view (mlacp_unbind_local_if l c) = ok_view c"
  by (simp add: mlacp_unbind_local_if_def ok_view_def Let_def)

lemma detach_ok:
  assumes "csm_ok c" "iccp_cli_detach_mclag_domain_to_port_channel n c s = (c', s')"
  shows "csm_ok c'"
proof -
  have f: "ok_view (fold mlacp_unbind_local_if ls c) = ok_view c" for ls c
    by (induction ls arbitrary: c) (simp_all add: unbind_view)
  have b: "ok_view (c\<lparr> if_bind_list := l \<rparr>) = ok_view c" for c l by (simp add: ok_view_def)
  have "ok_view c' = ok_view c"
    using assms(2) by (auto simp: iccp_cli_detach_mclag_domain_to_port_channel_def Let_def f b unbind_view
        split: if_splits option.splits)
  thus ?thesis by (rule view_ok [OF assms(1)])
qed

lemma system_id_ok: "\<forall>c \<in> set cs. csm_ok c \<Longrightarrow> \<forall>c \<in> set (set_local_system_id mac cs). csm_ok c"
  by (auto simp: set_local_system_id_def csm_ok_def)

lemma sync_ok: "csm_ok c \<Longrightarrow> mlacp_fsm_torn_down e c sys = (False, c', sys') \<Longrightarrow>
    csm_ok (upd_mlacp (\<lambda>m. m\<lparr> mlacp_current_state := st \<rparr>) c')"
  by (auto simp: csm_ok_def mlacp_fsm_torn_down_def Let_def split: if_splits prod.splits)

lemma inv_nth: "iccpd_inv (cs, sys) \<Longrightarrow> k < length cs \<Longrightarrow> csm_ok (cs ! k)"
  by (simp add: iccpd_inv_def)

lemma inv_update: "iccpd_inv (cs, sys) \<Longrightarrow> csm_ok c \<Longrightarrow> iccpd_inv (cs[k := c], sys')"
  unfolding iccpd_inv_def fst_conv by (rule all_ok_update)

lemma iccpd_inv_step: "iccpd_step s s' \<Longrightarrow> iccpd_inv s \<Longrightarrow> iccpd_inv s'"
proof (induction rule: iccpd_step.induct)
  case (transit k cs e sys c sys')
  thus ?case using transit_ok [of "cs ! k" e sys "Inr c" sys'] by (auto dest: inv_nth intro: inv_update)
next
  case (freed k cs e sys sys')
  thus ?case by (auto simp: iccpd_inv_def dest: in_set_remove_nth)
next
  case (app k cs sys)
  thus ?case by (blast intro: inv_update app_transit_ok inv_nth)
next
  case (torn_down k cs e sys b c sys')
  thus ?case using torn_down_id [of "cs ! k"] inv_nth inv_update by metis
next
  case (sync k cs e sys c sys' st)
  thus ?case by (blast intro: inv_update sync_ok inv_nth)
next
  case (heartbeat k cs e sys c sys')
  thus ?case using heartbeat_ok [of "cs ! k" e sys] by (auto dest: inv_nth intro: inv_update)
next
  case (read k cs e m s sys rc c s' sys')
  thus ?case by (blast intro: inv_update read_ok inv_nth)
next
  case (send k cs e msg sys rc c sys')
  thus ?case by (blast intro: inv_update send_ok_inv inv_nth)
next
  case (detach k cs n sys c sys')
  thus ?case by (blast intro: inv_update detach_ok inv_nth)
qed (unfold iccpd_inv_def fst_conv, (erule (1) accept_ok [rotated] set_id_ok [rotated] unset_id_ok [rotated]
       set_local_ok [rotated] set_peer_ok [rotated] set_link_ok [rotated] unset_link_ok [rotated]
       unset_addresses_ok(1) [rotated] unset_addresses_ok(2) [rotated]
       timers_ok(1) [rotated] timers_ok(2) [rotated] | erule system_id_ok)+)

interpretation machines: invariant_system iccpd_init iccpd_step iccpd_inv
  by unfold_locales (simp add: iccpd_init_def iccpd_inv_def, rule iccpd_inv_step)

text \<open>
  C1. In every state the daemon can reach from an empty configuration, by any sequence of machine
  steps, reads, heartbeats, connections and configuration commands, each machine satisfies
  \<open>csm_ok\<close>: a machine that is not in \<open>NONEXISTENT\<close>, and one whose application is operational, has
  an open socket; synchronisation is only left in its initial state under an operational
  application; and \<open>OPERATIONAL\<close> is only held with the connect exchange completed on both sides.
  Consequently a step of the machine never ends in \<open>iccp_csm_finalize\<close>, so \<open>scheduler_transit_fsm\<close>
  does not use a freed machine, and \<open>mlacp_fsm_transit\<close> never finds a synchronisation to tear down.
\<close>

theorem machines_invariant:
  assumes "iccpd_init s" "iccpd_step\<^sup>*\<^sup>* s (cs, sys)" "k < length cs"
  shows "csm_ok (cs ! k) \<and>
    (\<forall>sys'. iccp_csm_transit e (cs ! k) sys \<noteq> Some (Inl (), sys')) \<and>
    snd (mlacp_fsm_torn_down e (cs ! k) sys) = (cs ! k, sys)"
proof -
  have ok: "csm_ok (cs ! k)"
    using machines.inv_reachable [OF assms(1,2)] assms(3) by (simp add: iccpd_inv_def)
  moreover have "iccp_csm_transit e (cs ! k) sys \<noteq> Some (Inl (), sys')" for sys'
    using transit_ok [OF ok, of e sys "Inl ()" sys'] by auto
  moreover have "snd (mlacp_fsm_torn_down e (cs ! k) sys) = (cs ! k, sys)"
    by (cases "mlacp_fsm_torn_down e (cs ! k) sys") (use torn_down_id [OF ok] in auto)
  ultimately show ?thesis by blast
qed

definition sample_daemon :: iccpd where
  "sample_daemon = snd (set_mc_lag_by_id sample_csm_env True 7 [] sample_system)"

lemma sample_daemon_reached: "iccpd_step\<^sup>*\<^sup>* ([], sample_system) (fst sample_daemon, snd sample_daemon)"
  by (rule r_into_rtranclp, rule iccpd_step.set_id [of sample_csm_env True 7 _ _ "fst (set_mc_lag_by_id sample_csm_env True 7 [] sample_system)"])
     (simp add: sample_daemon_def)

lemma sample_daemon_length: "length (fst sample_daemon) = 1"
  by (simp add: sample_daemon_def set_mc_lag_by_id_def system_create_csm_def Let_def case_prod_beta)

theorem machines_invariant_witness:
  "iccpd_init ([], sample_system) \<and> csm_ok (fst sample_daemon ! 0) \<and>
    (\<forall>sys'. iccp_csm_transit sample_csm_env (fst sample_daemon ! 0) (snd sample_daemon) \<noteq> Some (Inl (), sys'))"
proof -
  have "iccpd_init ([], sample_system)" by (simp add: iccpd_init_def)
  with machines_invariant [OF this sample_daemon_reached, of 0 sample_csm_env] sample_daemon_length
  show ?thesis by simp
qed


text \<open>
  When the peer has announced a warm reboot, \<open>mlacp_peer_disconn_handler\<close> stores the time of the
  disconnection in \<open>warm_reboot_disconn_time\<close>, from which the end of the grace period is measured.
  The disconnect handler that calls it zeroes the field before it returns.
\<close>

theorem warm_reboot_deadline_lost:
  assumes "peer_warm_reboot_time csm \<noteq> 0" "\<not> warmboot_exit sys"
  shows "warm_reboot_disconn_time (fst (mlacp_peer_disconn_handler e csm sys)) = now e \<and>
    warm_reboot_disconn_time (fst (scheduler_session_disconnect_handler e csm sys)) = 0"
  using assms by (simp add: disconnect_over mlacp_peer_disconn_handler_def)

theorem warm_reboot_deadline_lost_witness:
  "now sample_csm_env \<noteq> 0 \<and>
   warm_reboot_disconn_time (fst (mlacp_peer_disconn_handler sample_csm_env
     (CSM_zero\<lparr> peer_warm_reboot_time := 5 \<rparr>) sample_system)) = now sample_csm_env \<and>
   warm_reboot_disconn_time (fst (scheduler_session_disconnect_handler sample_csm_env
     (CSM_zero\<lparr> peer_warm_reboot_time := 5 \<rparr>) sample_system)) = 0"
  using warm_reboot_deadline_lost [of "CSM_zero\<lparr> peer_warm_reboot_time := 5 \<rparr>" sample_system sample_csm_env]
  by (simp add: sample_system_def sample_csm_env_def)

section \<open>A silent peer\<close>

definition watch :: "csm_env list \<Rightarrow> CSM \<times> System \<Rightarrow> CSM \<times> System" where
  "watch = fold (\<lambda>e (csm, sys). heartbeat_update e csm sys)"

lemma watch_over: "session_over (fst s) \<Longrightarrow> watch es s = s"
  by (induction es arbitrary: s)
     (auto simp: watch_def heartbeat_update_def session_over_def case_prod_beta)

text \<open>
  C23. Let the last sign of life of a connected peer be at \<open>t\<close>.  As long as every check of the main
  loop happens within \<open>session_timeout\<close> seconds of \<open>t\<close> the session is left alone; as soon as one
  check is later than that, the session is over, and no later check changes it again.
\<close>

theorem silent_peer_disconnected:
  assumes "sock_fd csm > 0" "heartbeat_update_time csm = t" "t \<noteq> 0"
  shows "if \<forall>e \<in> set es. now e - t \<le> session_timeout csm then watch es (csm, sys) = (csm, sys)
         else session_over (fst (watch es (csm, sys))) \<and> same_config csm (fst (watch es (csm, sys)))"
proof (induction es arbitrary: sys)
  case Nil
  thus ?case by (simp add: watch_def)
next
  case (Cons e es)
  show ?case
  proof (cases "now e - t \<le> session_timeout csm")
    case True
    hence "watch (e # es) (csm, sys) = watch es (csm, sys)"
      using assms by (simp add: watch_def heartbeat_update_def heartbeat_check_def)
    thus ?thesis using Cons.IH [of sys] True by simp
  next
    case False
    hence w: "watch (e # es) (csm, sys) = watch es (scheduler_session_disconnect_handler e csm sys)"
      using assms by (simp add: watch_def heartbeat_update_def heartbeat_check_def)
    show ?thesis using False disconnect_over(1) [of e csm sys] disconnect_over(2) [of csm e sys] by (simp add: w watch_over)
  qed
qed

theorem silent_peer_disconnected_witness:
  "let csm = CSM_zero\<lparr> sock_fd := 9, heartbeat_update_time := 50, session_timeout := 15 \<rparr> in
   watch [sample_csm_env\<lparr> now := 60 \<rparr>] (csm, sample_system) = (csm, sample_system) \<and>
   session_over (fst (watch [sample_csm_env\<lparr> now := 60 \<rparr>, sample_csm_env] (csm, sample_system)))"
  using silent_peer_disconnected [of "CSM_zero\<lparr> sock_fd := 9, heartbeat_update_time := 50, session_timeout := 15 \<rparr>" 50
      "[sample_csm_env\<lparr> now := 60 \<rparr>]" sample_system]
    silent_peer_disconnected [of "CSM_zero\<lparr> sock_fd := 9, heartbeat_update_time := 50, session_timeout := 15 \<rparr>" 50
      "[sample_csm_env\<lparr> now := 60 \<rparr>, sample_csm_env]" sample_system]
  by (simp add: sample_csm_env_def Let_def)

section \<open>Roles\<close>

definition mirrored :: "CSM \<Rightarrow> CSM \<Rightarrow> bool" where
  "mirrored a b \<longleftrightarrow> sender_ip a = peer_ip b \<and> peer_ip a = sender_ip b"

definition connects :: "System \<Rightarrow> System \<Rightarrow> bool" where
  "connects sys sys' \<longleftrightarrow> (\<exists>fd ip. Connect fd ip \<in> set (drop (length (trace sys)) (trace sys')))"


definition ready_to_connect :: "csm_env \<Rightarrow> CSM \<Rightarrow> bool" where
  "ready_to_connect e csm \<longleftrightarrow>
     mlag_id csm > 0 \<and> sender_ip csm \<noteq> [] \<and> peer_ip csm \<noteq> [] \<and> sock_fd csm \<le> 0 \<and>
     (peer_itf_name csm \<noteq> [] \<longrightarrow> if_exists e (peer_itf_name csm)) \<and>
     role_type csm = STP_ROLE_NONE \<and> connTimePrev csm \<noteq> 0 \<and> now e - connTimePrev csm \<ge> 1"

lemma learn_kernel_keeps:
  "role_type (fst (set_peerlink_learn_kernel e c en s)) = role_type c"
  "sender_ip (fst (set_peerlink_learn_kernel e c en s)) = sender_ip c"
  "peer_ip (fst (set_peerlink_learn_kernel e c en s)) = peer_ip c"
  "\<exists>evs. trace (snd (set_peerlink_learn_kernel e c en s)) = trace s @ evs \<and> (\<forall>fd ip. Connect fd ip \<notin> set evs)"
  by (simp_all add: set_peerlink_learn_kernel_def emit_def Let_def split: option.split)

lemma check_config_role:
  assumes "ready_to_connect e c"
  shows "\<exists>c' s' evs. scheduler_check_csm_config e c s = (1, c', s') \<and>
    role_type c' = (if inet_addr e (sender_ip c) < inet_addr e (peer_ip c) then STP_ROLE_ACTIVE else STP_ROLE_STANDBY) \<and>
    sender_ip c' = sender_ip c \<and> peer_ip c' = peer_ip c \<and>
    trace s' = trace s @ evs \<and> (\<forall>fd ip. Connect fd ip \<notin> set evs)"
proof (cases "peer_itf_name c = []")
  case True
  thus ?thesis using assms
    by (auto simp: scheduler_check_csm_config_def ready_to_connect_def iccp_csm_stp_role_count_def emit_def)
next
  case False
  let ?l = "set_peerlink_learn_kernel e (c\<lparr> peer_link_if := Some (peer_itf_name c) \<rparr>) 0
              (emit [Mark_peer_link (peer_itf_name c) True] s)"
  obtain c1 s1 where l: "?l = (c1, s1)" by (cases ?l)
  obtain evs where t: "trace s1 = trace s @ Mark_peer_link (peer_itf_name c) True # evs"
    "\<forall>fd ip. Connect fd ip \<notin> set evs"
    using learn_kernel_keeps(4) [of e "c\<lparr> peer_link_if := Some (peer_itf_name c) \<rparr>" 0
        "emit [Mark_peer_link (peer_itf_name c) True] s"] unfolding l by (auto simp: emit_def)
  have "role_type c1 = role_type c" "sender_ip c1 = sender_ip c" "peer_ip c1 = peer_ip c"
    using learn_kernel_keeps(1-3) [of e "c\<lparr> peer_link_if := Some (peer_itf_name c) \<rparr>" 0
        "emit [Mark_peer_link (peer_itf_name c) True] s"] by (simp_all add: l)
  thus ?thesis using assms False t
    by (simp add: scheduler_check_csm_config_def ready_to_connect_def iccp_csm_stp_role_count_def l Let_def,
        auto simp: emit_def)
qed

lemma prepare_session_role:
  assumes "ready_to_connect e c" "socket_rc e \<noteq> -1" "bind_rc e \<ge> 0"
  defines "low \<equiv> inet_addr e (sender_ip c) < inet_addr e (peer_ip c)"
  shows "role_type (fst (scheduler_prepare_session e c s)) = (if low then STP_ROLE_ACTIVE else STP_ROLE_STANDBY)"
    "connects s (snd (scheduler_prepare_session e c s)) = low"
proof -
  obtain c' s' evs where k: "scheduler_check_csm_config e c s = (1, c', s')"
    "role_type c' = (if low then STP_ROLE_ACTIVE else STP_ROLE_STANDBY)"
    "sender_ip c' = sender_ip c" "peer_ip c' = peer_ip c"
    "trace s' = trace s @ evs" "\<forall>fd ip. Connect fd ip \<notin> set evs"
    using check_config_role [OF assms(1), of s] unfolding low_def by blast
  have p: "scheduler_prepare_session e c s =
      (if low then let (c2, s2) = session_client_conn_handler e c' s' in (c2\<lparr> connTimePrev := now e \<rparr>, s2)
       else (c'\<lparr> connTimePrev := now e \<rparr>, s'))"
    using assms(1) k(1,3,4)
    by (auto simp: scheduler_prepare_session_def ready_to_connect_def low_def Let_def not_less le_less)
  have h: "role_type (fst (session_client_conn_handler e c' s')) = role_type c'"
    by (simp add: session_client_conn_handler_def Let_def)
  have t: "\<exists>evs. trace (snd (session_client_conn_handler e c' s')) = trace s' @ Connect (socket_rc e) (peer_ip c') # evs"
    using assms(2,3) by (auto simp: session_client_conn_handler_def Let_def emit_def)
  show "role_type (fst (scheduler_prepare_session e c s)) = (if low then STP_ROLE_ACTIVE else STP_ROLE_STANDBY)"
    using h k(2) by (simp add: p case_prod_beta)
  show "connects s (snd (scheduler_prepare_session e c s)) = low"
    using t k(5,6) by (force simp: p connects_def case_prod_beta)
qed

text \<open>
  Two switches configured with each other's addresses agree on their roles without talking: when
  both try to set the session up, exactly one of them becomes active, and it is the only one that
  opens a connection; the other waits for it.
\<close>

theorem one_active_end:
  assumes "mirrored a b" "inet_addr e (sender_ip a) \<noteq> inet_addr e (sender_ip b)"
    and "ready_to_connect e a" "ready_to_connect e b" "socket_rc e \<noteq> -1" "bind_rc e \<ge> 0"
  shows "let ra = scheduler_prepare_session e a sa; rb = scheduler_prepare_session e b sb in
    {role_type (fst ra), role_type (fst rb)} = {STP_ROLE_ACTIVE, STP_ROLE_STANDBY} \<and>
    connects sa (snd ra) = (role_type (fst ra) = STP_ROLE_ACTIVE) \<and>
    connects sb (snd rb) = (role_type (fst rb) = STP_ROLE_ACTIVE)"
  using prepare_session_role [OF assms(3,5,6), of sa] prepare_session_role [OF assms(4,5,6), of sb] assms(1,2)
  by (auto simp: mirrored_def Let_def)

definition sample_end :: "string \<Rightarrow> string \<Rightarrow> CSM" where
  "sample_end here there = CSM_zero\<lparr> mlag_id := 1, sender_ip := here, peer_ip := there, connTimePrev := 1,
     role_type := STP_ROLE_NONE, sock_fd := -1 \<rparr>"

theorem one_active_end_witness:
  "{role_type (fst (scheduler_prepare_session sample_csm_env (sample_end ''10.0.0.1'' ''10.0.0.11'') sample_system)),
    role_type (fst (scheduler_prepare_session sample_csm_env (sample_end ''10.0.0.11'' ''10.0.0.1'') sample_system))} =
    {STP_ROLE_ACTIVE, STP_ROLE_STANDBY}"
proof -
  let ?a = "sample_end ''10.0.0.1'' ''10.0.0.11''" and ?b = "sample_end ''10.0.0.11'' ''10.0.0.1''"
  have "mirrored ?a ?b" "inet_addr sample_csm_env (sender_ip ?a) \<noteq> inet_addr sample_csm_env (sender_ip ?b)"
    "ready_to_connect sample_csm_env ?a" "ready_to_connect sample_csm_env ?b"
    "socket_rc sample_csm_env \<noteq> -1" "bind_rc sample_csm_env \<ge> 0"
    by (simp_all add: mirrored_def sample_end_def ready_to_connect_def sample_csm_env_def CSM_zero_def)
  from one_active_end [OF this, of sample_system sample_system] show ?thesis by (simp add: Let_def)
qed

section \<open>Refusals\<close>

text \<open>
  C33. A refusal is fatal for the machine that receives it.  When a switch refuses a message (its
  redundancy group differs) it sends a notification; the receiver queues it, and on its next
  transition reads the status code 256 bytes behind the header, outside the message.
\<close>

theorem nak_reception_faults:
  assumes "status_code (iccp_info a) = STATUS_CODE_U_ICCP_RG"
    and "log_find (rejected_msg_id (iccp_info a)) (msg_log c) = None"
    and "current_state c \<noteq> ICCP_NONEXISTENT" "sock_fd c > 0" "msg_list c = []"
  shows "\<exists>c'. iccp_csm_enqueue_msg (iccp_csm_prepare_nak_msg a mid) c = Some c' \<and>
    iccp_csm_transit e c' sys = None"
proof -
  let ?m = "to_host (iccp_csm_prepare_nak_msg a mid)"
  obtain p q r t where m: "enc32 mid = [p, q, r, t]" using enc32_bytes by blast
  obtain p' q' r' t' where g: "enc32 (icc_rg_id (iccp_info a)) = [p', q', r', t']" using enc32_bytes by blast
  obtain p2 q2 r2 t2 where j: "enc32 (rejected_msg_id (iccp_info a)) = [p2, q2, r2, t2]"
    "be32 p2 q2 r2 t2 = rejected_msg_id (iccp_info a)" using enc32_bytes by blast
  obtain p3 q3 r3 t3 where st: "enc32 STATUS_CODE_U_ICCP_RG = [p3, q3, r3, t3]" using enc32_bytes by blast
  have none: "iccp_csm_correspond_from_msg c1 ?m s1 = None" for c1 s1
    by (rule correspond_notification) (simp_all add: nak_msg_wire assms(1) m g j st be16_eval)
  have "iccp_csm_enqueue_msg (iccp_csm_prepare_nak_msg a mid) c = Some (csm_insert_tail ?m c)"
    using assms(2) by (simp add: nak_msg_wire assms(1) m g j st iccp_csm_enqueue_msg_def swap16_def
        msg_type_field_def rd16le_def rd32be_def be16_eval)
  moreover have "iccp_csm_transit e (csm_insert_tail ?m c) sys = None"
    using assms(3-5) none
    by (cases "current_state c")
       (simp_all add: iccp_csm_transit_def csm_insert_tail_def iccp_csm_dequeue_msg_def transit_switch_def
          correspond_opt_def Let_def)
  ultimately show ?thesis by blast
qed

theorem nak_reception_faults_witness:
  "\<exists>c'. iccp_csm_enqueue_msg
        (iccp_csm_prepare_nak_msg (CSM_zero\<lparr> iccp_info := IccpInfo_zero\<lparr> status_code := STATUS_CODE_U_ICCP_RG, rejected_msg_id := 2 \<rparr>\<rparr>) 5)
        (CSM_zero\<lparr> current_state := ICCP_CONNECTING, sock_fd := 9, msg_log := MsgLog_zero \<rparr>) = Some c' \<and>
     iccp_csm_transit sample_csm_env c' sample_system = None"
  by (rule nak_reception_faults) (simp_all add: CSM_zero_def log_find_def MsgLog_zero_def find_None_iff)

text \<open>
  Closing a group goes unnoticed.  The disconnect message carries the status code of the machine,
  which is never \<open>STATUS_CODE_ICCP_RG_REMOVED\<close>, and the receiver acts on that code only: it keeps
  both connect flags, so an operational receiver stays operational.
\<close>

theorem rg_disconnect_ignored:
  assumes "csm_ok a"
  shows "\<exists>c'. iccp_csm_correspond_from_msg c (to_host (iccp_csm_prepare_rg_disconnect_msg a mid)) sys = Some (c', sys) \<and>
    sender_rg_connect_flag (iccp_info c') = sender_rg_connect_flag (iccp_info c) \<and>
    peer_rg_connect_flag (iccp_info c') = peer_rg_connect_flag (iccp_info c) \<and>
    current_state c' = current_state c"
proof -
  have "status_code (iccp_info a) \<noteq> STATUS_CODE_ICCP_RG_REMOVED" using assms by (auto simp: csm_ok_def)
  from correspond_rg_disconnect [OF this, of c mid sys] show ?thesis by (auto simp: check_rg_def)
qed

theorem rg_disconnect_ignored_witness:
  "\<exists>c'. iccp_csm_correspond_from_msg CSM_zero
      (to_host (iccp_csm_prepare_rg_disconnect_msg (fst (iccp_csm_init sample_csm_env CSM_zero sample_system)) 3)) sample_system =
      Some (c', sample_system) \<and> current_state c' = current_state CSM_zero"
proof -
  have "csm_ok (fst (iccp_csm_init sample_csm_env CSM_zero sample_system))"
    by (simp add: iccp_csm_init_def iccp_csm_status_reset_def app_csm_init_def mlacp_init_def csm_ok_def Let_def)
  from rg_disconnect_ignored [OF this] show ?thesis by blast
qed

section \<open>Identifiers\<close>

definition csm_ids :: "CSM list \<Rightarrow> int list" where
  "csm_ids csms = map (\<lambda>c. mlacp_id (MLACP c)) csms"

lemma lookup_id_Some:
  "system_get_csm_by_mlacp_id cs i = Some k \<Longrightarrow> k < length cs \<and> mlacp_id (MLACP (cs ! k)) = i"
  by (induction cs arbitrary: k) (auto split: if_splits)

lemma lookup_id_None: "system_get_csm_by_mlacp_id cs i = None \<longleftrightarrow> i \<notin> set (csm_ids cs)"
  by (induction cs) (auto simp: csm_ids_def)

lemma csm_ids_remove: "csm_ids (remove_nth k cs) = remove_nth k (csm_ids cs)"
  by (simp add: csm_ids_def remove_nth_def take_map drop_map)

lemma distinct_remove_nth:
  assumes "distinct xs" "k < length xs"
  shows "distinct (remove_nth k xs) \<and> set (remove_nth k xs) = set xs - {xs ! k}"
proof -
  have xs: "xs = take k xs @ xs ! k # drop (Suc k) xs" using assms(2) by (simp add: id_take_nth_drop)
  have "distinct (take k xs @ xs ! k # drop (Suc k) xs)" using assms(1) xs by simp
  moreover have "set xs = set (take k xs @ xs ! k # drop (Suc k) xs)" using xs by simp
  ultimately show ?thesis by (auto simp: remove_nth_def)
qed

lemma set_id_ids:
  assumes "set_mc_lag_by_id e True mid cs sys = (rc, cs', sys')"
  shows "rc = 0 \<and> csm_ids cs' = (if uint mid \<in> set (csm_ids cs) then csm_ids cs else uint mid # csm_ids cs)"
  using assms lookup_id_None [of cs "uint mid"]
  by (cases "system_get_csm_by_mlacp_id cs (uint mid)")
     (auto simp: set_mc_lag_by_id_def system_create_csm_def Let_def case_prod_beta csm_ids_def set_mc_lag_id_def)

text \<open>
  Domains are found under their identifier.  With pairwise different identifiers, creating
  domain \<open>mid\<close> gives a list in which \<open>system_get_csm_by_mlacp_id\<close> finds it and in which the
  identifiers still differ, and creates it only once; deleting it afterwards removes exactly that
  domain, and a second deletion fails with -1.
\<close>

theorem domain_created_and_deleted:
  assumes "distinct (csm_ids cs)" "set_mc_lag_by_id e True mid cs sys = (rc, cs1, sys1)"
    and "unset_mc_lag_by_id e mid cs1 sys1 = (rc2, cs2, sys2)"
  shows "rc = 0 \<and> distinct (csm_ids cs1) \<and>
    (\<exists>k. system_get_csm_by_mlacp_id cs1 (uint mid) = Some k \<and> mlacp_id (MLACP (cs1 ! k)) = uint mid) \<and>
    set_mc_lag_by_id e True mid cs1 sys1 = (0, cs1, sys1) \<and>
    rc2 = 0 \<and> distinct (csm_ids cs2) \<and> set (csm_ids cs2) = set (csm_ids cs) - {uint mid} \<and>
    unset_mc_lag_by_id e mid cs2 sys2 = (-1, cs2, sys2)"
proof -
  have i: "rc = 0" "csm_ids cs1 = (if uint mid \<in> set (csm_ids cs) then csm_ids cs else uint mid # csm_ids cs)"
    using set_id_ids [OF assms(2)] by simp_all
  have d: "distinct (csm_ids cs1)" using i(2) assms(1) by simp
  have "uint mid \<in> set (csm_ids cs1)" using i(2) by simp
  then obtain k where k: "system_get_csm_by_mlacp_id cs1 (uint mid) = Some k"
    using lookup_id_None by fastforce
  note b = lookup_id_Some [OF k]
  have c2: "rc2 = 0" "csm_ids cs2 = remove_nth k (csm_ids cs1)"
    using assms(3) k by (auto simp: unset_mc_lag_by_id_def csm_ids_remove)
  have "k < length (csm_ids cs1)" "csm_ids cs1 ! k = uint mid" using b by (simp_all add: csm_ids_def)
  hence r: "distinct (csm_ids cs2)" "set (csm_ids cs2) = set (csm_ids cs1) - {uint mid}"
    using distinct_remove_nth [OF d] c2(2) by simp_all
  have "system_get_csm_by_mlacp_id cs2 (uint mid) = None" using r(2) by (simp add: lookup_id_None)
  thus ?thesis using i d k b c2(1) r
    by (auto simp: set_mc_lag_by_id_def unset_mc_lag_by_id_def)
qed

theorem domain_created_and_deleted_witness:
  "\<exists>k. system_get_csm_by_mlacp_id (fst sample_daemon) 7 = Some k \<and>
     mlacp_id (MLACP (fst sample_daemon ! k)) = 7"
proof -
  have "set_mc_lag_by_id sample_csm_env True 7 [] sample_system = (0, fst sample_daemon, snd sample_daemon)"
    using set_id_ids [of sample_csm_env 7 "[]" sample_system] by (cases "set_mc_lag_by_id sample_csm_env True 7 [] sample_system")
      (auto simp: sample_daemon_def)
  from domain_created_and_deleted [OF _ this] show ?thesis
    by (cases "unset_mc_lag_by_id sample_csm_env 7 (fst sample_daemon) (snd sample_daemon)")
       (simp add: csm_ids_def)
qed

theorem unset_peer_link_keeps_mark_witness:
  "\<exists>rc csms' sys'. unset_peer_link sample_csm_env 1
      [upd_mlacp (\<lambda>m. m\<lparr> mlacp_id := 1 \<rparr>) (CSM_zero\<lparr> peer_itf_name := ''Ethernet0'', peer_link_if := Some ''Ethernet0'' \<rparr>)]
      sample_system = (rc, csms', sys') \<and> peer_itf_name (csms' ! 0) = [] \<and>
      (\<exists>evs. trace sys' = trace sample_system @ evs \<and> (\<forall>n. Mark_peer_link n False \<notin> set evs))"
proof -
  let ?l = "[upd_mlacp (\<lambda>m. m\<lparr> mlacp_id := 1 \<rparr>) (CSM_zero\<lparr> peer_itf_name := ''Ethernet0'', peer_link_if := Some ''Ethernet0'' \<rparr>)]"
  obtain rc cs' s' where u: "unset_peer_link sample_csm_env 1 ?l sample_system = (rc, cs', s')"
    by (cases "unset_peer_link sample_csm_env 1 ?l sample_system")
  have "system_get_csm_by_mlacp_id ?l 1 = Some 0" "0 < length ?l" by simp_all
  from unset_peer_link_keeps_mark [OF this u] u show ?thesis by blast
qed

end
