(* ===== verification/Iccp_Mac.thy ===== *)
theory Iccp_Mac
  imports Iccp_Msg
begin

text \<open>
  MAC addresses of the inter-chassis daemon: the table of learnt addresses (\<open>mac_rb\<close>), the queue
  of changes for the peer (\<open>mac_msg_list\<close>), the entries sent to the forwarding plane through
  mclagsyncd, and the MAC information messages the two switches exchange
  (\<open>src/src/iccpd/src/mlacp_link_handler.c\<close>, \<open>mlacp_sync_update.c\<close>, \<open>mlacp_sync_prepare.c\<close> and
  \<open>mlacp_fsm.c\<close>).

  An entry is on the heap and is shared by the tree and the queue, and each handler decides for
  itself whether to free it.  The model therefore has an explicit heap: \<open>cells\<close> maps an address to
  the live entry there, the tree and the queue hold addresses, and every access to a freed entry
  is \<open>None\<close>.  One connection is modelled, as in the code ("only one CSM in the system currently"),
  while its socket to the peer is open; the counters of the debug commands are left out.

  An interface name is the list of its bytes before the null byte.  The two bits of \<open>age_flag\<close> are
  the fields \<open>age_local\<close> and \<open>age_peer\<close>; \<open>in_msg_list\<close> says whether a link of the queue is set
  in the entry, which is what \<open>MAC_IN_MSG_LIST\<close> tests.
\<close>

unbundle bit_operations_syntax

section \<open>Data\<close>

type_synonym ifname = mem
type_synonym addr = nat

abbreviation (input) MAC_SYNC_ADD :: byte where "MAC_SYNC_ADD \<equiv> 1"
abbreviation (input) MAC_SYNC_DEL :: byte where "MAC_SYNC_DEL \<equiv> 2"
abbreviation (input) MAC_TYPE_STATIC :: byte where "MAC_TYPE_STATIC \<equiv> 1"
abbreviation (input) MAC_TYPE_DYNAMIC :: byte where "MAC_TYPE_DYNAMIC \<equiv> 2"
abbreviation (input) MAC_TYPE_DYNAMIC_LOCAL :: byte where "MAC_TYPE_DYNAMIC_LOCAL \<equiv> 3"
abbreviation (input) MAX_L_PORT_NAME :: nat where "MAX_L_PORT_NAME \<equiv> 20"
abbreviation (input) ETHER_ADDR_LEN :: nat where "ETHER_ADDR_LEN \<equiv> 6"
abbreviation (input) MAX_MAC_ENTRY_NUM :: nat where "MAX_MAC_ENTRY_NUM \<equiv> 30"
abbreviation (input) sizeof_mLACPMACInfoTLV :: nat where "sizeof_mLACPMACInfoTLV \<equiv> 6"
abbreviation (input) sizeof_mLACPMACData :: nat where "sizeof_mLACPMACData \<equiv> 30"

datatype port_state = PORT_STATE_UP | PORT_STATE_DOWN | PORT_STATE_ADMIN_DOWN | PORT_STATE_TEST

record MACMsg =
  vid :: "16 word"
  mac_addr :: mem
  op_type :: byte
  fdb_type :: byte
  ifname :: ifname
  origin_ifname :: ifname
  age_local :: bool
  age_peer :: bool
  pending_local_del :: bool
  add_to_syncd :: bool
  in_msg_list :: bool

record VLAN_ID =
  vlan_vid :: "16 word"
  vlan_itf :: "ifname option"

record mac_lif =
  ml_name :: ifname
  ml_ifindex :: int
  ml_type :: if_type
  ml_mclag :: bool
  ml_state :: port_state
  ml_po_active :: bool
  ml_po_down_time :: int
  ml_mac_addr :: mem
  ml_ipv4_addr :: mem
  ml_ipv6_addr :: mem
  ml_prefixlen_v6 :: byte
  ml_ipv6_ll_addr :: mem
  ml_ll_prefixlen_v6 :: byte
  ml_l3_mode :: bool
  ml_is_l3_proto_enabled :: bool
  ml_master_ifindex :: "32 word"
  ml_vlan_tree :: "VLAN_ID list"

record mclag_fdb_info =
  fdb_mac :: mem
  fdb_vid :: "16 word"
  fdb_port_name :: ifname
  fdb_entry_type :: byte
  fdb_op_type :: byte

record mLACPMACData =
  md_type :: byte
  md_mac_type :: byte
  md_mac_addr :: mem
  md_vid :: "16 word"
  md_ifname :: ifname

text \<open>
  \<open>lifs\<close> is the list of all local interfaces, \<open>ml_mclag\<close> marks those of the connection's own list;
  IP addresses are the bytes in memory, 4 or 16 of them.  A pointer to an interface
  (\<open>csm->peer_link_if\<close>, \<open>vlan_itf\<close>) is the name of an interface of the list.  \<open>exchange\<close> says that the synchronisation state is
  \<open>MLACP_STATE_EXCHANGE\<close>; \<open>sync_fd_ok\<close>, \<open>malloc_ok\<close> and \<open>clock\<close> are the answers of the socket to
  mclagsyncd, of the allocator and of \<open>time\<close>; \<open>fdb_out\<close> and \<open>sent\<close> collect what went to mclagsyncd
  and to the peer.
\<close>

record mac_ctx =
  peer_itf :: ifname
  peer_link_if :: "ifname option"
  exchange :: bool
  lifs :: "mac_lif list"
  pifs :: "(ifname \<times> port_state) list"
  cells :: "addr \<Rightarrow> MACMsg option"
  brk :: addr
  mac_rb :: "addr list"
  mac_msg_list :: "addr list"
  mac_rg_id :: "32 word"
  mac_msg_id :: "32 word"
  sync_fd_ok :: bool
  malloc_ok :: bool
  clock :: int
  fdb_out :: "mclag_fdb_info list"
  sent :: "mem list"

section \<open>The tree and the queue\<close>

fun memcmp :: "mem \<Rightarrow> mem \<Rightarrow> int" where
  "memcmp (x # xs) (y # ys) = (if x < y then -1 else if y < x then 1 else memcmp xs ys)"
| "memcmp [] (y # ys) = -1"
| "memcmp (x # xs) [] = 1"
| "memcmp [] [] = 0"

definition MACMsg_compare :: "MACMsg \<Rightarrow> MACMsg \<Rightarrow> int" where
  "MACMsg_compare mac1 mac2 =
     (if vid mac1 < vid mac2 then -1
      else if vid mac1 > vid mac2 then 1
      else if memcmp (mac_addr mac1) (mac_addr mac2) < 0 then -1
      else if memcmp (mac_addr mac1) (mac_addr mac2) > 0 then 1
      else 0)"

definition null_mac :: "mem \<Rightarrow> bool" where
  "null_mac m \<longleftrightarrow> m = replicate ETHER_ADDR_LEN 0"

definition MACMsg_zero :: MACMsg where
  "MACMsg_zero = \<lparr> vid = 0, mac_addr = replicate ETHER_ADDR_LEN 0, op_type = 0, fdb_type = 0, ifname = [],
     origin_ifname = [], age_local = False, age_peer = False, pending_local_del = False,
     add_to_syncd = False, in_msg_list = False \<rparr>"

text \<open>Assignments through a pointer to an entry.\<close>

definition upd :: "addr \<Rightarrow> (MACMsg \<Rightarrow> MACMsg) \<Rightarrow> mac_ctx \<Rightarrow> mac_ctx option" where
  "upd a f c = do { m \<leftarrow> cells c a; Some (c\<lparr> cells := (cells c)(a \<mapsto> f m) \<rparr>) }"

definition free_mac :: "addr \<Rightarrow> mac_ctx \<Rightarrow> mac_ctx option" where
  "free_mac a c = do { _ \<leftarrow> cells c a; Some (c\<lparr> cells := (cells c)(a := None) \<rparr>) }"

text \<open>
  The tree is the list of its nodes in the order of \<open>MACMsg_compare\<close>, the order in which
  \<open>RB_FOREACH\<close> visits them.  A search that could meet a freed node is a fault.
\<close>

definition RB_FIND :: "mac_ctx \<Rightarrow> 16 word \<Rightarrow> mem \<Rightarrow> addr option option" where
  "RB_FIND c v mac =
     (if list_all (\<lambda>a. cells c a \<noteq> None) (mac_rb c)
      then Some (find (\<lambda>a. MACMsg_compare (the (cells c a)) (MACMsg_zero\<lparr> vid := v, mac_addr := mac \<rparr>) = 0) (mac_rb c))
      else None)"

fun rb_place :: "(addr \<Rightarrow> MACMsg option) \<Rightarrow> addr \<Rightarrow> MACMsg \<Rightarrow> addr list \<Rightarrow> addr list option" where
  "rb_place h a m [] = Some [a]"
| "rb_place h a m (b # bs) =
     do { n \<leftarrow> h b;
          let d = MACMsg_compare m n;
          if d = 0 then Some (b # bs)
          else if d < 0 then Some (a # b # bs)
          else do { r \<leftarrow> rb_place h a m bs; Some (b # r) } }"

definition RB_INSERT :: "addr \<Rightarrow> mac_ctx \<Rightarrow> mac_ctx option" where
  "RB_INSERT a c = do { m \<leftarrow> cells c a; bs \<leftarrow> rb_place (cells c) a m (mac_rb c); Some (c\<lparr> mac_rb := bs \<rparr>) }"

definition MAC_RB_REMOVE :: "addr \<Rightarrow> mac_ctx \<Rightarrow> mac_ctx option" where
  "MAC_RB_REMOVE a c = do { _ \<leftarrow> cells c a; Some (c\<lparr> mac_rb := remove1 a (mac_rb c) \<rparr>) }"

text \<open>\<open>if (!MAC_IN_MSG_LIST(...)) TAILQ_INSERT_TAIL(...)\<close>\<close>

definition enqueue_mac :: "addr \<Rightarrow> mac_ctx \<Rightarrow> mac_ctx option" where
  "enqueue_mac a c =
     do { m \<leftarrow> cells c a;
          if in_msg_list m then Some c
          else upd a (\<lambda>m. m\<lparr> in_msg_list := True \<rparr>) (c\<lparr> mac_msg_list := mac_msg_list c @ [a] \<rparr>) }"

text \<open>\<open>if (!MAC_IN_MSG_LIST(...)) free(...)\<close>\<close>

definition free_unless_queued :: "addr \<Rightarrow> mac_ctx \<Rightarrow> mac_ctx option" where
  "free_unless_queued a c = do { m \<leftarrow> cells c a; if in_msg_list m then Some c else free_mac a c }"

definition drop_mac :: "addr \<Rightarrow> mac_ctx \<Rightarrow> mac_ctx option" where
  "drop_mac a c = do { c \<leftarrow> MAC_RB_REMOVE a c; free_unless_queued a c }"

text \<open>\<open>RB_FOREACH_SAFE\<close>: the body may remove the node it is given.\<close>

fun foreach :: "(addr \<Rightarrow> mac_ctx \<Rightarrow> mac_ctx option) \<Rightarrow> addr list \<Rightarrow> mac_ctx \<Rightarrow> mac_ctx option" where
  "foreach f [] c = Some c"
| "foreach f (a # as) c = do { c \<leftarrow> f a c; foreach f as c }"

definition RB_FOREACH_SAFE :: "(addr \<Rightarrow> mac_ctx \<Rightarrow> mac_ctx option) \<Rightarrow> mac_ctx \<Rightarrow> mac_ctx option" where
  "RB_FOREACH_SAFE f c = foreach f (mac_rb c) c"

definition iccp_csm_init_mac_msg :: "MACMsg \<Rightarrow> mac_ctx \<Rightarrow> (addr \<times> mac_ctx) option" where
  "iccp_csm_init_mac_msg data c =
     (if malloc_ok c
      then Some (brk c, c\<lparr> cells := (cells c)(brk c \<mapsto> data), brk := brk c + 1 \<rparr>)
      else None)"

section \<open>Entries of the forwarding plane\<close>

text \<open>
  The entry may be on the heap or on the stack of the caller, so the functions below take the
  entry itself and \<open>chip\<close> applies them to an entry of the heap.
\<close>

definition iccp_send_fdb_entry_to_syncd ::
    "MACMsg \<Rightarrow> byte \<Rightarrow> byte \<Rightarrow> mac_ctx \<Rightarrow> MACMsg \<times> mac_ctx" where
  "iccp_send_fdb_entry_to_syncd mac_msg mac_type oper c =
     (if null_mac (mac_addr mac_msg) then (mac_msg, c)
      else (mac_msg\<lparr> add_to_syncd := (oper \<noteq> MAC_SYNC_DEL) \<rparr>,
            if sync_fd_ok c
            then c\<lparr> fdb_out := fdb_out c @ [\<lparr> fdb_mac = mac_addr mac_msg, fdb_vid = vid mac_msg,
                   fdb_port_name = ifname mac_msg, fdb_entry_type = mac_type, fdb_op_type = oper \<rparr>] \<rparr>
            else c))"

definition add_mac_to_chip :: "byte \<Rightarrow> MACMsg \<Rightarrow> mac_ctx \<Rightarrow> MACMsg \<times> mac_ctx" where
  "add_mac_to_chip mac_type mac_msg c = iccp_send_fdb_entry_to_syncd mac_msg mac_type MAC_SYNC_ADD c"

definition del_mac_from_chip :: "MACMsg \<Rightarrow> mac_ctx \<Rightarrow> MACMsg \<times> mac_ctx" where
  "del_mac_from_chip mac_msg c = iccp_send_fdb_entry_to_syncd mac_msg (fdb_type mac_msg) MAC_SYNC_DEL c"

definition chip :: "(MACMsg \<Rightarrow> mac_ctx \<Rightarrow> MACMsg \<times> mac_ctx) \<Rightarrow> addr \<Rightarrow> mac_ctx \<Rightarrow> mac_ctx option" where
  "chip f a c = do { m \<leftarrow> cells c a; case f m c of (m', c') \<Rightarrow> upd a (\<lambda>_. m') c' }"

text \<open>\<open>add_mac_to_chip(mac_msg, mac_msg->fdb_type)\<close> and \<open>del_mac_from_chip(mac_msg)\<close> of a heap entry\<close>

definition add_chip :: "addr \<Rightarrow> mac_ctx \<Rightarrow> mac_ctx option" where
  "add_chip = chip (\<lambda>m. add_mac_to_chip (fdb_type m) m)"

definition add_chip_local :: "addr \<Rightarrow> mac_ctx \<Rightarrow> mac_ctx option" where
  "add_chip_local = chip (add_mac_to_chip MAC_TYPE_DYNAMIC_LOCAL)"

definition del_chip :: "addr \<Rightarrow> mac_ctx \<Rightarrow> mac_ctx option" where
  "del_chip = chip del_mac_from_chip"

text \<open>
  \<open>mac_msg->age_flag = set_mac_local_age_flag(csm, mac_msg, set, update_peer)\<close>: the assignment all
  the callers make is included.
\<close>

definition set_mac_local_age_flag :: "addr \<Rightarrow> bool \<Rightarrow> bool \<Rightarrow> mac_ctx \<Rightarrow> mac_ctx option" where
  "set_mac_local_age_flag a st update_peer c =
     do { m \<leftarrow> cells c a;
          if age_local m = st then Some c
          else do {
            c \<leftarrow> (if exchange c \<and> update_peer
                  then do { c \<leftarrow> upd a (\<lambda>m. m\<lparr> op_type := if st then MAC_SYNC_DEL else MAC_SYNC_ADD \<rparr>) c;
                            enqueue_mac a c }
                  else Some c);
            upd a (\<lambda>m. m\<lparr> age_local := st \<rparr>) c } }"

definition aged_out :: "MACMsg \<Rightarrow> bool" where
  "aged_out m \<longleftrightarrow> age_local m \<and> age_peer m"

definition to_peer_link :: "mac_ctx \<Rightarrow> MACMsg \<Rightarrow> MACMsg" where
  "to_peer_link c m = m\<lparr> ifname := peer_itf c \<rparr>"

definition local_if_find_by_name :: "mac_ctx \<Rightarrow> ifname \<Rightarrow> mac_lif option" where
  "local_if_find_by_name c n = find (\<lambda>l. ml_name l = n) (lifs c)"

text \<open>The state of the peer link, when \<open>csm->peer_link_if\<close> is set\<close>

definition peer_link :: "mac_ctx \<Rightarrow> port_state option" where
  "peer_link c = do { n \<leftarrow> peer_link_if c; l \<leftarrow> local_if_find_by_name c n; Some (ml_state l) }"

definition mclag_if_find :: "mac_ctx \<Rightarrow> ifname \<Rightarrow> mac_lif option" where
  "mclag_if_find c n = find (\<lambda>l. ml_mclag l \<and> ml_type l = IF_T_PORT_CHANNEL \<and> ml_name l = n) (lifs c)"

definition peer_if_find_by_name :: "mac_ctx \<Rightarrow> ifname \<Rightarrow> port_state option" where
  "peer_if_find_by_name c n = map_option snd (find (\<lambda>p. fst p = n) (pifs c))"

section \<open>Interfaces going up and down\<close>

text \<open>Body of the loop of \<open>update_l2_mac_state\<close> for a port channel that went down.\<close>

definition po_down_mac :: "ifname \<Rightarrow> port_state option \<Rightarrow> addr \<Rightarrow> mac_ctx \<Rightarrow> mac_ctx option" where
  "po_down_mac name pif a c =
     do { m \<leftarrow> cells c a;
          if name \<noteq> origin_ifname m then Some c
          else if \<not> age_local m \<and> age_peer m \<and> pif = Some PORT_STATE_UP then
            do { c \<leftarrow> (if peer_itf c \<noteq> [] \<and> peer_link c = Some PORT_STATE_UP
                       then do { c \<leftarrow> upd a (to_peer_link c) c; add_chip a c }
                       else do { c \<leftarrow> del_chip a c; upd a (to_peer_link c) c });
                 upd a (\<lambda>m. m\<lparr> pending_local_del := True \<rparr>) c }
          else do {
            c \<leftarrow> set_mac_local_age_flag a True True c;
            m \<leftarrow> cells c a;
            if aged_out m then
              do { c \<leftarrow> (if fdb_type m \<noteq> MAC_TYPE_STATIC then del_chip a c else Some c);
                   drop_mac a c }
            else if peer_itf c \<noteq> [] then
              (if peer_link c = Some PORT_STATE_UP
               then do { c \<leftarrow> upd a (to_peer_link c) c; add_chip a c }
               else do { c \<leftarrow> del_chip a c; upd a (to_peer_link c) c })
            else del_chip a c } }"

definition clear_pending :: "addr \<Rightarrow> mac_ctx \<Rightarrow> mac_ctx option" where
  "clear_pending a c =
     do { c \<leftarrow> del_chip a c;
          m \<leftarrow> cells c a;
          if fdb_type m \<noteq> MAC_TYPE_STATIC then
            do { c \<leftarrow> MAC_RB_REMOVE a c;
                 c \<leftarrow> upd a (\<lambda>m. m\<lparr> op_type := MAC_SYNC_DEL \<rparr>) c;
                 free_unless_queued a c }
          else upd a (\<lambda>m. m\<lparr> pending_local_del := False \<rparr>) c }"

definition po_up_mac :: "ifname \<Rightarrow> addr \<Rightarrow> mac_ctx \<Rightarrow> mac_ctx option" where
  "po_up_mac name a c =
     do { m \<leftarrow> cells c a;
          if name \<noteq> origin_ifname m then Some c
          else if ifname m = peer_itf c then
            do { c \<leftarrow> upd a (\<lambda>m. m\<lparr> pending_local_del := False, ifname := origin_ifname m \<rparr>) c;
                 if age_local m \<and> \<not> age_peer m then add_chip a c else add_chip_local a c }
          else if pending_local_del m then clear_pending a c
          else Some c }"

definition set_po_down_time :: "ifname \<Rightarrow> int \<Rightarrow> mac_ctx \<Rightarrow> mac_ctx" where
  "set_po_down_time n t c =
     c\<lparr> lifs := map (\<lambda>l. if ml_name l = n then l\<lparr> ml_po_down_time := t \<rparr> else l) (lifs c) \<rparr>"

definition update_l2_mac_state :: "ifname \<Rightarrow> bool \<Rightarrow> mac_ctx \<Rightarrow> mac_ctx option" where
  "update_l2_mac_state name po_state c =
     (let pif = peer_if_find_by_name c name;
          c = set_po_down_time name (if po_state then 0 else clock c) c
      in RB_FOREACH_SAFE (if po_state then po_up_mac name else po_down_mac name pif) c)"

definition update_orphan_port_mac :: "ifname \<Rightarrow> bool \<Rightarrow> mac_ctx \<Rightarrow> mac_ctx option" where
  "update_orphan_port_mac name state c =
     (if \<not> state then Some c
      else RB_FOREACH_SAFE (\<lambda>a c.
        do { m \<leftarrow> cells c a;
             if origin_ifname m \<noteq> name then Some c
             else if \<not> age_local m \<and> age_peer m \<and> exchange c then
               do { c \<leftarrow> upd a (\<lambda>m. m\<lparr> op_type := MAC_SYNC_ADD \<rparr>) c; enqueue_mac a c }
             else Some c }) c)"

definition mlacp_convert_remote_mac_to_local :: "ifname \<Rightarrow> mac_ctx \<Rightarrow> mac_ctx option" where
  "mlacp_convert_remote_mac_to_local po_name c =
     (case local_if_find_by_name c po_name of
        None \<Rightarrow> Some c
      | Some lif \<Rightarrow>
          if ml_state lif = PORT_STATE_DOWN then Some c
          else RB_FOREACH_SAFE (\<lambda>a c.
            do { m \<leftarrow> cells c a;
                 if origin_ifname m \<noteq> po_name then Some c
                 else if age_local m \<and> \<not> age_peer m then
                   do { c \<leftarrow> upd a (\<lambda>m. m\<lparr> age_local := False, age_peer := True \<rparr>) c;
                        c \<leftarrow> add_chip_local a c;
                        c \<leftarrow> upd a (\<lambda>m. m\<lparr> op_type := MAC_SYNC_ADD \<rparr>) c;
                        enqueue_mac a c }
                 else Some c }) c)"

definition update_remote_macs_to_peerlink :: "ifname \<Rightarrow> mac_ctx \<Rightarrow> mac_ctx option" where
  "update_remote_macs_to_peerlink name c =
     RB_FOREACH_SAFE (\<lambda>a c.
       do { m \<leftarrow> cells c a;
            if name \<noteq> origin_ifname m \<or> age_peer m then Some c
            else if peer_itf c \<noteq> [] \<and> peer_link c = Some PORT_STATE_UP \<and> ifname m \<noteq> peer_itf c then
              do { c \<leftarrow> upd a (to_peer_link c) c; add_chip a c }
            else Some c }) c"

definition mlacp_peer_disconn_fdb_handler :: "mac_ctx \<Rightarrow> mac_ctx option" where
  "mlacp_peer_disconn_fdb_handler c =
     RB_FOREACH_SAFE (\<lambda>a c.
       do { m \<leftarrow> cells c a;
            if ifname m = peer_itf c then
              do { c \<leftarrow> upd a (\<lambda>m. m\<lparr> age_peer := True \<rparr>) c;
                   m \<leftarrow> cells c a;
                   if aged_out m \<or> pending_local_del m
                   then do { c \<leftarrow> del_chip a c; drop_mac a c }
                   else Some c }
            else if \<not> age_local m \<and> \<not> age_peer m then upd a (\<lambda>m. m\<lparr> age_peer := True \<rparr>) c
            else if age_local m \<and> \<not> age_peer m then
              do { c \<leftarrow> add_chip_local a c;
                   upd a (\<lambda>m. m\<lparr> age_local := False, age_peer := True \<rparr>) c }
            else Some c }) c"

definition mlacp_peerlink_up_handler :: "mac_ctx \<Rightarrow> mac_ctx option" where
  "mlacp_peerlink_up_handler c =
     RB_FOREACH_SAFE (\<lambda>a c.
       do { m \<leftarrow> cells c a; if ifname m \<noteq> peer_itf c then Some c else add_chip a c }) c"

definition mlacp_peerlink_down_handler :: "mac_ctx \<Rightarrow> mac_ctx option" where
  "mlacp_peerlink_down_handler c =
     RB_FOREACH_SAFE (\<lambda>a c.
       do { m \<leftarrow> cells c a;
            if ifname m \<noteq> peer_itf c then Some c
            else do {
              c \<leftarrow> (if \<not> pending_local_del m then set_mac_local_age_flag a True True c else Some c);
              c \<leftarrow> del_chip a c;
              m \<leftarrow> cells c a;
              if aged_out m then drop_mac a c else Some c } }) c"

section \<open>Learning from the forwarding plane\<close>

definition syncd_add_existing ::
    "MACMsg \<Rightarrow> mac_lif \<Rightarrow> bool \<Rightarrow> port_state option \<Rightarrow> addr \<Rightarrow> mac_ctx \<Rightarrow> mac_ctx option" where
  "syncd_add_existing msg mac_lif from_mclag_intf pif a c =
     do { m \<leftarrow> cells c a;
          if ml_state mac_lif = PORT_STATE_DOWN \<and> from_mclag_intf \<and> pif = Some PORT_STATE_UP then
            do { c \<leftarrow> upd a (\<lambda>m. m\<lparr> pending_local_del := True, fdb_type := fdb_type msg,
                                  origin_ifname := ifname msg \<rparr>) c;
                 c \<leftarrow> (if ifname m = peer_itf c then Some c else upd a (to_peer_link c) c);
                 chip (add_mac_to_chip (fdb_type msg)) a c }
          else if fdb_type m \<noteq> fdb_type msg \<or> ifname m \<noteq> ifname msg \<or> origin_ifname m \<noteq> ifname msg then
            do { c \<leftarrow> upd a (\<lambda>m. m\<lparr> fdb_type := fdb_type msg, ifname := ifname msg,
                                  origin_ifname := ifname msg \<rparr>) c;
                 c \<leftarrow> set_mac_local_age_flag a False True c;
                 if \<not> age_peer msg then
                   do { c \<leftarrow> upd a (\<lambda>m. m\<lparr> age_local := False, age_peer := True \<rparr>) c;
                        Some (snd (del_mac_from_chip msg c)) }
                 else Some c }
          else do { c \<leftarrow> set_mac_local_age_flag a False True c;
                    if \<not> age_peer msg then Some (snd (del_mac_from_chip msg c)) else Some c } }"

definition syncd_add_new ::
    "MACMsg \<Rightarrow> mac_lif \<Rightarrow> bool \<Rightarrow> port_state option \<Rightarrow> mac_ctx \<Rightarrow> mac_ctx option" where
  "syncd_add_new msg mac_lif from_mclag_intf pif c =
     (if from_mclag_intf \<and> ml_state mac_lif = PORT_STATE_DOWN \<and> pif = Some PORT_STATE_DOWN
      then Some (snd (del_mac_from_chip msg c))
      else let msg = msg\<lparr> age_peer := True, op_type := MAC_SYNC_ADD \<rparr>
           in case iccp_csm_init_mac_msg msg c of
                None \<Rightarrow> Some c
              | Some (a, c) \<Rightarrow>
                  do { c \<leftarrow> RB_INSERT a c;
                       if ml_state mac_lif = PORT_STATE_DOWN then
                         (if from_mclag_intf \<and> pif = Some PORT_STATE_UP
                          then Some (snd (add_mac_to_chip (fdb_type msg)
                                            (to_peer_link c (msg\<lparr> pending_local_del := True \<rparr>)) c))
                          else Some c)
                       else if exchange c
                       then upd a (\<lambda>m. m\<lparr> in_msg_list := True \<rparr>)
                              (c\<lparr> mac_msg_list := mac_msg_list c @ [a] \<rparr>)
                       else Some c })"

definition syncd_del :: "mac_lif option \<Rightarrow> addr \<Rightarrow> mac_ctx \<Rightarrow> mac_ctx option" where
  "syncd_del lif_po a c =
     do { m \<leftarrow> cells c a;
          if ifname m = peer_itf c then
            (if pending_local_del m then Some c
             else do {
               c \<leftarrow> set_mac_local_age_flag a True True c;
               m \<leftarrow> cells c a;
               if aged_out m then
                 do { c \<leftarrow> (if add_to_syncd m then del_chip a c else Some c); drop_mac a c }
               else if peer_link c \<noteq> None \<and> peer_link c \<noteq> Some PORT_STATE_DOWN then add_chip a c
               else Some c })
          else do {
            c \<leftarrow> set_mac_local_age_flag a True True c;
            m \<leftarrow> cells c a;
            if aged_out m then
              do { c \<leftarrow> (if add_to_syncd m then del_chip a c else Some c); drop_mac a c }
            else if map_option ml_state lif_po = Some PORT_STATE_DOWN then
              (if peer_itf c \<noteq> [] then
                 do { c \<leftarrow> upd a (to_peer_link c) c;
                      if peer_link c = Some PORT_STATE_UP then add_chip a c else Some c }
               else Some c)
            else if map_option ml_state (local_if_find_by_name c (ifname m)) = Some PORT_STATE_UP
            then add_chip a c
            else Some c } }"

definition do_mac_update_from_syncd ::
    "mem \<Rightarrow> 16 word \<Rightarrow> ifname \<Rightarrow> byte \<Rightarrow> byte \<Rightarrow> mac_ctx \<Rightarrow> mac_ctx option" where
  "do_mac_update_from_syncd mac v name ty oper c =
     (if null_mac mac then Some c
      else let msg = MACMsg_zero\<lparr> op_type := oper, fdb_type := ty, mac_addr := mac, vid := v \<rparr>;
               lif_po = (if name = peer_itf c then None else mclag_if_find c name);
               from_mclag_intf = (lif_po \<noteq> None);
               pif = peer_if_find_by_name c name
           in do {
             mac_info \<leftarrow> RB_FIND c v mac;
             if oper = MAC_SYNC_ADD then
               (case local_if_find_by_name c name of
                  None \<Rightarrow> Some c
                | Some mac_lif \<Rightarrow>
                    if MAX_L_PORT_NAME \<le> length name then None
                    else let msg = msg\<lparr> ifname := name, origin_ifname := name \<rparr>
                         in if peer_itf c = name then Some c
                            else (case mac_info of
                                    Some a \<Rightarrow> syncd_add_existing msg mac_lif from_mclag_intf pif a c
                                  | None \<Rightarrow> syncd_add_new msg mac_lif from_mclag_intf pif c))
             else (case mac_info of
                     Some a \<Rightarrow> syncd_del lif_po a c
                   | None \<Rightarrow> Some c) })"

section \<open>Learning from the peer\<close>

definition redirect_existing :: "addr \<Rightarrow> mac_ctx \<Rightarrow> mac_ctx option" where
  "redirect_existing a c =
     do { m \<leftarrow> cells c a;
          if ifname m = peer_itf c then Some c
          else do { c \<leftarrow> upd a (to_peer_link c) c; add_chip a c } }"

definition peer_add_existing :: "mLACPMACData \<Rightarrow> mac_lif option \<Rightarrow> addr \<Rightarrow> mac_ctx \<Rightarrow> mac_ctx option" where
  "peer_add_existing d local_if a c =
     do { c \<leftarrow> upd a (\<lambda>m. m\<lparr> age_peer := False \<rparr>) c;
          m \<leftarrow> cells c a;
          c \<leftarrow> (if local_if \<noteq> None \<and> pending_local_del m then
                  do { c \<leftarrow> upd a (\<lambda>m. m\<lparr> pending_local_del := False, age_local := True,
                                        age_peer := False, op_type := MAC_SYNC_DEL \<rparr>) c;
                       enqueue_mac a c }
                else Some c);
          m \<leftarrow> cells c a;
          if ifname m \<noteq> md_ifname d \<or> origin_ifname m \<noteq> md_ifname d then
            (if fdb_type m = MAC_TYPE_STATIC then upd a (\<lambda>m. m\<lparr> age_peer := True \<rparr>) c
             else do {
               c \<leftarrow> upd a (\<lambda>m. m\<lparr> origin_ifname := md_ifname d \<rparr>) c;
               if local_if = None \<or> map_option ml_state local_if = Some PORT_STATE_DOWN then
                 do { c \<leftarrow> set_mac_local_age_flag a True True c;
                      if peer_itf c \<noteq> [] then redirect_existing a c
                      else do {
                        c \<leftarrow> del_chip a c;
                        c \<leftarrow> upd a (\<lambda>m. m\<lparr> ifname := md_ifname d \<rparr>) c;
                        if local_if = None then
                          do { c \<leftarrow> drop_mac a c; _ \<leftarrow> cells c a; Some c }
                        else Some c } }
               else do { c \<leftarrow> upd a (\<lambda>m. m\<lparr> ifname := md_ifname d \<rparr>) c; add_chip a c } })
          else if local_if = None \<and> peer_itf c \<noteq> [] then redirect_existing a c
          else Some c }"

text \<open>The new entry is stored, then the copy on the stack is programmed.\<close>

definition peer_store :: "MACMsg \<Rightarrow> mac_lif option \<Rightarrow> mac_ctx \<Rightarrow> mac_ctx option" where
  "peer_store m local_if c =
     (case iccp_csm_init_mac_msg m c of
        None \<Rightarrow> Some c
      | Some (a, c) \<Rightarrow>
          do { c \<leftarrow> RB_INSERT a c;
               if ifname m = peer_itf c then
                 Some (if peer_link c = Some PORT_STATE_UP
                       then snd (add_mac_to_chip (fdb_type m) m c) else c)
               else do {
                 l \<leftarrow> local_if;
                 Some (if ml_state l \<noteq> PORT_STATE_DOWN
                       then snd (add_mac_to_chip (fdb_type m) m c) else c) } })"

definition peer_add_new :: "mLACPMACData \<Rightarrow> mac_lif option \<Rightarrow> mac_ctx \<Rightarrow> mac_ctx option" where
  "peer_add_new d local_if c =
     (let m = MACMsg_zero\<lparr> fdb_type := md_mac_type d, vid := md_vid d, mac_addr := md_mac_addr d,
                 ifname := md_ifname d, origin_ifname := md_ifname d, age_local := True \<rparr>
      in if local_if = None \<or> map_option ml_state local_if = Some PORT_STATE_DOWN then
           (if peer_itf c = []
            then (if local_if = None then Some c else peer_store m local_if c)
            else peer_store (to_peer_link c m) local_if c)
         else peer_store m local_if c)"

definition peer_del :: "addr \<Rightarrow> mac_ctx \<Rightarrow> mac_ctx option" where
  "peer_del a c =
     do { c \<leftarrow> upd a (\<lambda>m. m\<lparr> age_peer := True \<rparr>) c;
          m \<leftarrow> cells c a;
          if aged_out m then do { c \<leftarrow> del_chip a c; drop_mac a c } else Some c }"

definition mlacp_fsm_update_mac_entry_from_peer :: "mLACPMACData \<Rightarrow> mac_ctx \<Rightarrow> mac_ctx option" where
  "mlacp_fsm_update_mac_entry_from_peer d c =
     (if null_mac (md_mac_addr d) then Some c
      else let local_if = mclag_if_find c (md_ifname d)
           in do {
             mac_msg \<leftarrow> RB_FIND c (md_vid d) (md_mac_addr d);
             case mac_msg of
               Some a \<Rightarrow> if md_type d = MAC_SYNC_ADD then peer_add_existing d local_if a c
                         else if md_type d = MAC_SYNC_DEL then peer_del a c
                         else Some c
             | None \<Rightarrow> if md_type d = MAC_SYNC_ADD then peer_add_new d local_if c else Some c })"

text \<open>
  An entry of a received message; a name without a null byte in its field is treated as a fault,
  because \<open>sprintf\<close> and \<open>strcmp\<close> run on past the field.
\<close>

definition MacEntry :: "mem \<Rightarrow> nat \<Rightarrow> mLACPMACData option" where
  "MacEntry buf i =
     (let off = sizeof_ICCHdr + sizeof_mLACPMACInfoTLV + sizeof_mLACPMACData * i in
      do { ty \<leftarrow> rd8 buf off;
           mty \<leftarrow> rd8 buf (off + 1);
           mac \<leftarrow> rdn buf (off + 2) ETHER_ADDR_LEN;
           v \<leftarrow> rd16be buf (off + 8);
           name \<leftarrow> rdn buf (off + 10) MAX_L_PORT_NAME;
           if 0 \<in> set name
           then Some \<lparr> md_type = ty, md_mac_type = mty, md_mac_addr = mac, md_vid = v,
                       md_ifname = takeWhile (\<lambda>b. b \<noteq> 0) name \<rparr>
           else None })"

fun update_mac_entries :: "mem \<Rightarrow> nat list \<Rightarrow> mac_ctx \<Rightarrow> mac_ctx option" where
  "update_mac_entries buf [] c = Some c"
| "update_mac_entries buf (i # is) c =
     do { d \<leftarrow> MacEntry buf i;
          c \<leftarrow> mlacp_fsm_update_mac_entry_from_peer d c;
          update_mac_entries buf is c }"

definition mlacp_fsm_update_mac_info_from_peer :: "mem \<Rightarrow> mac_ctx \<Rightarrow> mac_ctx option" where
  "mlacp_fsm_update_mac_info_from_peer buf c =
     do { num \<leftarrow> rd16be buf (sizeof_ICCHdr + sizeof_ICCParameter);
          update_mac_entries buf [0..<unat num] c }"

section \<open>Sending to the peer\<close>

definition mlacp_fill_icc_header :: "mac_ctx \<Rightarrow> nat \<Rightarrow> mem \<times> mac_ctx" where
  "mlacp_fill_icc_header c msg_len =
     (LDPHdr MSG_T_RG_APP_DATA msg_len (mac_msg_id c) @ ICCRGIDTLV (mac_rg_id c),
      c\<lparr> mac_msg_id := mac_msg_id c + 1 \<rparr>)"

text \<open>
  The send buffer was zeroed before the first entry of a message, so it is represented by the
  bytes up to the end of what was written and is extended with zeros.  \<open>sprintf\<close> of a name that
  does not fit writes past the entry.
\<close>

definition pad :: "nat \<Rightarrow> mem \<Rightarrow> mem" where
  "pad n buf = buf @ replicate (n - length buf) 0"

definition mlacp_prepare_for_mac_info_to_peer ::
    "mac_ctx \<Rightarrow> mem \<Rightarrow> nat \<Rightarrow> MACMsg \<Rightarrow> nat \<Rightarrow> (int \<times> mem \<times> mac_ctx) option" where
  "mlacp_prepare_for_mac_info_to_peer c buf max_buf_size m count =
     (let tlv_len = sizeof_mLACPMACInfoTLV + sizeof_mLACPMACData * (count + 1);
          msg_len = sizeof_ICCHdr + tlv_len;
          off = sizeof_ICCHdr + sizeof_mLACPMACInfoTLV + sizeof_mLACPMACData * count
      in if msg_len > max_buf_size then Some (-1, buf, c)
         else case mlacp_fill_icc_header c msg_len of (hdr, c) \<Rightarrow>
           do { buf \<leftarrow> wrn (pad msg_len buf) 0 hdr;
                let par = ICCParameter TLV_T_MLACP_MAC_INFO (tlv_len - sizeof_ICCParameter);
                buf \<leftarrow> wrn buf (sizeof_ICCHdr + 2) (drop 2 par);
                buf \<leftarrow> wrn buf (sizeof_ICCHdr + sizeof_ICCParameter) (enc16 (of_nat (count + 1)));
                buf \<leftarrow> (if count = 0 then wrn buf sizeof_ICCHdr (take 2 par) else Some buf);
                buf \<leftarrow> wrn buf off ([op_type m, fdb_type m] @ take ETHER_ADDR_LEN (mac_addr m));
                buf \<leftarrow> wrn buf (off + 10) (origin_ifname m @ [0]);
                buf \<leftarrow> wrn buf (off + 8) (enc16 (vid m));
                Some (int msg_len, buf, c) })"

definition iccp_csm_send_mac :: "mem \<Rightarrow> int \<Rightarrow> mac_ctx \<Rightarrow> mac_ctx" where
  "iccp_csm_send_mac buf len c = (if len \<le> 0 then c else c\<lparr> sent := sent c @ [take (nat len) buf] \<rparr>)"

text \<open>
  Body of the loop: the entry is unlinked from the queue, written, and freed when it announces
  a removal and is in the tree no more.
\<close>

definition send_one :: "addr \<Rightarrow> addr list \<Rightarrow> nat \<Rightarrow> mem \<Rightarrow> mac_ctx \<Rightarrow> (int \<times> mem \<times> mac_ctx) option" where
  "send_one a as count buf c =
     do { c \<leftarrow> upd a (\<lambda>m. m\<lparr> in_msg_list := False \<rparr>) (c\<lparr> mac_msg_list := as \<rparr>);
          m \<leftarrow> cells c a;
          (len, buf, c) \<leftarrow> mlacp_prepare_for_mac_info_to_peer c buf CSM_BUFFER_SIZE m count;
          c \<leftarrow> (if op_type m = MAC_SYNC_DEL \<and> a \<notin> set (mac_rb c) then
                  do { r \<leftarrow> RB_FIND c (vid m) (mac_addr m);
                       if r = None then free_mac a c else Some c }
                else Some c);
          Some (len, buf, c) }"

fun send_loop :: "addr list \<Rightarrow> nat \<Rightarrow> int \<Rightarrow> mem \<Rightarrow> mac_ctx \<Rightarrow> mac_ctx option" where
  "send_loop [] count len buf c = Some (if 0 < count then iccp_csm_send_mac buf len c else c)"
| "send_loop (a # as) count len buf c =
     do { (len, buf, c) \<leftarrow> send_one a as count buf c;
          if MAX_MAC_ENTRY_NUM \<le> count + 1
          then send_loop as 0 len [] (iccp_csm_send_mac buf len c)
          else send_loop as (count + 1) len buf c }"

definition mlacp_sync_send_syncMacInfo :: "mac_ctx \<Rightarrow> mac_ctx option" where
  "mlacp_sync_send_syncMacInfo c = send_loop (mac_msg_list c) 0 0 [] c"

definition mlacp_sync_mac :: "mac_ctx \<Rightarrow> mac_ctx option" where
  "mlacp_sync_mac c =
     RB_FOREACH_SAFE (\<lambda>a c.
       do { m \<leftarrow> cells c a;
            if \<not> age_local m then
              do { c \<leftarrow> upd a (\<lambda>m. m\<lparr> op_type := MAC_SYNC_ADD \<rparr>) c; enqueue_mac a c }
            else Some c }) c"

definition mlacp_local_lif_clear_pending_mac :: "ifname \<Rightarrow> mac_ctx \<Rightarrow> mac_ctx option" where
  "mlacp_local_lif_clear_pending_mac name c =
     RB_FOREACH_SAFE (\<lambda>a c.
       do { m \<leftarrow> cells c a;
            if pending_local_del m \<and> origin_ifname m = name then clear_pending a c else Some c }) c"

text \<open>
  \<open>TAILQ_REMOVE\<close> of the macro leaves the links of the entry set; the loop over the tree clears
  them afterwards.
\<close>

fun queue_reinit :: "addr list \<Rightarrow> mac_ctx \<Rightarrow> mac_ctx option" where
  "queue_reinit [] c = Some (c\<lparr> mac_msg_list := [] \<rparr>)"
| "queue_reinit (a # as) c =
     do { m \<leftarrow> cells c a;
          c \<leftarrow> (if op_type m = MAC_SYNC_DEL then free_mac a (c\<lparr> mac_msg_list := as \<rparr>)
                else Some (c\<lparr> mac_msg_list := as \<rparr>));
          queue_reinit as c }"

definition mlacp_mac_msg_queue_reinit :: "mac_ctx \<Rightarrow> mac_ctx option" where
  "mlacp_mac_msg_queue_reinit c =
     do { c \<leftarrow> queue_reinit (mac_msg_list c) c;
          RB_FOREACH_SAFE (\<lambda>a c.
            do { m \<leftarrow> cells c a;
                 if in_msg_list m then upd a (\<lambda>m. m\<lparr> in_msg_list := False \<rparr>) c else Some c }) c }"

end
