(* ===== verification/Iccp_MacSafe.thy ===== *)
theory Iccp_MacSafe
  imports Iccp_Mac
begin

text \<open>
  Memory safety of the MAC handlers.  \<open>mac_inv\<close> says what a well-formed table is; the rules in
  \<open>mac_wp\<close> are proof rules for the accesses to the heap, the tree and the queue, and each handler
  is shown, by following its code with these rules, to meet no freed entry and to leave a
  well-formed table.
\<close>

section \<open>Order of the tree\<close>

lemma memcmp_range: "memcmp x y \<in> {-1, 0, 1}"
  by (induction x y rule: memcmp.induct) auto

lemma memcmp_zero_iff [simp]: "memcmp x y = 0 \<longleftrightarrow> x = y"
  by (induction x y rule: memcmp.induct) auto

lemma memcmp_refl [simp]: "memcmp x x = 0"
  by simp

lemma memcmp_flip: "memcmp y x = - memcmp x y"
  by (induction x y rule: memcmp.induct) auto

lemma memcmp_neg: "memcmp x y < 0 \<longleftrightarrow> memcmp x y = -1"
  using memcmp_range [of x y] by auto

lemma memcmp_pos: "memcmp x y > 0 \<longleftrightarrow> memcmp x y = 1"
  using memcmp_range [of x y] by auto

lemma memcmp_trans: "memcmp x y = -1 \<Longrightarrow> memcmp y z = -1 \<Longrightarrow> memcmp x z = -1"
proof (induction x y arbitrary: z rule: memcmp.induct)
  case (1 x xs y ys)
  then show ?case by (cases z) (auto split: if_splits)
next
  case (2 y ys)
  then show ?case by (cases z) auto
qed auto

lemma MACMsg_compare_zero: "MACMsg_compare m n = 0 \<longleftrightarrow> vid m = vid n \<and> mac_addr m = mac_addr n"
  using memcmp_zero_iff [of "mac_addr m" "mac_addr n"] by (auto simp: MACMsg_compare_def)

lemma MACMsg_compare_range: "MACMsg_compare m n \<in> {-1, 0, 1}"
  by (simp add: MACMsg_compare_def)

lemma MACMsg_compare_flip: "MACMsg_compare n m = - MACMsg_compare m n"
  using memcmp_flip [of "mac_addr n" "mac_addr m"] by (auto simp: MACMsg_compare_def)

lemma MACMsg_compare_less:
  "MACMsg_compare m n = -1 \<longleftrightarrow>
     vid m < vid n \<or> vid m = vid n \<and> memcmp (mac_addr m) (mac_addr n) = -1"
  by (auto simp: MACMsg_compare_def memcmp_neg)

lemma MACMsg_compare_trans:
  "MACMsg_compare l m = -1 \<Longrightarrow> MACMsg_compare m n = -1 \<Longrightarrow> MACMsg_compare l n = -1"
  by (auto simp: MACMsg_compare_less intro: memcmp_trans)

text \<open>The comparison depends on the key of the entries only.\<close>

lemma MACMsg_compare_key:
  "vid m = vid m' \<Longrightarrow> mac_addr m = mac_addr m' \<Longrightarrow> vid n = vid n' \<Longrightarrow> mac_addr n = mac_addr n' \<Longrightarrow>
   MACMsg_compare m n = MACMsg_compare m' n'"
  by (simp add: MACMsg_compare_def)

section \<open>Well-formed tables\<close>

definition name_ok :: "ifname \<Rightarrow> bool" where
  "name_ok n \<longleftrightarrow> length n < MAX_L_PORT_NAME \<and> 0 \<notin> set n"

definition entry_ok :: "MACMsg \<Rightarrow> bool" where
  "entry_ok m \<longleftrightarrow> length (mac_addr m) = ETHER_ADDR_LEN \<and> name_ok (ifname m) \<and> name_ok (origin_ifname m)"

definition before :: "(addr \<Rightarrow> MACMsg option) \<Rightarrow> addr \<Rightarrow> addr \<Rightarrow> bool" where
  "before h a b \<longleftrightarrow> MACMsg_compare (the (h a)) (the (h b)) = -1"

text \<open>
  The tree and the queue hold live entries, the tree is strictly ordered by its keys, no entry is
  queued twice, the links of an entry say whether it is queued, and a peer link is configured.
\<close>

definition mac_inv :: "mac_ctx \<Rightarrow> bool" where
  "mac_inv c \<longleftrightarrow>
     (\<forall>a \<in> set (mac_rb c) \<union> set (mac_msg_list c). cells c a \<noteq> None) \<and>
     sorted_wrt (before (cells c)) (mac_rb c) \<and>
     distinct (mac_msg_list c) \<and>
     (\<forall>a m. cells c a = Some m \<longrightarrow>
        a < brk c \<and> entry_ok m \<and> (in_msg_list m \<longleftrightarrow> a \<in> set (mac_msg_list c))) \<and>
     name_ok (peer_itf c) \<and> peer_itf c \<noteq> []"

lemma mac_inv_live: "mac_inv c \<Longrightarrow> a \<in> set (mac_rb c) \<Longrightarrow> \<exists>m. cells c a = Some m \<and> entry_ok m"
  by (fastforce simp: mac_inv_def)

lemma before_irrefl [simp]: "\<not> before h a a"
  by (simp add: before_def MACMsg_compare_def)

lemma before_trans: "before h a b \<Longrightarrow> before h b d \<Longrightarrow> before h a d"
  by (auto simp: before_def intro: MACMsg_compare_trans)

lemma before_distinct: "sorted_wrt (before h) as \<Longrightarrow> distinct as"
  by (induction as) auto

lemma rb_distinct: "mac_inv c \<Longrightarrow> distinct (mac_rb c)"
  by (auto simp: mac_inv_def intro: before_distinct)

section \<open>Handlers keep the tables well-formed\<close>

text \<open>
  \<open>wp r P\<close>: the computation meets no freed entry and its result satisfies \<open>P\<close>.  The rules below
  are the proof rules of the accesses the handlers are made of.
\<close>

definition wp :: "'a option \<Rightarrow> ('a \<Rightarrow> bool) \<Rightarrow> bool" where
  "wp r P \<longleftrightarrow> (\<exists>x. r = Some x \<and> P x)"

named_theorems mac_wp

lemma wp_bind [mac_wp]: "wp r (\<lambda>x. wp (g x) P) \<Longrightarrow> wp (r \<bind> g) P"
  by (auto simp: wp_def)

lemma wp_if [mac_wp]: "(b \<Longrightarrow> wp x P) \<Longrightarrow> (\<not> b \<Longrightarrow> wp y P) \<Longrightarrow> wp (if b then x else y) P"
  by simp

lemma wp_option [mac_wp]:
  "(x = None \<Longrightarrow> wp r P) \<Longrightarrow> (\<And>y. x = Some y \<Longrightarrow> wp (g y) P) \<Longrightarrow> wp (case x of None \<Rightarrow> r | Some y \<Rightarrow> g y) P"
  by (cases x) simp_all

lemma wp_mono: "wp r P \<Longrightarrow> (\<And>x. P x \<Longrightarrow> Q x) \<Longrightarrow> wp r Q"
  by (auto simp: wp_def)

text \<open>
  States in the body of a loop over the tree \<open>rb\<close>: the entry \<open>a\<close> is in the tree; it was taken out
  but is still live; the body is done.
\<close>

definition at :: "addr \<Rightarrow> addr list \<Rightarrow> mac_ctx \<Rightarrow> bool" where
  "at a rb c \<longleftrightarrow> mac_inv c \<and> mac_rb c = rb \<and> a \<in> set rb"

definition out :: "addr \<Rightarrow> addr list \<Rightarrow> mac_ctx \<Rightarrow> bool" where
  "out a rb c \<longleftrightarrow> mac_inv c \<and> set (mac_rb c) = set rb - {a} \<and> cells c a \<noteq> None"

definition handled :: "addr \<Rightarrow> addr list \<Rightarrow> mac_ctx \<Rightarrow> bool" where
  "handled a rb c \<longleftrightarrow> mac_inv c \<and> set rb - {a} \<subseteq> set (mac_rb c)"

definition key_kept :: "(MACMsg \<Rightarrow> MACMsg) \<Rightarrow> bool" where
  "key_kept f \<longleftrightarrow> (\<forall>m. entry_ok m \<longrightarrow> entry_ok (f m) \<and> vid (f m) = vid m \<and> mac_addr (f m) = mac_addr m \<and>
     in_msg_list (f m) = in_msg_list m)"

lemma sorted_wrt_before_cong:
  "sorted_wrt (before h) as \<Longrightarrow>
   (\<And>a. a \<in> set as \<Longrightarrow> vid (the (h' a)) = vid (the (h a)) \<and> mac_addr (the (h' a)) = mac_addr (the (h a))) \<Longrightarrow>
   sorted_wrt (before h') as"
  using sorted_wrt_mono_rel [of as "before h" "before h'"] MACMsg_compare_key
  unfolding before_def by metis

lemma upd_cell_inv:
  assumes inv: "mac_inv c" and m: "cells c a = Some m" and ok: "entry_ok m'" "in_msg_list m' = in_msg_list m"
    and key: "vid m' = vid m" "mac_addr m' = mac_addr m"
  shows "mac_inv (c\<lparr> cells := (cells c)(a \<mapsto> m') \<rparr>)"
proof -
  have "sorted_wrt (before (cells c)) (mac_rb c)" using inv by (simp add: mac_inv_def)
  then have "sorted_wrt (before ((cells c)(a \<mapsto> m'))) (mac_rb c)"
    by (rule sorted_wrt_before_cong) (simp add: m key)
  moreover have "a < brk c" "in_msg_list m \<longleftrightarrow> a \<in> set (mac_msg_list c)"
    using inv m by (auto simp: mac_inv_def)
  ultimately show ?thesis using inv ok by (simp add: mac_inv_def)
qed

lemma upd_inv:
  assumes "mac_inv c" "cells c a = Some m" "key_kept f"
  shows "mac_inv (c\<lparr> cells := (cells c)(a \<mapsto> f m) \<rparr>)"
proof -
  have "entry_ok m" using assms(1,2) by (simp add: mac_inv_def)
  then show ?thesis using assms by (intro upd_cell_inv) (simp_all add: key_kept_def)
qed

lemma at_live: "at a rb c \<Longrightarrow> \<exists>m. cells c a = Some m \<and> entry_ok m"
  by (auto simp: at_def dest: mac_inv_live)

lemma at_peer_itf: "at a rb c \<Longrightarrow> peer_itf c \<noteq> [] \<and> name_ok (peer_itf c)"
  by (simp add: at_def mac_inv_def)

lemma wp_read [mac_wp]: "at a rb c \<Longrightarrow> (\<And>m. cells c a = Some m \<Longrightarrow> entry_ok m \<Longrightarrow> P m) \<Longrightarrow> wp (cells c a) P"
  using at_live by (fastforce simp: wp_def)

lemma wp_upd [mac_wp]: "at a rb c \<Longrightarrow> key_kept f \<Longrightarrow> (\<And>c'. at a rb c' \<Longrightarrow> P c') \<Longrightarrow> wp (upd a f c) P"
proof -
  assume a: "at a rb c" and f: "key_kept f" and P: "\<And>c'. at a rb c' \<Longrightarrow> P c'"
  obtain m where m: "cells c a = Some m" using at_live [OF a] by blast
  have "at a rb (c\<lparr> cells := (cells c)(a \<mapsto> f m) \<rparr>)" using a m f by (simp add: at_def upd_inv)
  then show ?thesis using P m by (simp add: wp_def upd_def)
qed

lemma upd_list_inv:
  assumes inv: "mac_inv c" and m: "cells c a = Some m" and q: "\<not> in_msg_list m"
  shows "mac_inv (c\<lparr> mac_msg_list := mac_msg_list c @ [a], cells := (cells c)(a \<mapsto> m\<lparr> in_msg_list := True \<rparr>) \<rparr>)"
proof -
  have "sorted_wrt (before (cells c)) (mac_rb c)" using inv by (simp add: mac_inv_def)
  then have "sorted_wrt (before ((cells c)(a \<mapsto> m\<lparr> in_msg_list := True \<rparr>))) (mac_rb c)"
    by (rule sorted_wrt_before_cong) (simp add: m)
  moreover have "a < brk c" "entry_ok m" "a \<notin> set (mac_msg_list c)"
    using inv m q by (auto simp: mac_inv_def)
  moreover have "entry_ok (m\<lparr> in_msg_list := True \<rparr>) = entry_ok m" by (simp add: entry_ok_def)
  ultimately show ?thesis using inv by (simp add: mac_inv_def)
qed

lemma wp_enqueue [mac_wp]: "at a rb c \<Longrightarrow> (\<And>c'. at a rb c' \<Longrightarrow> P c') \<Longrightarrow> wp (enqueue_mac a c) P"
proof -
  assume a: "at a rb c" and P: "\<And>c'. at a rb c' \<Longrightarrow> P c'"
  obtain m where m: "cells c a = Some m" using at_live [OF a] by blast
  have "at a rb (c\<lparr> mac_msg_list := mac_msg_list c @ [a], cells := (cells c)(a \<mapsto> m\<lparr> in_msg_list := True \<rparr>) \<rparr>)"
    if "\<not> in_msg_list m" using a m that by (simp add: at_def upd_list_inv)
  then show ?thesis using P [OF a] P m by (simp add: wp_def upd_def enqueue_mac_def)
qed

lemma wp_Some [mac_wp]: "P x \<Longrightarrow> wp (Some x) P"
  by (simp add: wp_def)

lemma mac_inv_out [simp]:
  "mac_inv (c\<lparr> fdb_out := x \<rparr>) = mac_inv c" "mac_inv (c\<lparr> sent := y \<rparr>) = mac_inv c"
  "mac_inv (c\<lparr> mac_msg_id := z \<rparr>) = mac_inv c" "mac_inv (c\<lparr> lifs := ls \<rparr>) = mac_inv c"
  by (simp_all add: mac_inv_def)

lemma send_fdb_entry:
  "\<exists>b fdb. iccp_send_fdb_entry_to_syncd m ty oper c = (m\<lparr> add_to_syncd := b \<rparr>, c\<lparr> fdb_out := fdb \<rparr>)"
proof (cases "null_mac (mac_addr m)")
  case True
  then show ?thesis
    by (intro exI [of _ "add_to_syncd m"] exI [of _ "fdb_out c"]) (simp add: iccp_send_fdb_entry_to_syncd_def)
next
  case False
  then show ?thesis
    by (intro exI [of _ "oper \<noteq> MAC_SYNC_DEL"]
          exI [of _ "fdb_out (snd (iccp_send_fdb_entry_to_syncd m ty oper c))"])
       (simp add: iccp_send_fdb_entry_to_syncd_def)
qed

lemma wp_chip:
  assumes "at a rb c" "\<And>m c. \<exists>b fdb. f m c = (m\<lparr> add_to_syncd := b \<rparr>, c\<lparr> fdb_out := fdb \<rparr>)"
    "\<And>c'. at a rb c' \<Longrightarrow> P c'"
  shows "wp (chip f a c) P"
proof -
  obtain m where m: "cells c a = Some m" using at_live [OF assms(1)] by blast
  obtain b fdb where f: "f m c = (m\<lparr> add_to_syncd := b \<rparr>, c\<lparr> fdb_out := fdb \<rparr>)" using assms(2) by blast
  let ?c = "c\<lparr> fdb_out := fdb, cells := (cells c)(a \<mapsto> m\<lparr> add_to_syncd := b \<rparr>) \<rparr>"
  have "mac_inv ?c"
    using upd_inv [of "c\<lparr> fdb_out := fdb \<rparr>" a m "\<lambda>m. m\<lparr> add_to_syncd := b \<rparr>"] assms(1) m
    by (simp add: at_def key_kept_def entry_ok_def)
  then show ?thesis using assms(1,3) m f by (simp add: chip_def wp_def upd_def at_def)
qed

lemma wp_add_chip [mac_wp]: "at a rb c \<Longrightarrow> (\<And>c'. at a rb c' \<Longrightarrow> P c') \<Longrightarrow> wp (add_chip a c) P"
  unfolding add_chip_def add_mac_to_chip_def by (rule wp_chip) (auto intro: send_fdb_entry)

lemma wp_add_chip_type [mac_wp]:
  "at a rb c \<Longrightarrow> (\<And>c'. at a rb c' \<Longrightarrow> P c') \<Longrightarrow> wp (chip (add_mac_to_chip ty) a c) P"
  unfolding add_mac_to_chip_def by (rule wp_chip) (auto intro: send_fdb_entry)

lemma wp_add_chip_local [mac_wp]: "at a rb c \<Longrightarrow> (\<And>c'. at a rb c' \<Longrightarrow> P c') \<Longrightarrow> wp (add_chip_local a c) P"
  unfolding add_chip_local_def by (rule wp_add_chip_type)

lemma wp_del_chip [mac_wp]: "at a rb c \<Longrightarrow> (\<And>c'. at a rb c' \<Longrightarrow> P c') \<Longrightarrow> wp (del_chip a c) P"
  unfolding del_chip_def del_mac_from_chip_def by (rule wp_chip) (auto intro: send_fdb_entry)

lemma at_sent [simp]: "at a rb (snd (add_mac_to_chip ty m c)) = at a rb c" "at a rb (snd (del_mac_from_chip m c)) = at a rb c"
  by (simp_all add: add_mac_to_chip_def del_mac_from_chip_def iccp_send_fdb_entry_to_syncd_def at_def)

lemma wp_age [mac_wp]: "at a rb c \<Longrightarrow> (\<And>c'. at a rb c' \<Longrightarrow> P c') \<Longrightarrow> wp (set_mac_local_age_flag a st up c) P"
  unfolding set_mac_local_age_flag_def
  by (intro mac_wp | assumption | simp add: key_kept_def entry_ok_def)+

lemma wp_remove [mac_wp]:
  assumes "at a rb c" "\<And>c'. out a rb c' \<Longrightarrow> P c'"
  shows "wp (MAC_RB_REMOVE a c) P"
proof -
  have inv: "mac_inv c" and rb: "mac_rb c = rb" and a: "a \<in> set rb" using assms(1) by (auto simp: at_def)
  obtain m where m: "cells c a = Some m" using at_live [OF assms(1)] by blast
  have "sorted_wrt (before (cells c)) (remove1 a rb)" "distinct rb"
    using inv rb rb_distinct [OF inv] by (auto simp: mac_inv_def distinct_remove1_removeAll
        removeAll_filter_not_eq sorted_wrt_filter)
  then have "out a rb (c\<lparr> mac_rb := remove1 a rb \<rparr>)"
    using inv rb m by (auto simp: out_def mac_inv_def dest: set_remove1_subset [THEN subsetD])
  then show ?thesis using assms(2) m rb by (simp add: wp_def MAC_RB_REMOVE_def)
qed

lemma wp_upd_out: "out a rb c \<Longrightarrow> key_kept f \<Longrightarrow> (\<And>c'. out a rb c' \<Longrightarrow> P c') \<Longrightarrow> wp (upd a f c) P"
proof -
  assume a: "out a rb c" and f: "key_kept f" and P: "\<And>c'. out a rb c' \<Longrightarrow> P c'"
  obtain m where m: "cells c a = Some m" using a by (auto simp: out_def)
  have "out a rb (c\<lparr> cells := (cells c)(a \<mapsto> f m) \<rparr>)" using a m f by (simp add: out_def upd_inv)
  then show ?thesis using P m by (simp add: wp_def upd_def)
qed

lemma out_handled: "out a rb c \<Longrightarrow> handled a rb c"
  by (simp add: out_def handled_def)

lemma at_handled [intro]: "at a rb c \<Longrightarrow> handled a rb c"
  by (auto simp: at_def handled_def)

lemma free_inv:
  assumes inv: "mac_inv c" and a: "a \<notin> set (mac_rb c)" "a \<notin> set (mac_msg_list c)"
  shows "mac_inv (c\<lparr> cells := (cells c)(a := None) \<rparr>)"
proof -
  have "sorted_wrt (before (cells c)) (mac_rb c)" using inv by (simp add: mac_inv_def)
  then have "sorted_wrt (before ((cells c)(a := None))) (mac_rb c)"
    by (rule sorted_wrt_before_cong) (use a in auto)
  then show ?thesis using inv a by (auto simp: mac_inv_def)
qed

lemma wp_free: "out a rb c \<Longrightarrow> (\<And>c'. handled a rb c' \<Longrightarrow> P c') \<Longrightarrow> wp (free_unless_queued a c) P"
proof -
  assume o1: "out a rb c" and P: "\<And>c'. handled a rb c' \<Longrightarrow> P c'"
  obtain m where m: "cells c a = Some m" using o1 by (auto simp: out_def)
  have q: "in_msg_list m \<longleftrightarrow> a \<in> set (mac_msg_list c)" using o1 m by (auto simp: out_def mac_inv_def)
  have "handled a rb (c\<lparr> cells := (cells c)(a := None) \<rparr>)" if "a \<notin> set (mac_msg_list c)"
    using o1 that out_handled [OF o1] by (auto simp: handled_def out_def intro: free_inv)
  then show ?thesis using m q P out_handled [OF o1]
    by (auto simp: free_unless_queued_def free_mac_def wp_def)
qed

lemma wp_drop [mac_wp]: "at a rb c \<Longrightarrow> (\<And>c'. handled a rb c' \<Longrightarrow> P c') \<Longrightarrow> wp (drop_mac a c) P"
  unfolding drop_mac_def by (intro wp_bind wp_remove) (auto intro: wp_free)

lemma key_kept_fields [mac_wp]:
  "key_kept (\<lambda>m. m\<lparr> op_type := t \<rparr>)" "key_kept (\<lambda>m. m\<lparr> pending_local_del := p \<rparr>)"
  "key_kept (\<lambda>m. m\<lparr> age_peer := y \<rparr>)" "key_kept (\<lambda>m. m\<lparr> age_local := x, age_peer := y \<rparr>)"
  "key_kept (\<lambda>m. m\<lparr> pending_local_del := p, ifname := origin_ifname m \<rparr>)"
  "key_kept (\<lambda>m. m\<lparr> pending_local_del := p, age_local := x, age_peer := y, op_type := t \<rparr>)"
  "name_ok n \<Longrightarrow> key_kept (\<lambda>m. m\<lparr> ifname := n \<rparr>)"
  "name_ok n \<Longrightarrow> key_kept (\<lambda>m. m\<lparr> origin_ifname := n \<rparr>)"
  "name_ok n \<Longrightarrow> key_kept (\<lambda>m. m\<lparr> pending_local_del := p, fdb_type := t, origin_ifname := n \<rparr>)"
  "name_ok n \<Longrightarrow> key_kept (\<lambda>m. m\<lparr> fdb_type := t, ifname := n, origin_ifname := n \<rparr>)"
  by (simp_all add: key_kept_def entry_ok_def)

lemma key_kept_peer_link [mac_wp]: "at a rb c \<Longrightarrow> key_kept (to_peer_link c)"
  by (auto simp: key_kept_def entry_ok_def to_peer_link_def dest: at_peer_itf)

lemma wp_at_handled [mac_wp]: "at a rb c \<Longrightarrow> handled a rb c"
  by (rule at_handled)

text \<open>A loop over the tree keeps the tables well-formed when its body does.\<close>

lemma wp_foreach:
  assumes body: "\<And>a rb c. at a rb c \<Longrightarrow> wp (f a c) (handled a rb)"
  shows "mac_inv c \<Longrightarrow> distinct as \<Longrightarrow> set as \<subseteq> set (mac_rb c) \<Longrightarrow> wp (foreach f as c) mac_inv"
proof (induction as arbitrary: c)
  case (Cons a as)
  then have "wp (f a c) (handled a (mac_rb c))" by (intro body) (simp add: at_def)
  then have "wp (f a c) (\<lambda>c. mac_inv c \<and> set as \<subseteq> set (mac_rb c))"
    by (rule wp_mono) (use Cons.prems in \<open>auto simp: handled_def\<close>)
  then show ?case using Cons by (auto simp: wp_def)
qed (simp add: wp_def)

lemma wp_RB_FOREACH_SAFE [mac_wp]:
  "(\<And>a rb c. at a rb c \<Longrightarrow> wp (f a c) (handled a rb)) \<Longrightarrow> mac_inv c \<Longrightarrow> wp (RB_FOREACH_SAFE f c) mac_inv"
  unfolding RB_FOREACH_SAFE_def by (rule wp_foreach) (auto intro: rb_distinct)

lemma wp_clear_pending [mac_wp]: "at a rb c \<Longrightarrow> wp (clear_pending a c) (handled a rb)"
  unfolding clear_pending_def
  by (assumption | rule mac_wp wp_upd_out wp_free)+

lemma wp_po_down [mac_wp]: "at a rb c \<Longrightarrow> wp (po_down_mac name pif a c) (handled a rb)"
  unfolding po_down_mac_def
  by (assumption | rule mac_wp)+

lemma wp_po_up [mac_wp]: "at a rb c \<Longrightarrow> wp (po_up_mac name a c) (handled a rb)"
  unfolding po_up_mac_def
  by (assumption | rule mac_wp)+

lemma update_l2_mac_state_inv: "mac_inv c \<Longrightarrow> wp (update_l2_mac_state name st c) mac_inv"
  unfolding update_l2_mac_state_def Let_def set_po_down_time_def
  by (rule wp_RB_FOREACH_SAFE) (auto intro: mac_wp)

lemma update_orphan_port_mac_inv: "mac_inv c \<Longrightarrow> wp (update_orphan_port_mac name st c) mac_inv"
  unfolding update_orphan_port_mac_def
  by (assumption | rule mac_wp)+

lemma convert_remote_mac_inv: "mac_inv c \<Longrightarrow> wp (mlacp_convert_remote_mac_to_local name c) mac_inv"
  unfolding mlacp_convert_remote_mac_to_local_def
  by (cases "local_if_find_by_name c name"; simp only: option.case;
      (assumption | rule mac_wp)+)

lemma remote_macs_to_peerlink_inv: "mac_inv c \<Longrightarrow> wp (update_remote_macs_to_peerlink name c) mac_inv"
  unfolding update_remote_macs_to_peerlink_def
  by (assumption | rule mac_wp)+

lemma peer_disconn_inv: "mac_inv c \<Longrightarrow> wp (mlacp_peer_disconn_fdb_handler c) mac_inv"
  unfolding mlacp_peer_disconn_fdb_handler_def
  by (assumption | rule mac_wp)+

lemma peerlink_up_inv: "mac_inv c \<Longrightarrow> wp (mlacp_peerlink_up_handler c) mac_inv"
  unfolding mlacp_peerlink_up_handler_def
  by (assumption | rule mac_wp)+

lemma peerlink_down_inv: "mac_inv c \<Longrightarrow> wp (mlacp_peerlink_down_handler c) mac_inv"
  unfolding mlacp_peerlink_down_handler_def
  by (assumption | rule mac_wp)+

lemma sync_mac_inv: "mac_inv c \<Longrightarrow> wp (mlacp_sync_mac c) mac_inv"
  unfolding mlacp_sync_mac_def
  by (assumption | rule mac_wp)+

lemma lif_clear_pending_inv: "mac_inv c \<Longrightarrow> wp (mlacp_local_lif_clear_pending_mac name c) mac_inv"
  unfolding mlacp_local_lif_clear_pending_mac_def
  by (assumption | rule mac_wp)+

section \<open>Handlers that add entries\<close>

lemma wp_RB_FIND:
  assumes inv: "mac_inv c"
    and none: "(\<And>a m. a \<in> set (mac_rb c) \<Longrightarrow> cells c a = Some m \<Longrightarrow> \<not> (vid m = v \<and> mac_addr m = mac)) \<Longrightarrow> P None"
    and some: "\<And>a m. at a (mac_rb c) c \<Longrightarrow> cells c a = Some m \<Longrightarrow> vid m = v \<Longrightarrow> mac_addr m = mac \<Longrightarrow> P (Some a)"
  shows "wp (RB_FIND c v mac) P"
proof -
  let ?r = "find (\<lambda>a. MACMsg_compare (the (cells c a)) (MACMsg_zero\<lparr> vid := v, mac_addr := mac \<rparr>) = 0) (mac_rb c)"
  have r: "RB_FIND c v mac = Some ?r"
    using inv by (auto simp: RB_FIND_def mac_inv_def list_all_iff)
  have "P ?r"
  proof (cases ?r)
    case None
    then have no: "\<not> (vid (the (cells c a)) = v \<and> mac_addr (the (cells c a)) = mac)" if "a \<in> set (mac_rb c)" for a
      using that by (auto simp: find_None_iff MACMsg_compare_zero)
    have "P None"
    proof (rule none)
      fix a m assume "a \<in> set (mac_rb c)" "cells c a = Some m"
      then show "\<not> (vid m = v \<and> mac_addr m = mac)" using no [of a] by simp
    qed
    then show ?thesis using None by simp
  next
    case (Some a)
    then have "a \<in> set (mac_rb c)" "vid (the (cells c a)) = v" "mac_addr (the (cells c a)) = mac"
      by (auto simp: find_Some_iff MACMsg_compare_zero)
    moreover obtain m where "cells c a = Some m" using mac_inv_live [OF inv] calculation(1) by blast
    ultimately show ?thesis using Some some [of a m] inv by (simp add: at_def)
  qed
  then show ?thesis using r by (simp add: wp_def)
qed

lemma before_upd_other:
  "a \<notin> set bs \<Longrightarrow> sorted_wrt (before h) bs \<Longrightarrow> sorted_wrt (before (h(a \<mapsto> m))) bs"
  by (erule sorted_wrt_before_cong) auto

lemma rb_place_sorted:
  "sorted_wrt (before h) bs \<Longrightarrow> h a = Some m \<Longrightarrow> \<forall>b \<in> set bs. h b \<noteq> None \<and> MACMsg_compare m (the (h b)) \<noteq> 0 \<Longrightarrow>
   \<exists>r. rb_place h a m bs = Some r \<and> set r = insert a (set bs) \<and> sorted_wrt (before h) r"
proof (induction bs)
  case (Cons b bs)
  then obtain n where n: "h b = Some n" "MACMsg_compare m n \<noteq> 0" by auto
  obtain r where r: "rb_place h a m bs = Some r" "set r = insert a (set bs)" "sorted_wrt (before h) r"
    using Cons by auto
  show ?case
  proof (cases "MACMsg_compare m n < 0")
    case True
    then have "before h a b" using n Cons.prems(2) MACMsg_compare_range [of m n] by (auto simp: before_def)
    then show ?thesis using Cons.prems n True by (auto simp: Let_def intro: before_trans)
  next
    case False
    then have "MACMsg_compare n m = -1"
      using n MACMsg_compare_range [of m n] MACMsg_compare_flip [of n m] by auto
    then have "before h b a" using n Cons.prems(2) by (simp add: before_def)
    then show ?thesis using Cons.prems n False r by (auto simp: Let_def)
  qed
qed simp

lemma brk_fresh: "mac_inv c \<Longrightarrow> cells c (brk c) = None"
  unfolding mac_inv_def by (metis less_irrefl option.exhaust)

text \<open>A new entry whose key is not in the table.\<close>

lemma insert_new:
  assumes inv: "mac_inv c" and m: "entry_ok m" "\<not> in_msg_list m"
    and key: "\<And>a n. a \<in> set (mac_rb c) \<Longrightarrow> cells c a = Some n \<Longrightarrow> \<not> (vid n = vid m \<and> mac_addr n = mac_addr m)"
  shows "\<exists>rb. RB_INSERT (brk c) (c\<lparr> cells := (cells c)(brk c \<mapsto> m), brk := brk c + 1 \<rparr>) =
           Some (c\<lparr> cells := (cells c)(brk c \<mapsto> m), brk := brk c + 1, mac_rb := rb \<rparr>) \<and>
         set rb = insert (brk c) (set (mac_rb c)) \<and>
         at (brk c) rb (c\<lparr> cells := (cells c)(brk c \<mapsto> m), brk := brk c + 1, mac_rb := rb \<rparr>)"
proof -
  let ?h = "(cells c)(brk c \<mapsto> m)"
  have live: "\<forall>b \<in> set (mac_rb c) \<union> set (mac_msg_list c). cells c b \<noteq> None \<and> b \<noteq> brk c"
    using inv brk_fresh [OF inv] by (auto simp: mac_inv_def)
  have s0: "sorted_wrt (before (cells c)) (mac_rb c)" using inv by (simp add: mac_inv_def)
  have s: "sorted_wrt (before ?h) (mac_rb c)" by (rule before_upd_other [OF _ s0]) (use live in blast)
  have "\<forall>b \<in> set (mac_rb c). ?h b \<noteq> None \<and> MACMsg_compare m (the (?h b)) \<noteq> 0"
  proof
    fix b assume b: "b \<in> set (mac_rb c)"
    then obtain n where "cells c b = Some n" "b \<noteq> brk c" using live by auto
    then show "?h b \<noteq> None \<and> MACMsg_compare m (the (?h b)) \<noteq> 0"
      using key [OF b] by (auto simp: MACMsg_compare_zero)
  qed
  then obtain rb where rb: "rb_place ?h (brk c) m (mac_rb c) = Some rb"
      "set rb = insert (brk c) (set (mac_rb c))" "sorted_wrt (before ?h) rb"
    using rb_place_sorted [OF s, of "brk c" m] by auto
  have cell: "\<forall>a n. cells c a = Some n \<longrightarrow> a < brk c + 1 \<and> entry_ok n \<and> (in_msg_list n \<longleftrightarrow> a \<in> set (mac_msg_list c))"
    using inv by (auto simp: mac_inv_def less_Suc_eq)
  have "mac_inv (c\<lparr> cells := ?h, brk := brk c + 1, mac_rb := rb \<rparr>)"
    using inv rb(2,3) m live cell unfolding mac_inv_def by auto
  then show ?thesis using rb by (intro exI [of _ rb]) (simp add: RB_INSERT_def at_def)
qed

lemma at_chip_stack [mac_wp]:
  "at a rb c \<Longrightarrow> at a rb (snd (add_mac_to_chip ty m c))" "at a rb c \<Longrightarrow> at a rb (snd (del_mac_from_chip m c))"
  by simp_all

lemma inv_chip_stack [simp]:
  "mac_inv (snd (add_mac_to_chip ty m c)) = mac_inv c" "mac_inv (snd (del_mac_from_chip m c)) = mac_inv c"
  by (simp_all add: add_mac_to_chip_def del_mac_from_chip_def iccp_send_fdb_entry_to_syncd_def)

lemma wp_syncd_add_existing:
  "at a rb c \<Longrightarrow> name_ok (ifname msg) \<Longrightarrow> wp (syncd_add_existing msg l frm pif a c) (handled a rb)"
  unfolding syncd_add_existing_def
  by (assumption | rule mac_wp)+

lemma wp_syncd_del: "at a rb c \<Longrightarrow> wp (syncd_del l a c) (handled a rb)"
  unfolding syncd_del_def
  by (assumption | rule mac_wp)+

lemma handled_inv: "wp r (handled a rb) \<Longrightarrow> wp r mac_inv"
  by (erule wp_mono) (simp add: handled_def)

lemma wp_syncd_add_new:
  assumes inv: "mac_inv c" and m: "entry_ok msg" "\<not> in_msg_list msg"
    and key: "\<And>a n. a \<in> set (mac_rb c) \<Longrightarrow> cells c a = Some n \<Longrightarrow> \<not> (vid n = vid msg \<and> mac_addr n = mac_addr msg)"
  shows "wp (syncd_add_new msg l frm pif c) mac_inv"
proof -
  let ?m = "msg\<lparr> age_peer := True, op_type := MAC_SYNC_ADD \<rparr>"
  have m': "entry_ok ?m" "\<not> in_msg_list ?m" using m by (simp_all add: entry_ok_def)
  obtain rb where rb: "RB_INSERT (brk c) (c\<lparr> cells := (cells c)(brk c \<mapsto> ?m), brk := brk c + 1 \<rparr>) =
      Some (c\<lparr> cells := (cells c)(brk c \<mapsto> ?m), brk := brk c + 1, mac_rb := rb \<rparr>)"
    "at (brk c) rb (c\<lparr> cells := (cells c)(brk c \<mapsto> ?m), brk := brk c + 1, mac_rb := rb \<rparr>)"
    using insert_new [OF inv m'] key by auto
  let ?c = "c\<lparr> cells := (cells c)(brk c \<mapsto> ?m), brk := brk c + 1, mac_rb := rb \<rparr>"
  have i: "mac_inv ?c" using rb(2) by (simp add: at_def)
  have q: "mac_inv (?c\<lparr> mac_msg_list := mac_msg_list c @ [brk c],
             cells := (cells ?c)(brk c \<mapsto> ?m\<lparr> in_msg_list := True \<rparr>) \<rparr>)"
    using upd_list_inv [OF i, of "brk c" ?m] m(2) by simp
  show ?thesis unfolding syncd_add_new_def Let_def iccp_csm_init_mac_msg_def
    using inv rb(1) i q by (auto simp: wp_def upd_def)
qed

lemma do_mac_update_from_syncd_inv:
  assumes inv: "mac_inv c" and mac: "length mac = ETHER_ADDR_LEN" and name: "name_ok name"
  shows "wp (do_mac_update_from_syncd mac v name ty oper c) mac_inv"
proof (cases "null_mac mac")
  case False
  let ?m = "MACMsg_zero\<lparr> op_type := oper, fdb_type := ty, mac_addr := mac, vid := v,
              ifname := name, origin_ifname := name \<rparr>"
  have m: "entry_ok ?m" "\<not> in_msg_list ?m" "name_ok (ifname ?m)"
    using mac name by (simp_all add: entry_ok_def MACMsg_zero_def)
  have short: "\<not> MAX_L_PORT_NAME \<le> length name" using name by (simp add: name_ok_def)
  have add: "wp (case r of Some a \<Rightarrow> syncd_add_existing ?m l frm pif a c | None \<Rightarrow> syncd_add_new ?m l frm pif c) mac_inv"
    if "r = None \<Longrightarrow> (\<And>a n. a \<in> set (mac_rb c) \<Longrightarrow> cells c a = Some n \<Longrightarrow> \<not> (vid n = v \<and> mac_addr n = mac))"
      "\<And>a. r = Some a \<Longrightarrow> at a (mac_rb c) c" for r l frm pif
    using that by (intro wp_option handled_inv [OF wp_syncd_add_existing [OF _ m(3)]] wp_syncd_add_new [OF inv m(1,2)])
      auto
  have del: "wp (case r of Some a \<Rightarrow> syncd_del l a c | None \<Rightarrow> Some c) mac_inv"
    if "\<And>a. r = Some a \<Longrightarrow> at a (mac_rb c) c" for r l
    using that by (intro wp_option handled_inv [OF wp_syncd_del] wp_Some inv)
  show ?thesis unfolding do_mac_update_from_syncd_def Let_def if_not_P [OF False] if_not_P [OF short]
    by (intro wp_bind wp_RB_FIND [OF inv] wp_if wp_option [of "local_if_find_by_name c name"] wp_Some inv add del) auto
qed (simp add: do_mac_update_from_syncd_def inv wp_Some)

lemma wp_redirect [mac_wp]: "at a rb c \<Longrightarrow> wp (redirect_existing a c) (handled a rb)"
  unfolding redirect_existing_def
  by (assumption | rule mac_wp)+

lemma wp_peer_del: "at a rb c \<Longrightarrow> wp (peer_del a c) (handled a rb)"
  unfolding peer_del_def
  by (assumption | rule mac_wp)+

lemma wp_peer_link_set:
  "at a rb c \<Longrightarrow> wp x P \<Longrightarrow> wp (if peer_itf c \<noteq> [] then x else y) P"
  using at_peer_itf by simp

lemma wp_peer_add_existing:
  "at a rb c \<Longrightarrow> name_ok (md_ifname d) \<Longrightarrow> wp (peer_add_existing d l a c) (handled a rb)"
  unfolding peer_add_existing_def
  by (assumption | rule wp_peer_link_set mac_wp)+

lemma wp_peer_store:
  assumes inv: "mac_inv c" and m: "entry_ok m" "\<not> in_msg_list m" and l: "l = None \<Longrightarrow> ifname m = peer_itf c"
    and key: "\<And>a n. a \<in> set (mac_rb c) \<Longrightarrow> cells c a = Some n \<Longrightarrow> \<not> (vid n = vid m \<and> mac_addr n = mac_addr m)"
  shows "wp (peer_store m l c) mac_inv"
proof -
  obtain rb where rb: "RB_INSERT (brk c) (c\<lparr> cells := (cells c)(brk c \<mapsto> m), brk := brk c + 1 \<rparr>) =
      Some (c\<lparr> cells := (cells c)(brk c \<mapsto> m), brk := brk c + 1, mac_rb := rb \<rparr>)"
    "at (brk c) rb (c\<lparr> cells := (cells c)(brk c \<mapsto> m), brk := brk c + 1, mac_rb := rb \<rparr>)"
    using insert_new [OF inv m] key by auto
  have "mac_inv (c\<lparr> cells := (cells c)(brk c \<mapsto> m), brk := brk c + 1, mac_rb := rb \<rparr>)"
    using rb(2) by (simp add: at_def)
  then show ?thesis using inv rb(1) l
    by (cases l) (simp_all add: peer_store_def iccp_csm_init_mac_msg_def wp_def)
qed

lemma wp_peer_add_new:
  assumes inv: "mac_inv c" and d: "length (md_mac_addr d) = ETHER_ADDR_LEN" "name_ok (md_ifname d)"
    and key: "\<And>a n. a \<in> set (mac_rb c) \<Longrightarrow> cells c a = Some n \<Longrightarrow> \<not> (vid n = md_vid d \<and> mac_addr n = md_mac_addr d)"
  shows "wp (peer_add_new d l c) mac_inv"
proof -
  have p: "name_ok (peer_itf c)" "peer_itf c \<noteq> []" using inv by (simp_all add: mac_inv_def)
  show ?thesis unfolding peer_add_new_def Let_def if_not_P [OF p(2)]
    using d p key
    by (intro wp_if wp_peer_store [OF inv]) (auto simp: entry_ok_def MACMsg_zero_def to_peer_link_def)
qed

lemma mac_entry_from_peer_inv:
  assumes inv: "mac_inv c" and d: "length (md_mac_addr d) = ETHER_ADDR_LEN" "name_ok (md_ifname d)"
  shows "wp (mlacp_fsm_update_mac_entry_from_peer d c) mac_inv"
  unfolding mlacp_fsm_update_mac_entry_from_peer_def Let_def
  by (intro wp_if wp_Some inv wp_bind wp_RB_FIND [OF inv])
     (auto intro!: wp_Some inv wp_peer_add_new [OF inv d] handled_inv [OF wp_peer_del]
       handled_inv [OF wp_peer_add_existing [OF _ d(2)]])

lemma takeWhile_shorter: "x \<in> set xs \<Longrightarrow> \<not> P x \<Longrightarrow> length (takeWhile P xs) < length xs"
  by (induction xs) auto

lemma MacEntry_ok: "MacEntry buf i = Some d \<Longrightarrow> length (md_mac_addr d) = ETHER_ADDR_LEN \<and> name_ok (md_ifname d)"
proof -
  assume "MacEntry buf i = Some d"
  then obtain mac name where "rdn buf (22 + 30 * i + 2) 6 = Some mac" "rdn buf (22 + 30 * i + 10) 20 = Some name"
    "0 \<in> set name" and d: "md_mac_addr d = mac" "md_ifname d = takeWhile (\<lambda>b. b \<noteq> 0) name"
    by (auto simp: MacEntry_def Let_def bind_eq_Some_conv split: if_splits)
  moreover have "length (takeWhile (\<lambda>b. b \<noteq> 0) name) < length name" if "0 \<in> set name"
    using that by (rule takeWhile_shorter) simp
  ultimately show ?thesis by (auto simp: name_ok_def dest: rdn_length set_takeWhileD)
qed

lemma update_mac_entries_inv:
  "\<forall>i \<in> set is. MacEntry buf i \<noteq> None \<Longrightarrow> mac_inv c \<Longrightarrow> wp (update_mac_entries buf is c) mac_inv"
proof (induction "is" arbitrary: c)
  case (Cons i "is")
  then obtain d where d: "MacEntry buf i = Some d" by auto
  obtain c1 where "mlacp_fsm_update_mac_entry_from_peer d c = Some c1" "mac_inv c1"
    using mac_entry_from_peer_inv [OF Cons.prems(2)] MacEntry_ok [OF d] by (auto simp: wp_def)
  then show ?case using Cons d by simp
qed (simp add: wp_Some)

end
