(* ===== verification/Iccp_Neigh.thy ===== *)
theory Iccp_Neigh
  imports Iccp_MacSafe
begin

text \<open>
  Neighbours of the inter-chassis daemon: the ARP and neighbour discovery (ND) entries a switch
  learns from its kernel (\<open>src/src/iccpd/src/iccp_ifm.c\<close>), announces to the peer
  (\<open>mlacp_fsm.c\<close>, \<open>mlacp_sync_prepare.c\<close>, \<open>mlacp_link_handler.c\<close>) and installs in the kernel when
  the peer announces them (\<open>mlacp_sync_update.c\<close>).

  Unlike MAC entries, these entries are owned by the one list they are in and are copied when they
  are queued for the peer, so the lists hold the entries themselves.  The connection, the
  interfaces and the messages to the peer are those of \<open>Iccp_Mac\<close> (field \<open>con\<close>).  The netlink
  library is a parameter: \<open>nl_status\<close> gives the result of \<open>iccp_netlink_neighbor_request\<close> for a
  request and \<open>if_has_addr\<close> that of \<open>iccp_check_if_addr_from_netlink\<close>; \<open>nl_out\<close> lists the requests
  that were made.

  \<open>ARPMsg\<close> and \<open>NDISCMsg\<close> differ in the size of the IP address only, so both are the record
  \<open>neigh\<close>; an IP address is the list of its bytes in memory.
\<close>

section \<open>Data\<close>

abbreviation (input) NEIGH_SYNC_LIF :: byte where "NEIGH_SYNC_LIF \<equiv> 0"
abbreviation (input) NEIGH_SYNC_ADD :: byte where "NEIGH_SYNC_ADD \<equiv> 1"
abbreviation (input) NEIGH_SYNC_DEL :: byte where "NEIGH_SYNC_DEL \<equiv> 2"
abbreviation (input) NEIGH_SYNC_FLAG_ACK :: byte where "NEIGH_SYNC_FLAG_ACK \<equiv> 1"
abbreviation (input) NEIGH_SYNC_FLAG_SELF_LL :: byte where "NEIGH_SYNC_FLAG_SELF_LL \<equiv> 2"
abbreviation (input) NEIGH_SYNC_FLAG_SELF_IP :: byte where "NEIGH_SYNC_FLAG_SELF_IP \<equiv> 4"
abbreviation (input) NEIGH_LOCAL :: byte where "NEIGH_LOCAL \<equiv> 1"
abbreviation (input) NEIGH_REMOTE :: byte where "NEIGH_REMOTE \<equiv> 2"
abbreviation (input) ICCP_NLE_SEQ_MISMATCH :: int where "ICCP_NLE_SEQ_MISMATCH \<equiv> -16"
abbreviation (input) MAX_NEIGH_ENTRY_NUM :: nat where "MAX_NEIGH_ENTRY_NUM \<equiv> 40"
abbreviation (input) MAX_BUFSIZE :: nat where "MAX_BUFSIZE \<equiv> 4096"
abbreviation (input) sizeof_neigh_tlv :: nat where "sizeof_neigh_tlv \<equiv> 6"

record neigh =
  nm_op_type :: byte
  nm_flag :: byte
  nm_learn_flag :: byte
  nm_ifname :: ifname
  nm_ip :: mem
  nm_mac :: mem

datatype ip_family = AF_INET | AF_INET6

record nl_request =
  rq_family :: ip_family
  rq_addr :: mem
  rq_add :: bool
  rq_mac :: mem
  rq_port :: ifname
  rq_permanent :: bool

record neigh_ctx =
  con :: mac_ctx
  system_id :: mem
  arp_list :: "neigh list"
  arp_msg_list :: "neigh list"
  ndisc_list :: "neigh list"
  ndisc_msg_list :: "neigh list"
  nl_status :: "nl_request \<Rightarrow> int"
  if_has_addr :: "ip_family \<Rightarrow> mem \<Rightarrow> ifname \<Rightarrow> bool"
  nl_out :: "nl_request list"
  bridge_ok :: bool
  bridge_out :: "(ifname \<times> bool) list"
  learning_enable :: int
  learning_retry_time :: int

section \<open>Interfaces and addresses\<close>

definition local_if_find_by_ifindex :: "mac_ctx \<Rightarrow> int \<Rightarrow> mac_lif option" where
  "local_if_find_by_ifindex c i = find (\<lambda>l. ml_ifindex l = i) (lifs c)"

definition local_if_is_l3_mode :: "mac_lif \<Rightarrow> bool" where
  "local_if_is_l3_mode l \<longleftrightarrow>
     ml_ipv4_addr l \<noteq> replicate 4 0 \<or> ml_ipv6_addr l \<noteq> replicate 16 0 \<or> ml_master_ifindex l \<noteq> 0"

text \<open>\<open>RB_FIND(vlan_rb_tree, ...)\<close> and the interface \<open>vlan_itf\<close> points to\<close>

definition vlan_find :: "mac_lif \<Rightarrow> 16 word \<Rightarrow> VLAN_ID option" where
  "vlan_find l v = find (\<lambda>x. vlan_vid x = v) (ml_vlan_tree l)"

definition vlan_if :: "mac_ctx \<Rightarrow> VLAN_ID \<Rightarrow> mac_lif option" where
  "vlan_if c v = do { n \<leftarrow> vlan_itf v; local_if_find_by_name c n }"

text \<open>
  \<open>sscanf\<close> with a literal prefix followed by one decimal conversion.  A name has fewer than twenty
  characters, so the number fits the conversion's 64-bit intermediate; the assignment to the
  variable truncates it, and a failed match leaves the variable at its initial zero.
\<close>

definition byte_isspace :: "byte \<Rightarrow> bool" where
  "byte_isspace b \<longleftrightarrow> b = 32 \<or> 9 \<le> b \<and> b \<le> 13"

definition byte_isdigit :: "byte \<Rightarrow> bool" where
  "byte_isdigit b \<longleftrightarrow> 48 \<le> b \<and> b \<le> 57"

definition scan_digits :: "mem \<Rightarrow> int" where
  "scan_digits s = foldl (\<lambda>n b. 10 * n + (uint b - 48)) 0 (takeWhile byte_isdigit s)"

definition sscanf_int :: "mem \<Rightarrow> mem \<Rightarrow> int" where
  "sscanf_int prefix s =
     (if take (length prefix) s \<noteq> prefix then 0
      else case dropWhile byte_isspace (drop (length prefix) s) of
             [] \<Rightarrow> 0
           | b # r \<Rightarrow> if b = 45 then - scan_digits r
                      else if b = 43 then scan_digits r
                      else scan_digits (b # r))"

text \<open>The bytes of \<open>Vlan\<close> and \<open>sag\<close>\<close>

definition VLAN_PREFIX :: mem where
  "VLAN_PREFIX = [86, 108, 97, 110]"

definition SAG_PREFIX :: mem where
  "SAG_PREFIX = [115, 97, 103]"

definition vlan_id_of :: "ifname \<Rightarrow> 16 word" where
  "vlan_id_of name = of_int (sscanf_int VLAN_PREFIX name)"

text \<open>
  The printed form of an IPv6 address starts with \<open>fe80\<close> exactly when its first two bytes are
  these: \<open>inet_ntop\<close> prints the first group in lower case and without leading zeros.
\<close>

definition is_link_local :: "mem \<Rightarrow> bool" where
  "is_link_local ip \<longleftrightarrow> take 2 ip = [0xfe, 0x80]"

definition bcast_mac :: mem where
  "bcast_mac = replicate ETHER_ADDR_LEN 0xff"

section \<open>Requests and messages\<close>

definition iccp_netlink_neighbor_request ::
    "ip_family \<Rightarrow> neigh \<Rightarrow> bool \<Rightarrow> bool \<Rightarrow> neigh_ctx \<Rightarrow> int \<times> neigh_ctx" where
  "iccp_netlink_neighbor_request fam e add permanent c =
     (let r = \<lparr> rq_family = fam, rq_addr = nm_ip e, rq_add = add, rq_mac = nm_mac e, rq_port = nm_ifname e,
                rq_permanent = permanent \<rparr>
      in if local_if_find_by_name (con c) (nm_ifname e) = None then (-3, c)
         else (nl_status c r, c\<lparr> nl_out := nl_out c @ [r] \<rparr>))"

definition nl_failed :: "int \<Rightarrow> bool" where
  "nl_failed err \<longleftrightarrow> err < 0 \<and> err \<noteq> ICCP_NLE_SEQ_MISMATCH"

text \<open>
  The entry of a message has the layout of the structure: three flag bytes, the name, a padding
  byte, the IP address, the MAC address and two padding bytes.
\<close>

definition sizeof_neigh :: "nat \<Rightarrow> nat" where
  "sizeof_neigh iplen = 32 + iplen"

definition prepare_neigh ::
    "16 word \<Rightarrow> nat \<Rightarrow> mac_ctx \<Rightarrow> mem \<Rightarrow> nat \<Rightarrow> neigh \<Rightarrow> nat \<Rightarrow> (int \<times> mem \<times> mac_ctx) option" where
  "prepare_neigh tlv iplen c buf max_buf_size e count =
     (let tlv_len = sizeof_neigh_tlv + sizeof_neigh iplen * (count + 1);
          msg_len = sizeof_ICCHdr + tlv_len;
          off = sizeof_ICCHdr + sizeof_neigh_tlv + sizeof_neigh iplen * count
      in if msg_len > max_buf_size then Some (-1, buf, c)
         else case mlacp_fill_icc_header c msg_len of (hdr, c) \<Rightarrow>
           do { buf \<leftarrow> wrn (pad msg_len buf) 0 hdr;
                let par = ICCParameter tlv (tlv_len - sizeof_ICCParameter);
                buf \<leftarrow> wrn buf (sizeof_ICCHdr + 2) (drop 2 par);
                buf \<leftarrow> wrn buf (sizeof_ICCHdr + sizeof_ICCParameter) (enc16 (of_nat (count + 1)));
                buf \<leftarrow> (if count = 0 then wrn buf sizeof_ICCHdr (take 2 par) else Some buf);
                buf \<leftarrow> wrn buf off [nm_op_type e, nm_flag e];
                buf \<leftarrow> wrn buf (off + 3) (nm_ifname e @ [0]);
                buf \<leftarrow> wrn buf (off + 24) (take iplen (nm_ip e));
                buf \<leftarrow> wrn buf (off + 24 + iplen) (take ETHER_ADDR_LEN (nm_mac e));
                Some (int msg_len, buf, c) })"

definition mlacp_prepare_for_arp_info ::
    "mac_ctx \<Rightarrow> mem \<Rightarrow> nat \<Rightarrow> neigh \<Rightarrow> nat \<Rightarrow> (int \<times> mem \<times> mac_ctx) option" where
  "mlacp_prepare_for_arp_info = prepare_neigh TLV_T_MLACP_ARP_INFO 4"

definition mlacp_prepare_for_ndisc_info ::
    "mac_ctx \<Rightarrow> mem \<Rightarrow> nat \<Rightarrow> neigh \<Rightarrow> nat \<Rightarrow> (int \<times> mem \<times> mac_ctx) option" where
  "mlacp_prepare_for_ndisc_info = prepare_neigh TLV_T_MLACP_NDISC_INFO 16"

text \<open>
  An entry of a received message; a name without a null byte in its field is a fault, because
  \<open>sprintf\<close> and \<open>strcmp\<close> run on past the field.
\<close>

definition NeighEntry :: "nat \<Rightarrow> mem \<Rightarrow> nat \<Rightarrow> neigh option" where
  "NeighEntry iplen buf i =
     (let off = sizeof_ICCHdr + sizeof_neigh_tlv + sizeof_neigh iplen * i in
      do { ty \<leftarrow> rd8 buf off;
           fl \<leftarrow> rd8 buf (off + 1);
           lf \<leftarrow> rd8 buf (off + 2);
           name \<leftarrow> rdn buf (off + 3) MAX_L_PORT_NAME;
           ip \<leftarrow> rdn buf (off + 24) iplen;
           mac \<leftarrow> rdn buf (off + 24 + iplen) ETHER_ADDR_LEN;
           if 0 \<in> set name
           then Some \<lparr> nm_op_type = ty, nm_flag = fl, nm_learn_flag = lf,
                       nm_ifname = takeWhile (\<lambda>b. b \<noteq> 0) name, nm_ip = ip, nm_mac = mac \<rparr>
           else None })"

section \<open>The lists\<close>

definition mlacp_enqueue_arp :: "neigh \<Rightarrow> neigh_ctx \<Rightarrow> neigh_ctx" where
  "mlacp_enqueue_arp e c =
     (if nm_op_type e \<noteq> NEIGH_SYNC_DEL then c\<lparr> arp_list := arp_list c @ [e] \<rparr> else c)"

definition mlacp_enqueue_ndisc :: "neigh \<Rightarrow> neigh_ctx \<Rightarrow> neigh_ctx" where
  "mlacp_enqueue_ndisc e c =
     (if nm_op_type e \<noteq> NEIGH_SYNC_DEL then c\<lparr> ndisc_list := ndisc_list c @ [e] \<rparr> else c)"

text \<open>The loops over a list that stop at the first entry with the given address\<close>

definition neigh_find :: "mem \<Rightarrow> neigh list \<Rightarrow> neigh option" where
  "neigh_find ip xs = find (\<lambda>e. nm_ip e = ip) xs"

primrec neigh_upd :: "mem \<Rightarrow> (neigh \<Rightarrow> neigh) \<Rightarrow> neigh list \<Rightarrow> neigh list" where
  "neigh_upd ip f [] = []"
| "neigh_upd ip f (e # es) = (if nm_ip e = ip then f e # es else e # neigh_upd ip f es)"

primrec neigh_del :: "mem \<Rightarrow> neigh list \<Rightarrow> neigh list" where
  "neigh_del ip [] = []"
| "neigh_del ip (e # es) = (if nm_ip e = ip then es else e # neigh_del ip es)"

text \<open>\<open>iccp_csm_init_msg\<close> copies the entry, and the copy is appended to the queue for the peer.\<close>

definition enqueue_arp_msg :: "neigh \<Rightarrow> neigh_ctx \<Rightarrow> neigh_ctx" where
  "enqueue_arp_msg e c = (if malloc_ok (con c) then c\<lparr> arp_msg_list := arp_msg_list c @ [e] \<rparr> else c)"

definition enqueue_ndisc_msg :: "neigh \<Rightarrow> neigh_ctx \<Rightarrow> neigh_ctx" where
  "enqueue_ndisc_msg e c = (if malloc_ok (con c) then c\<lparr> ndisc_msg_list := ndisc_msg_list c @ [e] \<rparr> else c)"

section \<open>Learning from the kernel\<close>

text \<open>
  The interface of the connection a neighbour belongs to.  A layer 2 port channel matches when it
  has the VLAN of the interface name and that VLAN's interface is the one with the given index;
  a layer 3 port channel matches by its own index; the peer link is tried last.  The result is
  \<open>None\<close> when nothing matches, and the VLAN entry found on a layer 2 interface otherwise.
\<close>

definition l2_vlan_of :: "mac_ctx \<Rightarrow> int \<Rightarrow> 16 word \<Rightarrow> mac_lif \<Rightarrow> VLAN_ID option" where
  "l2_vlan_of c ifindex vlan_id l =
     do { v \<leftarrow> vlan_find l vlan_id;
          vi \<leftarrow> vlan_if c v;
          if ml_ifindex vi = ifindex then Some v else None }"

fun neigh_po :: "mac_ctx \<Rightarrow> int \<Rightarrow> 16 word \<Rightarrow> mac_lif list \<Rightarrow> VLAN_ID option option" where
  "neigh_po c ifindex vlan_id [] = None"
| "neigh_po c ifindex vlan_id (l # ls) =
     (if ml_type l \<noteq> IF_T_PORT_CHANNEL then neigh_po c ifindex vlan_id ls
      else if \<not> local_if_is_l3_mode l then
        (case l2_vlan_of c ifindex vlan_id l of
           None \<Rightarrow> neigh_po c ifindex vlan_id ls
         | Some v \<Rightarrow> Some (Some v))
      else if ml_ifindex l = ifindex then Some None
      else neigh_po c ifindex vlan_id ls)"

definition neigh_port :: "mac_ctx \<Rightarrow> int \<Rightarrow> 16 word \<Rightarrow> VLAN_ID option option" where
  "neigh_port c ifindex vlan_id =
     (case neigh_po c ifindex vlan_id (filter ml_mclag (lifs c)) of
        Some r \<Rightarrow> Some r
      | None \<Rightarrow>
          (case peer_link_if c \<bind> local_if_find_by_name c of
             None \<Rightarrow> None
           | Some pl \<Rightarrow>
               if local_if_is_l3_mode pl then None
               else map_option Some (l2_vlan_of c ifindex vlan_id pl)))"

text \<open>\<open>vid && vlan_id_list && vlan_id_list->vlan_itf\<close>, and a test of that interface\<close>

definition on_vlan :: "mac_ctx \<Rightarrow> VLAN_ID option \<Rightarrow> (mac_lif \<Rightarrow> bool) \<Rightarrow> bool" where
  "on_vlan c v P =
     (case v of None \<Rightarrow> False
      | Some v \<Rightarrow> vlan_vid v \<noteq> 0 \<and> (case vlan_if c v of None \<Rightarrow> False | Some vi \<Rightarrow> P vi))"

definition own_ipv6 :: "mem \<Rightarrow> mac_lif \<Rightarrow> bool" where
  "own_ipv6 ip vi \<longleftrightarrow> ip = ml_ipv6_addr vi \<or> is_link_local ip \<and> ip = ml_ipv6_ll_addr vi"

text \<open>
  The entry made of a kernel message: both \<open>memcpy\<close> calls copy the payload of the attribute
  into the zeroed structure, whatever its length.
\<close>

definition neigh_of_kernel :: "nat \<Rightarrow> ifname \<Rightarrow> mem option \<Rightarrow> mem option \<Rightarrow> neigh option" where
  "neigh_of_kernel iplen name dst lladdr =
     (let d = (case dst of None \<Rightarrow> [] | Some d \<Rightarrow> d);
          l = (case lladdr of None \<Rightarrow> [] | Some l \<Rightarrow> l);
          mac = take ETHER_ADDR_LEN (drop iplen d @ replicate ETHER_ADDR_LEN 0)
      in if 24 + length d > MAX_BUFSIZE \<or> 24 + iplen + length l > MAX_BUFSIZE then None
         else Some \<lparr> nm_op_type = NEIGH_SYNC_LIF, nm_flag = 0, nm_learn_flag = 0, nm_ifname = name,
                     nm_ip = take iplen (d @ replicate iplen 0),
                     nm_mac = take ETHER_ADDR_LEN (l @ drop (length l) mac) \<rparr>)"

definition neigh_copy :: "neigh \<Rightarrow> neigh \<Rightarrow> neigh" where
  "neigh_copy m i = i\<lparr> nm_op_type := nm_op_type m, nm_ifname := nm_ifname m, nm_mac := nm_mac m \<rparr>"

definition neigh_changed :: "neigh \<Rightarrow> neigh \<Rightarrow> bool" where
  "neigh_changed i m \<longleftrightarrow>
     nm_op_type i \<noteq> nm_op_type m \<or> nm_ifname i \<noteq> nm_ifname m \<or> nm_mac i \<noteq> nm_mac m"

definition announce_arp :: "byte \<Rightarrow> neigh \<Rightarrow> neigh_ctx \<Rightarrow> neigh_ctx" where
  "announce_arp op m c =
     (if exchange (con c) then enqueue_arp_msg (m\<lparr> nm_op_type := op, nm_flag := 0 \<rparr>) c else c)"

definition announce_ndisc :: "byte \<Rightarrow> neigh \<Rightarrow> neigh_ctx \<Rightarrow> neigh_ctx" where
  "announce_ndisc op m c =
     (if exchange (con c) then enqueue_ndisc_msg (m\<lparr> nm_op_type := op, nm_flag := 0 \<rparr>) c else c)"

definition local_neigh :: "neigh \<Rightarrow> neigh" where
  "local_neigh m = m\<lparr> nm_op_type := NEIGH_SYNC_LIF, nm_learn_flag := NEIGH_LOCAL \<rparr>"

definition arp_table_learn :: "neigh \<Rightarrow> bool \<Rightarrow> neigh_ctx \<Rightarrow> neigh_ctx" where
  "arp_table_learn m del c =
     (case neigh_find (nm_ip m) (arp_list c) of
        Some i \<Rightarrow>
          if del then announce_arp NEIGH_SYNC_DEL m (c\<lparr> arp_list := neigh_del (nm_ip m) (arp_list c) \<rparr>)
          else if neigh_changed i m
          then announce_arp NEIGH_SYNC_ADD m (c\<lparr> arp_list := neigh_upd (nm_ip m) (neigh_copy m) (arp_list c) \<rparr>)
          else c
      | None \<Rightarrow>
          if del then c
          else announce_arp NEIGH_SYNC_ADD (local_neigh m)
                 (if malloc_ok (con c) then mlacp_enqueue_arp (local_neigh m) c else c))"

definition do_arp_learn_from_kernel ::
    "int \<Rightarrow> mem option \<Rightarrow> mem option \<Rightarrow> bool \<Rightarrow> bool \<Rightarrow> neigh_ctx \<Rightarrow> neigh_ctx option" where
  "do_arp_learn_from_kernel ifindex dst lladdr del is_del c =
     (case local_if_find_by_ifindex (con c) ifindex of
        None \<Rightarrow> Some c
      | Some arp_lif \<Rightarrow>
          do { m \<leftarrow> neigh_of_kernel 4 (ml_name arp_lif) dst (if is_del then None else lladdr);
               if \<not> del \<and> ml_ipv4_addr arp_lif = replicate 4 0 then Some c
               else case neigh_port (con c) ifindex (vlan_id_of (ml_name arp_lif)) of
                      None \<Rightarrow> Some c
                    | Some v \<Rightarrow>
                        Some (if on_vlan (con c) v (\<lambda>vi. nm_ip m = ml_ipv4_addr vi) then c
                              else arp_table_learn m (del \<or> nm_mac m = bcast_mac) c) })"

text \<open>
  The ND version compares the entry of the list with itself where the ARP version compares it
  with the entry learnt.
\<close>

definition ndisc_table_learn :: "neigh \<Rightarrow> bool \<Rightarrow> neigh_ctx \<Rightarrow> neigh_ctx" where
  "ndisc_table_learn m del c =
     (case neigh_find (nm_ip m) (ndisc_list c) of
        Some i \<Rightarrow>
          if del then announce_ndisc NEIGH_SYNC_DEL m (c\<lparr> ndisc_list := neigh_del (nm_ip m) (ndisc_list c) \<rparr>)
          else if neigh_changed i i
          then announce_ndisc NEIGH_SYNC_ADD m
                 (c\<lparr> ndisc_list := neigh_upd (nm_ip m) (neigh_copy m) (ndisc_list c) \<rparr>)
          else c
      | None \<Rightarrow>
          if del then c
          else announce_ndisc NEIGH_SYNC_ADD (local_neigh m)
                 (if malloc_ok (con c) then mlacp_enqueue_ndisc (local_neigh m) c else c))"

definition do_ndisc_learn_from_kernel ::
    "int \<Rightarrow> mem option \<Rightarrow> mem option \<Rightarrow> bool \<Rightarrow> bool \<Rightarrow> neigh_ctx \<Rightarrow> neigh_ctx option" where
  "do_ndisc_learn_from_kernel ifindex dst lladdr del is_del c =
     (case local_if_find_by_ifindex (con c) ifindex of
        None \<Rightarrow> Some c
      | Some ndisc_lif \<Rightarrow>
          do { m \<leftarrow> neigh_of_kernel 16 (ml_name ndisc_lif) dst (if is_del then None else lladdr);
               if \<not> del \<and> ml_ipv6_addr ndisc_lif = replicate 16 0 then Some c
               else if nm_mac m = bcast_mac then Some c
               else case neigh_port (con c) ifindex (vlan_id_of (ml_name ndisc_lif)) of
                      None \<Rightarrow> Some c
                    | Some v \<Rightarrow>
                        Some (if on_vlan (con c) v (own_ipv6 (nm_ip m)) then c
                              else ndisc_table_learn m del c) })"

text \<open>The attributes of a kernel message; a later attribute of a type replaces an earlier one.\<close>

definition RTA_ALIGN :: "nat \<Rightarrow> nat" where
  "RTA_ALIGN n = (n + 3) div 4 * 4"

lemma RTA_ALIGN_ge: "n \<le> RTA_ALIGN n"
  unfolding RTA_ALIGN_def by presburger

record rta_tb =
  nda_dst :: "mem option"
  nda_lladdr :: "mem option"

definition set_rta :: "16 word \<Rightarrow> mem \<Rightarrow> rta_tb \<Rightarrow> rta_tb" where
  "set_rta ty d tb = (if ty = 1 then tb\<lparr> nda_dst := Some d \<rparr> else if ty = 2 then tb\<lparr> nda_lladdr := Some d \<rparr> else tb)"

function ifm_parse_rtattr :: "mem \<Rightarrow> nat \<Rightarrow> int \<Rightarrow> rta_tb \<Rightarrow> rta_tb option" where
  "ifm_parse_rtattr buf off len tb =
     (if len < 4 then Some tb
      else case rd16le buf off of
        None \<Rightarrow> None
      | Some rta_len \<Rightarrow>
          if unat rta_len < 4 \<or> len < int (unat rta_len) then Some tb
          else case rd16le buf (off + 2) of
            None \<Rightarrow> None
          | Some ty \<Rightarrow>
              (case rdn buf (off + 4) (unat rta_len - 4) of
                 None \<Rightarrow> None
               | Some d \<Rightarrow>
                   ifm_parse_rtattr buf (off + RTA_ALIGN (unat rta_len)) (len - int (RTA_ALIGN (unat rta_len)))
                     (set_rta ty d tb)))"
  by pat_completeness auto
termination
proof (relation "measure (\<lambda>(buf, off, len, tb). nat len)", goal_cases)
  case (2 buf off len tb n ty d)
  thus ?case using RTA_ALIGN_ge [of "unat n"] by auto
qed simp

declare ifm_parse_rtattr.simps [simp del]

text \<open>\<open>nlmsghdr\<close> has 16 bytes and \<open>ndmsg\<close> 12; both are in the byte order of the host.\<close>

abbreviation (input) RTM_NEWNEIGH :: "16 word" where "RTM_NEWNEIGH \<equiv> 28"
abbreviation (input) RTM_DELNEIGH :: "16 word" where "RTM_DELNEIGH \<equiv> 29"
abbreviation (input) NUD_NONE :: "16 word" where "NUD_NONE \<equiv> 0"
abbreviation (input) NUD_INCOMPLETE :: "16 word" where "NUD_INCOMPLETE \<equiv> 1"
abbreviation (input) NUD_FAILED :: "16 word" where "NUD_FAILED \<equiv> 0x20"
abbreviation (input) NUD_NOARP :: "16 word" where "NUD_NOARP \<equiv> 0x40"
abbreviation (input) NUD_PERMANENT :: "16 word" where "NUD_PERMANENT \<equiv> 0x80"

definition do_one_neigh_request :: "mem \<Rightarrow> neigh_ctx \<Rightarrow> neigh_ctx option" where
  "do_one_neigh_request n c =
     do { nlmsg_len \<leftarrow> rd32le n 0;
          msgtype \<leftarrow> rd16le n 4;
          let len = sint nlmsg_len - 28;
          if msgtype \<noteq> RTM_NEWNEIGH \<and> msgtype \<noteq> RTM_DELNEIGH \<or> len < 0 then Some c
          else do {
            tb \<leftarrow> ifm_parse_rtattr n 28 len \<lparr> nda_dst = None, nda_lladdr = None \<rparr>;
            fam \<leftarrow> rd8 n 16;
            ifindex \<leftarrow> rd32le n 20;
            st \<leftarrow> rd16le n 24;
            ty \<leftarrow> rd8 n 27;
            let is_del = (st = NUD_FAILED \<or> st = NUD_INCOMPLETE);
            let del = (is_del \<or> msgtype = RTM_DELNEIGH);
            if st = NUD_NOARP \<or> st = NUD_PERMANENT \<or> st = NUD_NONE then Some c
            else if nda_dst tb = None \<or> ty \<noteq> 1 then Some c
            else if fam = 2 then
              do_arp_learn_from_kernel (sint ifindex) (nda_dst tb) (nda_lladdr tb) del is_del c
            else if fam = 10 then
              do_ndisc_learn_from_kernel (sint ifindex) (nda_dst tb) (nda_lladdr tb) del is_del c
            else Some c } }"

section \<open>Learning from reply packets\<close>

definition arp_table_reply :: "neigh \<Rightarrow> neigh_ctx \<Rightarrow> neigh_ctx" where
  "arp_table_reply m c =
     (case neigh_find (nm_ip m) (arp_list c) of
        Some i \<Rightarrow>
          announce_arp NEIGH_SYNC_ADD m
            (if neigh_changed i m then c\<lparr> arp_list := neigh_upd (nm_ip m) (neigh_copy m) (arp_list c) \<rparr> else c)
      | None \<Rightarrow>
          announce_arp NEIGH_SYNC_ADD (local_neigh m)
            (if malloc_ok (con c) then mlacp_enqueue_arp (local_neigh m) c else c))"

definition do_arp_update_from_reply_packet :: "int \<Rightarrow> mem \<Rightarrow> mem \<Rightarrow> neigh_ctx \<Rightarrow> neigh_ctx" where
  "do_arp_update_from_reply_packet ifindex ip mac c =
     (case local_if_find_by_ifindex (con c) ifindex of
        None \<Rightarrow> c
      | Some arp_lif \<Rightarrow>
          if ml_ipv4_addr arp_lif = replicate 4 0 \<or> mac = bcast_mac then c
          else case neigh_port (con c) ifindex (vlan_id_of (ml_name arp_lif)) of
                 None \<Rightarrow> c
               | Some v \<Rightarrow>
                   if (case v of None \<Rightarrow> True | Some v \<Rightarrow> vlan_vid v = 0)
                        \<and> if_has_addr c AF_INET ip (ml_name arp_lif)
                     \<or> on_vlan (con c) v (\<lambda>vi. ip = ml_ipv4_addr vi) then c
                   else arp_table_reply
                          \<lparr> nm_op_type = NEIGH_SYNC_LIF, nm_flag = 0, nm_learn_flag = 0,
                            nm_ifname = ml_name arp_lif, nm_ip = ip, nm_mac = mac \<rparr> c)"

text \<open>
  A reply without a MAC address confirms the address the list has; the entry is then installed in
  the kernel before it is announced.
\<close>

definition ndisc_install :: "neigh \<Rightarrow> neigh_ctx \<Rightarrow> neigh_ctx" where
  "ndisc_install m c =
     (case iccp_netlink_neighbor_request AF_INET6 m True False c of
        (err, c) \<Rightarrow> if nl_failed err then c else announce_ndisc NEIGH_SYNC_ADD m c)"

definition ndisc_table_reply :: "neigh \<Rightarrow> neigh_ctx \<Rightarrow> neigh_ctx" where
  "ndisc_table_reply m c =
     (case neigh_find (nm_ip m) (ndisc_list c) of
        Some i \<Rightarrow>
          (let m = (if null_mac (nm_mac m) then m\<lparr> nm_mac := nm_mac i \<rparr> else m)
           in ndisc_install m
                (if neigh_changed i m then c\<lparr> ndisc_list := neigh_upd (nm_ip m) (neigh_copy m) (ndisc_list c) \<rparr>
                 else c))
      | None \<Rightarrow>
          if null_mac (nm_mac m) then c
          else ndisc_install (local_neigh m)
                 (if malloc_ok (con c) then mlacp_enqueue_ndisc (local_neigh m) c else c))"

definition do_ndisc_update_from_reply_packet :: "int \<Rightarrow> mem \<Rightarrow> mem \<Rightarrow> neigh_ctx \<Rightarrow> neigh_ctx" where
  "do_ndisc_update_from_reply_packet ifindex ip mac c =
     (case local_if_find_by_ifindex (con c) ifindex of
        None \<Rightarrow> c
      | Some ndisc_lif \<Rightarrow>
          if ml_ipv6_addr ndisc_lif = replicate 16 0 \<or> mac = bcast_mac then c
          else case neigh_port (con c) ifindex (vlan_id_of (ml_name ndisc_lif)) of
                 None \<Rightarrow> c
               | Some v \<Rightarrow>
                   if on_vlan (con c) v (own_ipv6 ip) then c
                   else ndisc_table_reply
                          \<lparr> nm_op_type = NEIGH_SYNC_LIF, nm_flag = 0, nm_learn_flag = 0,
                            nm_ifname = ml_name ndisc_lif, nm_ip = ip, nm_mac = mac \<rparr> c)"

text \<open>
  The packets themselves: the ARP handler reads up to 1024 bytes and the ND handler up to 4096
  into a buffer on the stack, so the buffers below have these lengths and hold old bytes behind
  the \<open>n\<close> bytes received.  \<open>sll_halen\<close> and \<open>ifindex\<close> come from the socket.
\<close>

definition iccp_receive_arp_packet_handler :: "mem \<Rightarrow> nat \<Rightarrow> int \<Rightarrow> byte \<Rightarrow> neigh_ctx \<Rightarrow> neigh_ctx option" where
  "iccp_receive_arp_packet_handler buf n ifindex sll_halen c =
     (if n < 8 then Some c
      else do {
        ar_pro \<leftarrow> rd16be buf 2;
        ar_hln \<leftarrow> rd8 buf 4;
        ar_pln \<leftarrow> rd8 buf 5;
        ar_op \<leftarrow> rd16be buf 6;
        if ar_op \<noteq> 2 \<or> ar_pln \<noteq> 4 \<or> ar_pro \<noteq> 0x800 \<or> ar_hln \<noteq> sll_halen \<or> 8 + 2 * 4 + 2 * unat ar_hln > n
        then Some c
        else do { mac \<leftarrow> rdn buf 8 ETHER_ADDR_LEN;
                  ip \<leftarrow> rdn buf (8 + unat ar_hln) 4;
                  Some (do_arp_update_from_reply_packet ifindex ip mac c) } })"

text \<open>
  The loop over the options.  \<open>opt_len\<close> is signed and may become negative, and the comparison with
  \<open>sizeof(struct nd_opt_hdr)\<close> is unsigned, so it does not stop a negative one.  The result is
  \<open>None\<close> for a read outside the buffer, \<open>Some None\<close> for \<open>return 0\<close>, and the MAC address otherwise.
\<close>

function nd_opt_loop :: "mem \<Rightarrow> nat \<Rightarrow> int \<Rightarrow> mem option option" where
  "nd_opt_loop buf opt opt_len =
     (if opt_len = 0 then Some (Some (replicate ETHER_ADDR_LEN 0))
      else if 0 \<le> opt_len \<and> opt_len < 2 then Some None
      else case rd8 buf (opt + 1) of
        None \<Rightarrow> None
      | Some l \<Rightarrow>
          if l = 0 then Some None
          else if rd8 buf opt = Some 2 then map_option Some (rdn buf (opt + 2) ETHER_ADDR_LEN)
          else nd_opt_loop buf (opt + 8 * unat l) (opt_len - 8 * int (unat l)))"
  by pat_completeness auto
termination
proof (relation "measure (\<lambda>(buf, opt, opt_len). length buf - opt)", goal_cases)
  case (2 buf opt opt_len l)
  then have "0 < unat l" "opt < length buf" by (auto simp: unat_gt_0 rd8_def split: if_splits)
  then show ?case by simp
qed simp

declare nd_opt_loop.simps [simp del]

definition iccp_receive_ndisc_packet_handler :: "mem \<Rightarrow> nat \<Rightarrow> int \<Rightarrow> neigh_ctx \<Rightarrow> neigh_ctx option" where
  "iccp_receive_ndisc_packet_handler buf n ifindex c =
     do { ty \<leftarrow> rd8 buf 0;
          if ty \<noteq> 136 then Some c
          else do {
            target \<leftarrow> rdn buf 8 16;
            mac \<leftarrow> (if int n - 24 > 0 then nd_opt_loop buf 24 (int n - 24)
                    else Some (Some (replicate ETHER_ADDR_LEN 0)));
            case mac of
              None \<Rightarrow> Some c
            | Some mac \<Rightarrow> Some (do_ndisc_update_from_reply_packet ifindex target mac c) } }"

section \<open>Announcing the addresses of this switch\<close>

definition set_peerlink_learning_off :: "neigh_ctx \<Rightarrow> neigh_ctx" where
  "set_peerlink_learning_off c =
     (case peer_link_if (con c) of
        None \<Rightarrow> c
      | Some n \<Rightarrow>
          (let c = c\<lparr> bridge_out := bridge_out c @ [(n, False)] \<rparr>
           in if bridge_ok c then c\<lparr> learning_retry_time := 0 \<rparr>
              else c\<lparr> learning_enable := 0, learning_retry_time := clock (con c) \<rparr>))"

text \<open>One entry in a message of its own: \<open>msg_len > 0\<close> leads to \<open>iccp_csm_send\<close>.\<close>

definition send_alone :: "(int \<times> mem \<times> mac_ctx) option \<Rightarrow> neigh_ctx \<Rightarrow> neigh_ctx option" where
  "send_alone r c = do { (len, buf, m) \<leftarrow> r; Some (c\<lparr> con := iccp_csm_send_mac buf len m \<rparr>) }"

definition syn_local_mac_info_to_peer :: "mac_lif \<Rightarrow> bool \<Rightarrow> bool \<Rightarrow> neigh_ctx \<Rightarrow> neigh_ctx option" where
  "syn_local_mac_info_to_peer l sync_add is_sag c =
     (if null_mac (system_id c) then Some c
      else send_alone (mlacp_prepare_for_mac_info_to_peer (con c) [] CSM_BUFFER_SIZE
             (MACMsg_zero\<lparr> op_type := if sync_add then MAC_SYNC_ADD else MAC_SYNC_DEL,
                vid := of_int (sscanf_int (if is_sag then SAG_PREFIX else VLAN_PREFIX) (ml_name l)),
                fdb_type := MAC_TYPE_STATIC, origin_ifname := peer_itf (con c),
                mac_addr := system_id c \<rparr>) 0) c)"

definition syn_local_arp_info_to_peer :: "mac_lif \<Rightarrow> bool \<Rightarrow> bool \<Rightarrow> neigh_ctx \<Rightarrow> neigh_ctx option" where
  "syn_local_arp_info_to_peer l sync_add ack c =
     send_alone (mlacp_prepare_for_arp_info (con c) [] CSM_BUFFER_SIZE
       \<lparr> nm_op_type = if sync_add then NEIGH_SYNC_ADD else NEIGH_SYNC_DEL,
         nm_flag = (if sync_add \<and> ack then NEIGH_SYNC_FLAG_ACK else 0) OR NEIGH_SYNC_FLAG_SELF_IP,
         nm_learn_flag = 0, nm_ifname = ml_name l, nm_ip = ml_ipv4_addr l, nm_mac = ml_mac_addr l \<rparr> 0) c"

definition syn_local_nd_info_to_peer ::
    "mac_lif \<Rightarrow> bool \<Rightarrow> bool \<Rightarrow> bool \<Rightarrow> neigh_ctx \<Rightarrow> neigh_ctx option" where
  "syn_local_nd_info_to_peer l sync_add ack is_ipv6_ll c =
     (let flag = (if sync_add \<and> ack then NEIGH_SYNC_FLAG_ACK else 0);
          m = \<lparr> nm_op_type = if sync_add then NEIGH_SYNC_ADD else NEIGH_SYNC_DEL,
                nm_flag = flag OR (if is_ipv6_ll then NEIGH_SYNC_FLAG_SELF_LL else NEIGH_SYNC_FLAG_SELF_IP),
                nm_learn_flag = 0, nm_ifname = ml_name l,
                nm_ip = if is_ipv6_ll then ml_ipv6_ll_addr l else ml_ipv6_addr l,
                nm_mac = if is_ipv6_ll then system_id c else ml_mac_addr l \<rparr>
      in if is_ipv6_ll \<and> (ml_ll_prefixlen_v6 l = 0 \<or> null_mac (system_id c)) then Some c
         else send_alone (mlacp_prepare_for_ndisc_info (con c) [] CSM_BUFFER_SIZE m 0) c)"

definition syn_local_neigh_mac_info_to_peer ::
    "mac_lif \<Rightarrow> bool \<Rightarrow> bool \<Rightarrow> bool \<Rightarrow> bool \<Rightarrow> bool \<Rightarrow> bool \<Rightarrow> neigh_ctx \<Rightarrow> neigh_ctx option" where
  "syn_local_neigh_mac_info_to_peer l sync_add is_v4 is_v6 sync_mac ack is_ipv6_ll c =
     (if \<not> exchange (con c) \<or> ml_type l \<noteq> IF_T_VLAN then Some c
      else do { let c = set_peerlink_learning_off c;
                c \<leftarrow> (if sync_mac then syn_local_mac_info_to_peer l sync_add is_ipv6_ll c else Some c);
                c \<leftarrow> (if is_v4 then syn_local_arp_info_to_peer l sync_add ack c else Some c);
                if is_v6 then syn_local_nd_info_to_peer l sync_add ack is_ipv6_ll c else Some c })"

definition syn_ack_local_neigh_mac_info_to_peer :: "ifname \<Rightarrow> bool \<Rightarrow> neigh_ctx \<Rightarrow> neigh_ctx option" where
  "syn_ack_local_neigh_mac_info_to_peer name is_ipv6_ll c =
     (case local_if_find_by_name (con c) name of
        None \<Rightarrow> Some c
      | Some l \<Rightarrow>
          if is_ipv6_ll then syn_local_neigh_mac_info_to_peer l True False True True False True c
          else if ml_l3_mode l \<and> ml_is_l3_proto_enabled l then
            syn_local_neigh_mac_info_to_peer l True (ml_ipv4_addr l \<noteq> replicate 4 0) (ml_prefixlen_v6 l \<noteq> 0)
              True False False c
          else Some c)"

fun sync_unique_ip :: "ifname list \<Rightarrow> neigh_ctx \<Rightarrow> neigh_ctx option" where
  "sync_unique_ip [] c = Some c"
| "sync_unique_ip (n # ns) c =
     do { c \<leftarrow> syn_ack_local_neigh_mac_info_to_peer n False c; sync_unique_ip ns c }"

section \<open>Entries announced by the peer\<close>

text \<open>
  Whether an entry is to be installed, and whether it is an address of this switch: first by the
  VLAN of the peer link, then by the port channels of the connection.
\<close>

definition neigh_vlan_check :: "(mac_lif \<Rightarrow> bool) \<Rightarrow> neigh \<Rightarrow> mac_ctx \<Rightarrow> bool \<times> bool" where
  "neigh_vlan_check own e c =
     (let vlan_id = vlan_id_of (nm_ifname e) in
      if vlan_id = 0 then (False, False)
      else case local_if_find_by_name c (peer_itf c) of
        None \<Rightarrow> (False, False)
      | Some pl \<Rightarrow>
          if local_if_is_l3_mode pl then (False, False)
          else case vlan_find pl vlan_id of
            Some v \<Rightarrow>
              (case vlan_if c v of
                 None \<Rightarrow> (False, False)
               | Some vi \<Rightarrow> (True, ml_name vi = nm_ifname e \<and> local_if_is_l3_mode vi \<and> own vi))
          | None \<Rightarrow>
              (case local_if_find_by_name c (nm_ifname e) of
                 None \<Rightarrow> (False, False)
               | Some vi \<Rightarrow> if ml_is_l3_proto_enabled vi then (True, own vi) else (False, False)))"

fun neigh_po_check :: "(mac_lif \<Rightarrow> bool) \<Rightarrow> neigh \<Rightarrow> mac_ctx \<Rightarrow> mac_lif list \<Rightarrow> bool \<Rightarrow> bool \<times> bool" where
  "neigh_po_check own e c [] mine = (False, mine)"
| "neigh_po_check own e c (l # ls) mine =
     (if ml_type l \<noteq> IF_T_PORT_CHANNEL then neigh_po_check own e c ls mine
      else if \<not> local_if_is_l3_mode l then
        (let vlan_id = vlan_id_of (nm_ifname e);
             v = (if vlan_id \<noteq> 0 then vlan_find l vlan_id else None);
             mine = (mine \<or> (case v \<bind> vlan_if c of None \<Rightarrow> False | Some vi \<Rightarrow> own vi))
         in if v \<noteq> None \<and> ml_po_active l then (True, mine) else neigh_po_check own e c ls mine)
      else if ml_name l = nm_ifname e \<and> ml_po_active l then (True, mine)
      else neigh_po_check own e c ls mine)"

definition neigh_check ::
    "(mac_lif \<Rightarrow> bool) \<Rightarrow> (mac_lif \<Rightarrow> bool) \<Rightarrow> neigh \<Rightarrow> mac_ctx \<Rightarrow> bool \<times> bool" where
  "neigh_check own own_po e c =
     (case neigh_vlan_check own e c of
        (st, mine) \<Rightarrow>
          if st \<or> mine then (st, mine) else neigh_po_check own_po e c (filter ml_mclag (lifs c)) False)"

text \<open>What the peer says of an address is entered in the list.\<close>

definition remote_neigh :: "neigh \<Rightarrow> neigh" where
  "remote_neigh e = e\<lparr> nm_flag := 0, nm_learn_flag := NEIGH_REMOTE \<rparr>"

definition neigh_list_update :: "bool \<Rightarrow> neigh \<Rightarrow> neigh list \<Rightarrow> neigh list" where
  "neigh_list_update malloc e xs =
     (let ys = neigh_upd (nm_ip e) (\<lambda>i. i\<lparr> nm_ifname := nm_ifname e, nm_mac := nm_mac e \<rparr>) xs
      in if neigh_find (nm_ip e) xs \<noteq> None
         then (if nm_op_type e = NEIGH_SYNC_DEL then neigh_del (nm_ip e) ys else ys)
         else (if nm_op_type e = NEIGH_SYNC_ADD \<and> malloc then ys @ [remote_neigh e] else ys))"

text \<open>The loop that removes the first entry with the address until there is none\<close>

definition neigh_unqueue :: "mem \<Rightarrow> neigh list \<Rightarrow> neigh list" where
  "neigh_unqueue ip xs = filter (\<lambda>m. nm_ip m \<noteq> ip) xs"

definition arp_lists_update :: "neigh \<Rightarrow> neigh_ctx \<Rightarrow> neigh_ctx" where
  "arp_lists_update e c =
     c\<lparr> arp_list := neigh_list_update (malloc_ok (con c)) e (arp_list c),
        arp_msg_list := neigh_unqueue (nm_ip e) (arp_msg_list c) \<rparr>"

definition mlacp_fsm_update_arp_entry :: "neigh \<Rightarrow> neigh_ctx \<Rightarrow> neigh_ctx option" where
  "mlacp_fsm_update_arp_entry e c =
     (let own = (\<lambda>l. nm_ip e = ml_ipv4_addr l) in
      case neigh_check own own e (con c) of
        (set_arp, mine) \<Rightarrow>
          if mine then Some c
          else if set_arp then
            (case iccp_netlink_neighbor_request AF_INET e (nm_op_type e = NEIGH_SYNC_ADD)
                    (nm_flag e AND NEIGH_SYNC_FLAG_SELF_IP \<noteq> 0) c of
               (err, c) \<Rightarrow>
                 if nl_failed err then Some c
                 else do { c \<leftarrow> (if nm_op_type e = NEIGH_SYNC_ADD \<and> nm_flag e AND NEIGH_SYNC_FLAG_ACK \<noteq> 0
                                  then syn_ack_local_neigh_mac_info_to_peer (nm_ifname e) False c else Some c);
                           Some (arp_lists_update e c) })
          else if (case local_if_find_by_name (con c) (nm_ifname e) of None \<Rightarrow> False | Some l \<Rightarrow> own l)
          then Some c
          else Some (arp_lists_update e c))"

fun update_arp_entries :: "mem \<Rightarrow> nat list \<Rightarrow> neigh_ctx \<Rightarrow> neigh_ctx option" where
  "update_arp_entries buf [] c = Some c"
| "update_arp_entries buf (i # is) c =
     do { e \<leftarrow> NeighEntry 4 buf i; c \<leftarrow> mlacp_fsm_update_arp_entry e c; update_arp_entries buf is c }"

definition mlacp_fsm_update_arp_info :: "mem \<Rightarrow> neigh_ctx \<Rightarrow> neigh_ctx option" where
  "mlacp_fsm_update_arp_info buf c =
     do { num \<leftarrow> rd16be buf (sizeof_ICCHdr + sizeof_ICCParameter); update_arp_entries buf [0..<unat num] c }"

definition ndisc_lists_update :: "neigh \<Rightarrow> neigh_ctx \<Rightarrow> neigh_ctx" where
  "ndisc_lists_update e c =
     c\<lparr> ndisc_list := neigh_list_update (malloc_ok (con c)) e (ndisc_list c),
        ndisc_msg_list := neigh_unqueue (nm_ip e) (ndisc_msg_list c) \<rparr>"

definition mlacp_fsm_update_ndisc_entry :: "neigh \<Rightarrow> neigh_ctx \<Rightarrow> neigh_ctx option" where
  "mlacp_fsm_update_ndisc_entry e c =
     (let own_po = (\<lambda>l. nm_ip e = ml_ipv6_addr l);
          self_ll = (nm_flag e AND NEIGH_SYNC_FLAG_SELF_LL \<noteq> 0)
      in case neigh_check (own_ipv6 (nm_ip e)) own_po e (con c) of
        (set_ndisc, mine) \<Rightarrow>
          if mine then Some c
          else if set_ndisc then
            (case iccp_netlink_neighbor_request AF_INET6 e (nm_op_type e = NEIGH_SYNC_ADD)
                    (self_ll \<or> nm_flag e AND NEIGH_SYNC_FLAG_SELF_IP \<noteq> 0) c of
               (err, c) \<Rightarrow>
                 if nl_failed err then Some c
                 else do { c \<leftarrow> (if nm_op_type e = NEIGH_SYNC_ADD \<and> nm_flag e AND NEIGH_SYNC_FLAG_ACK \<noteq> 0
                                  then syn_ack_local_neigh_mac_info_to_peer (nm_ifname e) self_ll c else Some c);
                           Some (ndisc_lists_update e c) })
          else if (case local_if_find_by_name (con c) (nm_ifname e) of None \<Rightarrow> False | Some l \<Rightarrow> own_po l)
          then Some c
          else Some (ndisc_lists_update e c))"

fun update_ndisc_entries :: "mem \<Rightarrow> nat list \<Rightarrow> neigh_ctx \<Rightarrow> neigh_ctx option" where
  "update_ndisc_entries buf [] c = Some c"
| "update_ndisc_entries buf (i # is) c =
     do { e \<leftarrow> NeighEntry 16 buf i; c \<leftarrow> mlacp_fsm_update_ndisc_entry e c; update_ndisc_entries buf is c }"

definition mlacp_fsm_update_ndisc_info :: "mem \<Rightarrow> neigh_ctx \<Rightarrow> neigh_ctx option" where
  "mlacp_fsm_update_ndisc_info buf c =
     do { num \<leftarrow> rd16be buf (sizeof_ICCHdr + sizeof_ICCParameter); update_ndisc_entries buf [0..<unat num] c }"

section \<open>Sending to the peer\<close>

fun neigh_send_loop ::
    "(mac_ctx \<Rightarrow> mem \<Rightarrow> nat \<Rightarrow> neigh \<Rightarrow> nat \<Rightarrow> (int \<times> mem \<times> mac_ctx) option) \<Rightarrow> neigh list \<Rightarrow> nat \<Rightarrow> int \<Rightarrow> mem \<Rightarrow>
       mac_ctx \<Rightarrow> mac_ctx option" where
  "neigh_send_loop prep [] count len buf m = Some (if 0 < count then iccp_csm_send_mac buf len m else m)"
| "neigh_send_loop prep (e # es) count len buf m =
     do { (len, buf, m) \<leftarrow> prep m buf CSM_BUFFER_SIZE e count;
          if MAX_NEIGH_ENTRY_NUM \<le> count + 1
          then neigh_send_loop prep es 0 len [] (iccp_csm_send_mac buf len m)
          else neigh_send_loop prep es (count + 1) len buf m }"

definition mlacp_sync_send_syncArpInfo :: "neigh_ctx \<Rightarrow> neigh_ctx option" where
  "mlacp_sync_send_syncArpInfo c =
     do { m \<leftarrow> neigh_send_loop mlacp_prepare_for_arp_info (arp_msg_list c) 0 0 [] (con c);
          Some (c\<lparr> con := m, arp_msg_list := [] \<rparr>) }"

definition mlacp_sync_send_syncNdiscInfo :: "neigh_ctx \<Rightarrow> neigh_ctx option" where
  "mlacp_sync_send_syncNdiscInfo c =
     do { m \<leftarrow> neigh_send_loop mlacp_prepare_for_ndisc_info (ndisc_msg_list c) 0 0 [] (con c);
          Some (c\<lparr> con := m, ndisc_msg_list := [] \<rparr>) }"

text \<open>
  The entries selected by \<open>P\<close> are marked as announced and their copies queued; the selection is
  the whole list when the session is synchronised again, and the entries of one interface when
  the interface comes up.
\<close>

definition resend :: "neigh \<Rightarrow> neigh" where
  "resend e = e\<lparr> nm_op_type := NEIGH_SYNC_ADD, nm_flag := 0 \<rparr>"

definition resend_arp :: "(neigh \<Rightarrow> bool) \<Rightarrow> neigh_ctx \<Rightarrow> neigh_ctx" where
  "resend_arp P c =
     c\<lparr> arp_list := map (\<lambda>e. if P e then resend e else e) (arp_list c),
        arp_msg_list := arp_msg_list c @ (if malloc_ok (con c) then map resend (filter P (arp_list c)) else []) \<rparr>"

definition resend_ndisc :: "(neigh \<Rightarrow> bool) \<Rightarrow> neigh_ctx \<Rightarrow> neigh_ctx" where
  "resend_ndisc P c =
     c\<lparr> ndisc_list := map (\<lambda>e. if P e then resend e else e) (ndisc_list c),
        ndisc_msg_list := ndisc_msg_list c @ (if malloc_ok (con c) then map resend (filter P (ndisc_list c)) else []) \<rparr>"

definition mlacp_resync_arp :: "neigh_ctx \<Rightarrow> neigh_ctx" where
  "mlacp_resync_arp = resend_arp (\<lambda>_. True)"

definition mlacp_resync_ndisc :: "neigh_ctx \<Rightarrow> neigh_ctx" where
  "mlacp_resync_ndisc = resend_ndisc (\<lambda>_. True)"

definition syn_arp_info_to_peer :: "mac_lif \<Rightarrow> neigh_ctx \<Rightarrow> neigh_ctx" where
  "syn_arp_info_to_peer l = resend_arp (\<lambda>e. nm_ifname e = ml_name l)"

definition syn_ndisc_info_to_peer :: "mac_lif \<Rightarrow> neigh_ctx \<Rightarrow> neigh_ctx" where
  "syn_ndisc_info_to_peer l = resend_ndisc (\<lambda>e. nm_ifname e = ml_name l)"

section \<open>State changes of layer 3 interfaces\<close>

datatype ROUTE_MANIPULATE_TYPE_E = ROUTE_NONE | ROUTE_ADD | ROUTE_DEL

definition request_all :: "ip_family \<Rightarrow> bool \<Rightarrow> neigh list \<Rightarrow> neigh_ctx \<Rightarrow> neigh_ctx" where
  "request_all fam add es c = foldl (\<lambda>c e. snd (iccp_netlink_neighbor_request fam e add False c)) c es"

definition neighs_of_lif :: "mac_lif \<Rightarrow> neigh list \<Rightarrow> neigh list" where
  "neighs_of_lif l es = filter (\<lambda>e. nm_op_type e \<noteq> NEIGH_SYNC_DEL \<and> nm_ifname e = ml_name l) es"

definition arp_set_handler :: "mac_lif \<Rightarrow> bool \<Rightarrow> neigh_ctx \<Rightarrow> neigh_ctx" where
  "arp_set_handler l add c =
     (if add then
        (if exchange (con c) then request_all AF_INET True (neighs_of_lif l (arp_list c)) c else c)
      else request_all AF_INET False (neighs_of_lif l (arp_list c)) c)"

text \<open>Both branches of the ND handler ask the kernel to add.\<close>

definition ndisc_set_handler :: "mac_lif \<Rightarrow> bool \<Rightarrow> neigh_ctx \<Rightarrow> neigh_ctx" where
  "ndisc_set_handler l add c =
     (if add then
        (if exchange (con c) then request_all AF_INET6 True (neighs_of_lif l (ndisc_list c)) c else c)
      else request_all AF_INET6 True (neighs_of_lif l (ndisc_list c)) c)"

definition set_l3_itf_state :: "mac_lif \<Rightarrow> ROUTE_MANIPULATE_TYPE_E \<Rightarrow> neigh_ctx \<Rightarrow> neigh_ctx" where
  "set_l3_itf_state l route_type c =
     (case route_type of
        ROUTE_NONE \<Rightarrow> c
      | ROUTE_ADD \<Rightarrow>
          if take 4 (ml_name l) \<noteq> VLAN_PREFIX then ndisc_set_handler l False (arp_set_handler l False c) else c
      | ROUTE_DEL \<Rightarrow> ndisc_set_handler l True (arp_set_handler l True c))"

end
