(* ===== verification/Iccp_Batch.thy ===== *)
theory Iccp_Batch
  imports Iccp_MacSafe
begin

text \<open>
  Information messages: a header, a parameter, the number of entries and the entries, all of the
  same size.  The daemon builds such a message by rewriting the header and appending one entry at
  a time, and sends it when it is full.  The locale \<open>info_codec\<close> has the contract of one kind of
  entry (its size, its bytes and how it is read back); it is interpreted for the MAC, ARP and
  neighbour discovery entries.
\<close>

section \<open>Messages and the entries read from them\<close>

definition info_msg :: "16 word \<Rightarrow> nat \<Rightarrow> ('e \<Rightarrow> mem) \<Rightarrow> 32 word \<Rightarrow> 32 word \<Rightarrow> 'e list \<Rightarrow> mem" where
  "info_msg tlv sz bytes rg mid es =
     LDPHdr MSG_T_RG_APP_DATA (22 + sz * length es) mid @ ICCRGIDTLV rg @
     ICCParameter tlv (2 + sz * length es) @ enc16 (of_nat (length es)) @ concat (map bytes es)"

definition info_entries :: "(mem \<Rightarrow> nat \<Rightarrow> 'd option) \<Rightarrow> mem \<Rightarrow> 'd list option" where
  "info_entries rd buf = do { num \<leftarrow> rd16be buf 20; those (map (rd buf) [0..<unat num]) }"

lemma rdn_at: "n = length xs \<Longrightarrow> k = length ys \<Longrightarrow> rdn (xs @ ys @ zs) n k = Some ys"
  by (simp add: rdn_def)

lemma rd8_at: "n = length xs \<Longrightarrow> rd8 (xs @ y # zs) n = Some y"
  by (simp add: rd8_def)

lemma rd16be_at: "n = length xs \<Longrightarrow> rd16be (xs @ enc16 w @ zs) n = Some w"
  by (simp add: rd16be_enc16)

lemma wrn_at: "n = length xs \<Longrightarrow> length ys = length old \<Longrightarrow> wrn (xs @ old @ zs) n ys = Some (xs @ ys @ zs)"
  by (simp add: wrn_def)

lemma those_map_Some: "(\<And>x. x \<in> set xs \<Longrightarrow> f x = Some (g x)) \<Longrightarrow> those (map f xs) = Some (map g xs)"
  by (induction xs) simp_all

lemma those_None: "those xs = None \<longleftrightarrow> None \<in> set xs"
  by (induction xs) (auto split: option.splits)

text \<open>A name in its zeroed field of twenty bytes\<close>

definition name_field :: "ifname \<Rightarrow> mem" where
  "name_field n = n @ replicate (MAX_L_PORT_NAME - length n) 0"

lemma name_field_ok:
  assumes "name_ok n"
  shows "length (name_field n) = 20" "0 \<in> set (name_field n)" "takeWhile (\<lambda>b. b \<noteq> 0) (name_field n) = n"
proof -
  have n: "length n < 20" "0 \<notin> set n" using assms by (simp_all add: name_ok_def)
  show "length (name_field n) = 20" "0 \<in> set (name_field n)" using n by (simp_all add: name_field_def)
  show "takeWhile (\<lambda>b. b \<noteq> 0) (name_field n) = n"
    using n unfolding name_field_def by (subst takeWhile_append2) auto
qed

lemma wrn_name:
  assumes "name_ok n" "off = length xs"
  shows "wrn (xs @ replicate 20 0 @ zs) off (n @ [0]) = Some (xs @ name_field n @ zs)"
proof -
  have l: "length n < 20" using assms by (simp add: name_ok_def)
  then have z: "replicate 20 0 = replicate (length n + 1) 0 @ replicate (19 - length n) (0 :: byte)"
    using replicate_add [of "length n + 1" "19 - length n" "0 :: byte"] by simp
  have "0 # replicate (19 - length n) 0 = replicate (20 - length n) (0 :: byte)"
    using l by (simp add: Suc_diff_Suc flip: replicate_Suc)
  then show ?thesis
    using wrn_at [of off xs "n @ [0]" "replicate (length n + 1) 0" "replicate (19 - length n) 0 @ zs"] assms(2) z
    by (simp add: name_field_def)
qed

section \<open>Batches\<close>

function chunks :: "nat \<Rightarrow> 'a list \<Rightarrow> 'a list list" where
  "chunks n xs = (if xs = [] \<or> n = 0 then [] else take n xs # chunks n (drop n xs))"
  by pat_completeness auto
termination by (relation "measure (length \<circ> snd)") auto

declare chunks.simps [simp del]

lemma chunks_Nil [simp]: "chunks n [] = []"
  by (simp add: chunks.simps)

lemma chunks_one: "xs \<noteq> [] \<Longrightarrow> length xs \<le> n \<Longrightarrow> chunks n xs = [xs]"
  by (cases "n = 0") (simp_all add: chunks.simps [of n xs])

lemma chunks_full: "length xs = n \<Longrightarrow> 0 < n \<Longrightarrow> chunks n (xs @ ys) = xs # chunks n ys"
  by (subst chunks.simps) auto

lemma concat_chunks: "0 < n \<Longrightarrow> concat (chunks n xs) = xs"
  by (induction n xs rule: chunks.induct) (subst chunks.simps, simp)

lemma chunks_bound: "b \<in> set (chunks n xs) \<Longrightarrow> b \<noteq> [] \<and> length b \<le> n"
proof (induction n xs rule: chunks.induct)
  case (1 n xs)
  then show ?case by (cases "xs = [] \<or> n = 0") (auto simp: chunks.simps [of n xs])
qed

text \<open>What a receiver reads from the messages of a batch run\<close>

lemma batches_read:
  assumes e: "map entries msgs = map (Some \<circ> map f) (chunks n xs)" and n: "0 < n"
  shows "concat (map (the \<circ> entries) msgs) = map f xs"
    "list_all (\<lambda>msg. \<exists>ds. entries msg = Some ds \<and> ds \<noteq> [] \<and> length ds \<le> n) msgs"
proof -
  have "map (the \<circ> entries) msgs = map the (map entries msgs)" by simp
  also have "\<dots> = map (map f) (chunks n xs)" unfolding e by simp
  finally have "concat (map (the \<circ> entries) msgs) = map f (concat (chunks n xs))" by (simp add: map_concat)
  then show "concat (map (the \<circ> entries) msgs) = map f xs" by (simp add: concat_chunks n)
  have "\<exists>ds. entries msg = Some ds \<and> ds \<noteq> [] \<and> length ds \<le> n" if "msg \<in> set msgs" for msg
  proof -
    have "entries msg \<in> set (map (Some \<circ> map f) (chunks n xs))" using that by (simp only: e [symmetric]) simp
    then obtain b where "entries msg = Some (map f b)" "b \<in> set (chunks n xs)" by auto
    then show ?thesis using chunks_bound [of b n xs] by simp
  qed
  then show "list_all (\<lambda>msg. \<exists>ds. entries msg = Some ds \<and> ds \<noteq> [] \<and> length ds \<le> n) msgs"
    by (simp add: list_all_iff)
qed

section \<open>The contract of a kind of entry\<close>

locale info_codec =
  fixes tlv :: "16 word" and sz :: nat and ok :: "'e \<Rightarrow> bool" and bytes :: "'e \<Rightarrow> mem"
    and rd :: "mem \<Rightarrow> nat \<Rightarrow> 'd option" and data :: "'e \<Rightarrow> 'd"
  assumes length_bytes: "ok e \<Longrightarrow> length (bytes e) = sz"
    and rd_bytes: "ok e \<Longrightarrow> length xs = 22 + sz * i \<Longrightarrow> rd (xs @ bytes e @ zs) i = Some (data e)"
begin

lemma length_entries: "list_all ok es \<Longrightarrow> length (concat (map bytes es)) = sz * length es"
  by (induction es) (simp_all add: length_bytes)

lemma length_info: "list_all ok es \<Longrightarrow> length (info_msg tlv sz bytes rg mid es) = 22 + sz * length es"
  by (simp add: info_msg_def length_entries)

lemma entries_of_info:
  assumes ok: "list_all ok es" and n: "length es < 65536"
  shows "info_entries rd (info_msg tlv sz bytes rg mid es) = Some (map data es)"
proof -
  let ?h = "LDPHdr MSG_T_RG_APP_DATA (22 + sz * length es) mid @ ICCRGIDTLV rg @
     ICCParameter tlv (2 + sz * length es)"
  let ?b = "info_msg tlv sz bytes rg mid es"
  have b: "?b = ?h @ enc16 (of_nat (length es)) @ concat (map bytes es)" by (simp add: info_msg_def)
  have num: "rd16be ?b 20 = Some (of_nat (length es))" unfolding b by (rule rd16be_at) simp
  have u: "unat (of_nat (length es) :: 16 word) = length es" using n by (simp add: unat_of_nat)
  have "rd ?b i = Some (data (es ! i))" if i: "i < length es" for i
  proof -
    have "es = take i es @ es ! i # drop (Suc i) es" using i by (simp add: id_take_nth_drop)
    then have "concat (map bytes es) = concat (map bytes (take i es)) @ bytes (es ! i) @
        concat (map bytes (drop (Suc i) es))" by (metis concat.simps(2) concat_append list.simps(9) map_append)
    moreover have "list_all ok (take i es)" "ok (es ! i)"
      using ok i by (auto simp: list_all_iff dest: in_set_takeD)
    ultimately show ?thesis using rd_bytes [of "es ! i"
        "?h @ enc16 (of_nat (length es)) @ concat (map bytes (take i es))" i
        "concat (map bytes (drop (Suc i) es))"] i b by (simp add: length_entries)
  qed
  then have "those (map (rd ?b) [0..<length es]) = Some (map (\<lambda>i. data (es ! i)) [0..<length es])"
    by (intro those_map_Some) simp
  moreover have "map (\<lambda>i. data (es ! i)) [0..<length es] = map data es" by (intro nth_equalityI) simp_all
  ultimately show ?thesis using num u by (simp add: info_entries_def)
qed

lemma pad_info:
  assumes ok: "list_all ok es" and buf: "buf = (if es = [] then [] else info_msg tlv sz bytes rg mid es)"
  shows "\<exists>h t l n. pad (22 + sz * (length es + 1)) buf = h @ t @ l @ n @ concat (map bytes es) @ replicate sz 0 \<and>
         length h = 16 \<and> length t = 2 \<and> length l = 2 \<and> length n = 2 \<and>
         (es \<noteq> [] \<longrightarrow> t = enc16le (htons tlv AND 0x3fff))"
proof (cases "es = []")
  case True
  have "pad (22 + sz * (length es + 1)) buf = replicate 16 0 @ replicate 2 0 @ replicate 2 0 @ replicate 2 0 @
      concat (map bytes es) @ replicate sz 0"
  proof -
    have "22 + sz = 16 + (2 + (2 + (2 + sz)))" by simp
    then have "replicate (22 + sz) (0 :: byte) =
        replicate 16 0 @ replicate 2 0 @ replicate 2 0 @ replicate 2 0 @ replicate sz 0"
      by (simp only: replicate_add)
    then show ?thesis using True buf by (simp add: pad_def del: replicate.simps)
  qed
  then show ?thesis using True by (metis length_replicate)
next
  case False
  have "pad (22 + sz * (length es + 1)) buf =
      (LDPHdr MSG_T_RG_APP_DATA (22 + sz * length es) mid @ ICCRGIDTLV rg) @
      enc16le (htons tlv AND 0x3fff) @ enc16 (of_nat (2 + sz * length es)) @
      enc16 (of_nat (length es)) @ concat (map bytes es) @ replicate sz 0"
    using False buf length_info [OF ok] by (simp add: pad_def info_msg_def ICCParameter_def)
  moreover have "length (LDPHdr MSG_T_RG_APP_DATA (22 + sz * length es) mid @ ICCRGIDTLV rg) = 16" by simp
  ultimately show ?thesis by (metis length_enc(1,2))
qed

text \<open>
  The writes of the header, the parameter and the number of entries turn the buffer that holds
  \<open>es\<close> into the message of \<open>es @ [e]\<close>, except for the zeros where \<open>e\<close> goes.
\<close>

lemma header_writes:
  assumes ok: "list_all ok es" and buf: "buf = (if es = [] then [] else info_msg tlv sz bytes rg' mid' es)"
    and hdr: "hdr = LDPHdr MSG_T_RG_APP_DATA (22 + sz * (length es + 1)) mid @ ICCRGIDTLV rg"
    and par: "par = ICCParameter tlv (2 + sz * (length es + 1))"
  shows "\<exists>p. length p = 22 + sz * length es \<and>
     (\<forall>e. p @ bytes e = info_msg tlv sz bytes rg mid (es @ [e])) \<and>
     (\<forall>f. do { buf \<leftarrow> wrn (pad (22 + sz * (length es + 1)) buf) 0 hdr;
               buf \<leftarrow> wrn buf 18 (drop 2 par);
               buf \<leftarrow> wrn buf 20 (enc16 (of_nat (length es + 1)));
               buf \<leftarrow> (if length es = 0 then wrn buf 16 (take 2 par) else Some buf);
               f buf } = f (p @ replicate sz 0))"
proof -
  obtain h t l k where p: "pad (22 + sz * (length es + 1)) buf = h @ t @ l @ k @ concat (map bytes es) @ replicate sz 0"
    and len: "length h = 16" "length t = 2" "length l = 2" "length k = 2"
    and t: "es \<noteq> [] \<longrightarrow> t = enc16le (htons tlv AND 0x3fff)"
    using pad_info [OF ok buf] by auto
  let ?E = "concat (map bytes es)" and ?z = "replicate sz (0 :: byte)"
  let ?T = "enc16le (htons tlv AND 0x3fff)" and ?L = "enc16 (of_nat (2 + sz * (length es + 1)))"
  let ?N = "enc16 (of_nat (length es + 1))" and ?p = "hdr @ take 2 par @ drop 2 par @ enc16 (of_nat (length es + 1)) @ concat (map bytes es)"
  have pr: "drop 2 par = ?L" "take 2 par = ?T" by (simp_all add: par ICCParameter_def)
  have lh: "length hdr = 16" by (simp add: hdr)
  have w1: "wrn (h @ t @ l @ k @ ?E @ ?z) 0 hdr = Some (hdr @ t @ l @ k @ ?E @ ?z)"
    using wrn_at [of 0 "[]" hdr h "t @ l @ k @ ?E @ ?z"] len lh by simp
  have w2: "wrn (hdr @ t @ l @ k @ ?E @ ?z) 18 ?L = Some (hdr @ t @ ?L @ k @ ?E @ ?z)"
    using wrn_at [of 18 "hdr @ t" ?L l "k @ ?E @ ?z"] len lh by simp
  have w3: "wrn (hdr @ t @ ?L @ k @ ?E @ ?z) 20 ?N = Some (hdr @ t @ ?L @ ?N @ ?E @ ?z)"
    using wrn_at [of 20 "hdr @ t @ ?L" ?N k "?E @ ?z"] len lh by simp
  have w4: "(if length es = 0 then wrn (hdr @ t @ ?L @ ?N @ ?E @ ?z) 16 ?T else Some (hdr @ t @ ?L @ ?N @ ?E @ ?z)) =
      Some (?p @ ?z)"
    using wrn_at [of 16 hdr ?T t "?L @ ?N @ ?E @ ?z"] lh len t pr by (cases "es = []") simp_all
  have "length ?p = 22 + sz * length es" using ok lh by (simp add: pr length_entries del: of_nat_add)
  moreover have "\<forall>e. ?p @ bytes e = info_msg tlv sz bytes rg mid (es @ [e])"
    by (simp add: info_msg_def hdr par)
  ultimately show ?thesis unfolding p by (intro exI [of _ ?p]) (simp only: pr w1 w2 w3 w4 bind.bind_lunit simp_thms)
qed

end

end
