(* ===== verification/Iccp_MacSync.thy ===== *)
theory Iccp_MacSync
  imports Iccp_Batch
begin

text \<open>
  What the MAC handlers achieve: the message that carries a batch of entries and its decoding, the
  draining of the queue, runs of arbitrary events as an \<open>invariant_system\<close>, and the life of an
  address on two switches.
\<close>

unbundle bit_operations_syntax

section \<open>The MAC information message\<close>

text \<open>The bytes of an entry, a message that carries the entries \<open>ms\<close>, and the entries a receiver reads in it\<close>

definition entry_bytes :: "MACMsg \<Rightarrow> mem" where
  "entry_bytes m = [op_type m, fdb_type m] @ mac_addr m @ enc16 (vid m) @ name_field (origin_ifname m)"

definition mac_info_msg :: "32 word \<Rightarrow> 32 word \<Rightarrow> MACMsg list \<Rightarrow> mem" where
  "mac_info_msg = info_msg TLV_T_MLACP_MAC_INFO 30 entry_bytes"

definition mac_data :: "MACMsg \<Rightarrow> mLACPMACData" where
  "mac_data m = \<lparr> md_type = op_type m, md_mac_type = fdb_type m, md_mac_addr = mac_addr m,
     md_vid = vid m, md_ifname = origin_ifname m \<rparr>"

definition mac_entries :: "mem \<Rightarrow> mLACPMACData list option" where
  "mac_entries = info_entries MacEntry"

lemma length_entry_bytes: "entry_ok m \<Longrightarrow> length (entry_bytes m) = 30"
  by (simp add: entry_bytes_def entry_ok_def name_field_ok)

lemma MacEntry_at:
  assumes ok: "entry_ok m" and len: "length xs = 22 + 30 * i"
  shows "MacEntry (xs @ entry_bytes m @ zs) i = Some (mac_data m)"
proof -
  let ?mac = "mac_addr m" and ?v = "enc16 (vid m)" and ?name = "name_field (origin_ifname m)"
  have l: "length ?mac = 6" and n: "name_ok (origin_ifname m)" using ok by (simp_all add: entry_ok_def)
  note nf = name_field_ok [OF n]
  let ?b = "xs @ entry_bytes m @ zs"
  have b: "?b = xs @ op_type m # fdb_type m # ?mac @ ?v @ ?name @ zs" by (simp add: entry_bytes_def)
  have "rd8 ?b (22 + 30 * i) = Some (op_type m)" unfolding b by (rule rd8_at) (simp add: len)
  moreover have "rd8 ?b (22 + 30 * i + 1) = Some (fdb_type m)"
    using rd8_at [of _ "xs @ [op_type m]" "fdb_type m" "?mac @ ?v @ ?name @ zs"] b len by simp
  moreover have "rdn ?b (22 + 30 * i + 2) 6 = Some ?mac"
    using rdn_at [of _ "xs @ [op_type m, fdb_type m]" 6 ?mac "?v @ ?name @ zs"] b len l by simp
  moreover have "rd16be ?b (22 + 30 * i + 8) = Some (vid m)"
    using rd16be_at [of _ "xs @ [op_type m, fdb_type m] @ ?mac" "vid m" "?name @ zs"] b len l by simp
  moreover have "rdn ?b (22 + 30 * i + 10) 20 = Some ?name"
    using rdn_at [of _ "xs @ [op_type m, fdb_type m] @ ?mac @ ?v" 20 ?name zs] b len l nf by simp
  ultimately show ?thesis using nf by (simp add: MacEntry_def mac_data_def Let_def)
qed

interpretation macc: info_codec TLV_T_MLACP_MAC_INFO 30 entry_ok entry_bytes MacEntry mac_data
  by unfold_locales (simp_all add: length_entry_bytes MacEntry_at)

lemmas length_mac_info_msg = macc.length_info [folded mac_info_msg_def]
lemmas mac_entries_of_msg = macc.entries_of_info [folded mac_info_msg_def mac_entries_def]

lemma entry_writes:
  assumes ok: "entry_ok m" and off: "off = length xs"
  shows "do { buf \<leftarrow> wrn (xs @ replicate 30 0) off ([op_type m, fdb_type m] @ take ETHER_ADDR_LEN (mac_addr m));
              buf \<leftarrow> wrn buf (off + 10) (origin_ifname m @ [0]);
              buf \<leftarrow> wrn buf (off + 8) (enc16 (vid m));
              f buf } = f (xs @ entry_bytes m)"
proof -
  let ?n = "origin_ifname m" and ?e = "[op_type m, fdb_type m] @ mac_addr m"
  have l: "length (mac_addr m) = 6" and n: "name_ok ?n" using ok by (simp_all add: entry_ok_def)
  have z: "replicate 30 (0 :: byte) = replicate 8 0 @ replicate 2 0 @ replicate 20 0"
    by (simp only: flip: replicate_add) simp
  have w1: "wrn (xs @ replicate 8 0 @ replicate 2 0 @ replicate 20 0) off ?e = Some (xs @ ?e @ replicate 2 0 @ replicate 20 0)"
    by (rule wrn_at) (simp_all add: off l)
  have w2: "wrn (xs @ ?e @ replicate 2 0 @ replicate 20 0) (off + 10) (?n @ [0]) = Some (xs @ ?e @ replicate 2 0 @ name_field ?n)"
    using wrn_name [OF n, of "off + 10" "xs @ ?e @ replicate 2 0" "[]"] off l by simp
  have w3: "wrn (xs @ ?e @ replicate 2 0 @ name_field ?n) (off + 8) (enc16 (vid m)) = Some (xs @ ?e @ enc16 (vid m) @ name_field ?n)"
    using wrn_at [of "off + 8" "xs @ ?e" "enc16 (vid m)" "replicate 2 0" "name_field ?n"] off l by simp
  show ?thesis
    unfolding z take_all [OF eq_imp_le [OF l]] w1 bind.bind_lunit w2 w3 by (simp add: entry_bytes_def)
qed

text \<open>One more entry turns the message of \<open>ms\<close> into the message of \<open>ms @ [m]\<close>.\<close>

lemma prepare_mac_info:
  assumes ok: "list_all entry_ok ms" "entry_ok m" and n: "length ms < 30"
    and buf: "buf = (if ms = [] then [] else mac_info_msg (mac_rg_id c) mid ms)"
  shows "mlacp_prepare_for_mac_info_to_peer c buf CSM_BUFFER_SIZE m (length ms) =
     Some (int (52 + 30 * length ms), mac_info_msg (mac_rg_id c) (mac_msg_id c) (ms @ [m]),
           c\<lparr> mac_msg_id := mac_msg_id c + 1 \<rparr>)"
proof -
  obtain p where p: "length p = 22 + 30 * length ms"
      "\<And>e. p @ entry_bytes e = mac_info_msg (mac_rg_id c) (mac_msg_id c) (ms @ [e])"
    and w: "\<And>f :: mem \<Rightarrow> (int \<times> mem \<times> mac_ctx) option.
             do { buf \<leftarrow> wrn (pad (22 + 30 * (length ms + 1)) buf) 0
               (LDPHdr MSG_T_RG_APP_DATA (22 + 30 * (length ms + 1)) (mac_msg_id c) @ ICCRGIDTLV (mac_rg_id c));
               buf \<leftarrow> wrn buf 18 (drop 2 (ICCParameter TLV_T_MLACP_MAC_INFO (2 + 30 * (length ms + 1))));
               buf \<leftarrow> wrn buf 20 (enc16 (of_nat (length ms + 1)));
               buf \<leftarrow> (if length ms = 0 then wrn buf 16 (take 2 (ICCParameter TLV_T_MLACP_MAC_INFO (2 + 30 * (length ms + 1))))
                      else Some buf);
               f buf } = f (p @ replicate 30 0)"
    using macc.header_writes [OF ok(1) buf [unfolded mac_info_msg_def] refl refl, folded mac_info_msg_def] by blast
  have sz: "16 + (6 + 30 * (length ms + 1)) = 22 + 30 * (length ms + 1)"
    "6 + 30 * (length ms + 1) - 4 = 2 + 30 * (length ms + 1)" "16 + 6 + 30 * length ms = 22 + 30 * length ms"
    "\<not> 65536 < 22 + 30 * (length ms + 1)" "(16 :: nat) + 2 = 18" "(16 :: nat) + 4 = 20" using n by simp_all
  show ?thesis
    unfolding mlacp_prepare_for_mac_info_to_peer_def mlacp_fill_icc_header_def Let_def sz prod.case
      if_not_P [OF sz(4)] w entry_writes [OF ok(2) p(1) [symmetric]] p(2)
    by simp
qed

section \<open>Draining the queue\<close>

text \<open>
  One round of the sending loop: the entry joins the message, and the entry and the tree stay
  well-formed.
\<close>

lemma unlink_inv:
  assumes inv: "mac_inv c" and q: "mac_msg_list c = a # as" and m: "cells c a = Some m"
  shows "mac_inv (c\<lparr> mac_msg_list := as, cells := (cells c)(a \<mapsto> m\<lparr> in_msg_list := False \<rparr>) \<rparr>)"
proof -
  have "sorted_wrt (before (cells c)) (mac_rb c)" using inv by (simp add: mac_inv_def)
  then have "sorted_wrt (before ((cells c)(a \<mapsto> m\<lparr> in_msg_list := False \<rparr>))) (mac_rb c)"
    by (rule sorted_wrt_before_cong) (simp add: m)
  moreover have "a < brk c" "entry_ok m" "a \<notin> set as" "distinct as"
    using inv m q by (auto simp: mac_inv_def)
  moreover have "entry_ok (m\<lparr> in_msg_list := False \<rparr>) = entry_ok m" by (simp add: entry_ok_def)
  moreover have "\<forall>b n. cells c b = Some n \<and> b \<noteq> a \<longrightarrow> (in_msg_list n \<longleftrightarrow> b \<in> set as)"
    using inv q by (auto simp: mac_inv_def)
  ultimately show ?thesis using inv q by (auto simp: mac_inv_def)
qed

lemma send_one_ok:
  assumes inv: "mac_inv c" and q: "mac_msg_list c = a # as" and m: "cells c a = Some m"
    and ms: "list_all entry_ok ms" "length ms < 30"
    and buf: "buf = (if ms = [] then [] else mac_info_msg (mac_rg_id c) mid ms)"
  shows "\<exists>c'. send_one a as (length ms) buf c =
      Some (int (52 + 30 * length ms), mac_info_msg (mac_rg_id c) (mac_msg_id c) (ms @ [m]), c') \<and>
    mac_inv c' \<and> mac_msg_list c' = as \<and> mac_rb c' = mac_rb c \<and> mac_rg_id c' = mac_rg_id c \<and>
    sent c' = sent c \<and> (\<forall>b. b \<noteq> a \<longrightarrow> cells c' b = cells c b)"
proof -
  let ?m = "m\<lparr> in_msg_list := False \<rparr>"
  let ?c = "c\<lparr> mac_msg_list := as, cells := (cells c)(a \<mapsto> ?m), mac_msg_id := mac_msg_id c + 1 \<rparr>"
  have ok: "entry_ok ?m" using inv m by (simp add: mac_inv_def entry_ok_def)
  have i: "mac_inv ?c" using unlink_inv [OF inv q m] by simp
  have p: "mlacp_prepare_for_mac_info_to_peer (c\<lparr> mac_msg_list := as, cells := (cells c)(a \<mapsto> ?m) \<rparr>) buf
      CSM_BUFFER_SIZE ?m (length ms) =
      Some (int (52 + 30 * length ms), mac_info_msg (mac_rg_id c) (mac_msg_id c) (ms @ [?m]), ?c)"
    using prepare_mac_info [OF ms(1) ok ms(2), of buf "c\<lparr> mac_msg_list := as, cells := (cells c)(a \<mapsto> ?m) \<rparr>" mid] buf
    unfolding mac_ctx.simps by fastforce
  have bytes: "mac_info_msg (mac_rg_id c) (mac_msg_id c) (ms @ [?m]) = mac_info_msg (mac_rg_id c) (mac_msg_id c) (ms @ [m])"
    by (simp add: mac_info_msg_def info_msg_def entry_bytes_def)
  obtain r where r: "RB_FIND ?c (vid m) (mac_addr m) = Some r"
    using wp_RB_FIND [OF i, of "vid m" "mac_addr m" "\<lambda>_. True"] by (auto simp: wp_def)
  have f: "mac_inv (?c\<lparr> cells := (cells ?c)(a := None) \<rparr>)" if "a \<notin> set (mac_rb c)"
    using free_inv [OF i, of a] that q inv by (auto simp: mac_inv_def [of c])
  have s1: "send_one a as (length ms) buf c =
      do { c' \<leftarrow> (if op_type m = MAC_SYNC_DEL \<and> a \<notin> set (mac_rb c)
                  then (if r = None then free_mac a ?c else Some ?c) else Some ?c);
           Some (int (52 + 30 * length ms), mac_info_msg (mac_rg_id c) (mac_msg_id c) (ms @ [m]), c') }"
    using m p r by (simp add: send_one_def upd_def bytes)
  show ?thesis
  proof (cases "op_type m = MAC_SYNC_DEL \<and> a \<notin> set (mac_rb c) \<and> r = None")
    case True
    then show ?thesis using s1 f by (simp add: free_mac_def)
  next
    case False
    then have "send_one a as (length ms) buf c = Some (int (52 + 30 * length ms),
        mac_info_msg (mac_rg_id c) (mac_msg_id c) (ms @ [m]), ?c)" using s1 by auto
    then show ?thesis using i by simp
  qed
qed

lemma send_mac_info_msg:
  "list_all entry_ok ms \<Longrightarrow> iccp_csm_send_mac (mac_info_msg rg mid ms) (int (22 + 30 * length ms)) c =
     c\<lparr> sent := sent c @ [mac_info_msg rg mid ms] \<rparr>"
  by (simp add: iccp_csm_send_mac_def length_mac_info_msg nat_add_distrib nat_mult_distrib)

lemma send_loop_ok:
  assumes "mac_inv c" "mac_msg_list c = as" "list_all entry_ok ms" "length ms < 30"
    and "buf = (if ms = [] then [] else mac_info_msg (mac_rg_id c) mid ms)"
    and "ms \<noteq> [] \<longrightarrow> len = int (22 + 30 * length ms)"
  shows "\<exists>c' msgs. send_loop as (length ms) len buf c = Some c' \<and> mac_inv c' \<and> mac_msg_list c' = [] \<and>
           mac_rb c' = mac_rb c \<and> sent c' = sent c @ msgs \<and>
           map mac_entries msgs = map (Some \<circ> map mac_data) (chunks 30 (ms @ map (the \<circ> cells c) as))"
  using assms
proof (induction as arbitrary: c ms buf mid len)
  case Nil
  then show ?case
    by (cases "ms = []") (auto simp: send_mac_info_msg [simplified] chunks_one mac_entries_of_msg)
next
  case (Cons a as)
  obtain m where m: "cells c a = Some m" "entry_ok m" "a \<notin> set as"
    using Cons.prems(1,2) by (fastforce simp: mac_inv_def)
  obtain c1 where s1: "send_one a as (length ms) buf c =
      Some (int (52 + 30 * length ms), mac_info_msg (mac_rg_id c) (mac_msg_id c) (ms @ [m]), c1)"
    and c1: "mac_inv c1" "mac_msg_list c1 = as" "mac_rb c1 = mac_rb c" "mac_rg_id c1 = mac_rg_id c"
      "sent c1 = sent c" "\<And>b. b \<noteq> a \<Longrightarrow> cells c1 b = cells c b"
    using send_one_ok [OF Cons.prems(1,2) m(1) Cons.prems(3,4,5)] by auto
  have "cells c1 b = cells c b" if "b \<in> set as" for b using that m(3) c1(6) by metis
  then have rest: "map (the \<circ> cells c1) as = map (the \<circ> cells c) as" by simp
  have ok: "list_all entry_ok (ms @ [m])" using Cons.prems(3) m(2) by simp
  let ?msg = "mac_info_msg (mac_rg_id c) (mac_msg_id c) (ms @ [m])"
  show ?case
  proof (cases "length ms + 1 < 30")
    case True
    then show ?thesis
      using Cons.IH [of c1 "ms @ [m]" ?msg "mac_msg_id c" "int (52 + 30 * length ms)", unfolded rest] c1 ok s1 m
      by (simp add: comp_def)
  next
    case False
    then have l: "length (ms @ [m]) = 30" using Cons.prems(4) by simp
    let ?c = "c1\<lparr> sent := sent c1 @ [?msg] \<rparr>"
    have snd1: "iccp_csm_send_mac ?msg (int (52 + 30 * length ms)) c1 = ?c"
      using send_mac_info_msg [OF ok, of "mac_rg_id c" "mac_msg_id c" c1] by simp
    obtain c' msgs where "send_loop as 0 (int (52 + 30 * length ms)) [] ?c = Some c'" "mac_inv c'" "mac_msg_list c' = []"
      "mac_rb c' = mac_rb c" "sent c' = sent c @ ?msg # msgs"
      "map mac_entries msgs = map (Some \<circ> map mac_data) (chunks 30 (map (the \<circ> cells c) as))"
      using Cons.IH [of ?c "[]" "[]" mid "int (52 + 30 * length ms)"] c1 rest by (auto cong: map_cong)
    moreover have "chunks 30 (ms @ map (the \<circ> cells c) (a # as)) = (ms @ [m]) # chunks 30 (map (the \<circ> cells c) as)"
      using chunks_full [OF l, of "map (the \<circ> cells c) as"] m(1) by simp
    moreover have "mac_entries ?msg = Some (map mac_data (ms @ [m]))" using mac_entries_of_msg [OF ok] l by simp
    ultimately show ?thesis using s1 snd1 False by (intro exI [of _ c'] exI [of _ "?msg # msgs"])
      (simp add: comp_def)
  qed
qed

lemma send_syncMacInfo_ok:
  assumes "mac_inv c"
  shows "\<exists>c' msgs. mlacp_sync_send_syncMacInfo c = Some c' \<and> mac_inv c' \<and> mac_msg_list c' = [] \<and>
           mac_rb c' = mac_rb c \<and> sent c' = sent c @ msgs \<and>
           map mac_entries msgs = map (Some \<circ> map mac_data) (chunks 30 (map (the \<circ> cells c) (mac_msg_list c)))"
  using send_loop_ok [OF assms refl, of "[]" "[]"] by (simp add: mlacp_sync_send_syncMacInfo_def)

lemma mac_info_from_peer_inv:
  assumes "mac_inv c" "mac_entries buf \<noteq> None"
  shows "wp (mlacp_fsm_update_mac_info_from_peer buf c) mac_inv"
proof -
  obtain num where num: "rd16be buf 20 = Some num" "those (map (MacEntry buf) [0..<unat num]) \<noteq> None"
    using assms(2) by (auto simp: mac_entries_def info_entries_def split: bind_split_asm)
  then have "\<forall>i \<in> set [0..<unat num]. MacEntry buf i \<noteq> None"
    unfolding those_None by (metis image_eqI set_map)
  from update_mac_entries_inv [OF this assms(1)] show ?thesis
    using num(1) by (simp add: mlacp_fsm_update_mac_info_from_peer_def wp_def)
qed

section \<open>Runs of the MAC handlers\<close>

text \<open>
  The events the handlers are called for.  \<open>Environment\<close> stands for the other parts of the daemon:
  it gives the interfaces, the peer's interfaces, the state of the peer link, of the
  synchronisation and of the allocator any new value.
\<close>

datatype mac_event =
    Syncd_update mem "16 word" ifname byte byte
  | Peer_mac_info mem
  | Po_state ifname bool
  | Orphan_state ifname bool
  | Peer_if_deleted ifname
  | Mclag_if_detached ifname
  | Peer_disconnected
  | Peer_link_up
  | Peer_link_down
  | Sync_all_macs
  | Send_queue
  | Clear_pending_of ifname
  | Environment "mac_lif list" "(ifname \<times> port_state) list" "ifname option" bool bool

fun mac_handle :: "mac_event \<Rightarrow> mac_ctx \<Rightarrow> mac_ctx option" where
  "mac_handle (Syncd_update mac v name ty oper) c = do_mac_update_from_syncd mac v name ty oper c"
| "mac_handle (Peer_mac_info buf) c = mlacp_fsm_update_mac_info_from_peer buf c"
| "mac_handle (Po_state name up) c = update_l2_mac_state name up c"
| "mac_handle (Orphan_state name up) c = update_orphan_port_mac name up c"
| "mac_handle (Peer_if_deleted name) c = mlacp_convert_remote_mac_to_local name c"
| "mac_handle (Mclag_if_detached name) c = update_remote_macs_to_peerlink name c"
| "mac_handle Peer_disconnected c = mlacp_peer_disconn_fdb_handler c"
| "mac_handle Peer_link_up c = mlacp_peerlink_up_handler c"
| "mac_handle Peer_link_down c = mlacp_peerlink_down_handler c"
| "mac_handle Sync_all_macs c = mlacp_sync_mac c"
| "mac_handle Send_queue c = mlacp_sync_send_syncMacInfo c"
| "mac_handle (Clear_pending_of name) c = mlacp_local_lif_clear_pending_mac name c"
| "mac_handle (Environment ls ps pl ex al) c =
     Some (c\<lparr> lifs := ls, pifs := ps, peer_link_if := pl, exchange := ex, malloc_ok := al \<rparr>)"

text \<open>
  mclagsyncd sends addresses of six bytes and names that fit their field; a message of the peer
  holds the entries it announces, each with a terminated name.
\<close>

fun event_ok :: "mac_event \<Rightarrow> bool" where
  "event_ok (Syncd_update mac v name ty oper) \<longleftrightarrow> length mac = ETHER_ADDR_LEN \<and> name_ok name"
| "event_ok (Peer_mac_info buf) \<longleftrightarrow> mac_entries buf \<noteq> None"
| "event_ok _ \<longleftrightarrow> True"

abbreviation mac_run :: "mac_event list \<Rightarrow> mac_ctx \<Rightarrow> mac_ctx option" where
  "mac_run \<equiv> run_events mac_handle"

definition mac_start :: "mac_ctx \<Rightarrow> bool" where
  "mac_start c \<longleftrightarrow> mac_rb c = [] \<and> mac_msg_list c = [] \<and> cells c = (\<lambda>_. None) \<and>
     name_ok (peer_itf c) \<and> peer_itf c \<noteq> []"

lemma mac_handle_inv: "mac_inv c \<Longrightarrow> event_ok e \<Longrightarrow> wp (mac_handle e c) mac_inv"
proof (cases e)
  case Send_queue
  assume "mac_inv c"
  from send_syncMacInfo_ok [OF this] show ?thesis using Send_queue by (auto simp: wp_def)
next
  case (Environment ls ps pl ex al)
  assume "mac_inv c"
  then show ?thesis using Environment by (simp add: wp_def mac_inv_def)
qed (simp_all add: do_mac_update_from_syncd_inv mac_info_from_peer_inv update_l2_mac_state_inv
  update_orphan_port_mac_inv convert_remote_mac_inv remote_macs_to_peerlink_inv peer_disconn_inv
  peerlink_up_inv peerlink_down_inv sync_mac_inv lif_clear_pending_inv)

interpretation macs: event_system mac_handle event_ok mac_start mac_inv
proof
  show "mac_inv c" if "mac_start c" for c using that by (simp add: mac_start_def mac_inv_def)
  show "\<exists>c'. mac_handle e c = Some c' \<and> mac_inv c'" if "mac_inv c" "event_ok e" for c e
    using mac_handle_inv [OF that] by (simp add: wp_def)
qed

section \<open>An address on two switches\<close>

lemma sorted_wrt_total: "sorted_wrt R xs \<Longrightarrow> x \<in> set xs \<Longrightarrow> y \<in> set xs \<Longrightarrow> y \<noteq> x \<Longrightarrow> R x y \<or> R y x"
  by (induction xs) auto

lemma RB_FIND_present:
  assumes inv: "mac_inv c" and a: "a \<in> set (mac_rb c)" "cells c a = Some m"
  shows "RB_FIND c (vid m) (mac_addr m) = Some (Some a)"
proof -
  have uniq: "b = a" if b: "b \<in> set (mac_rb c)" "cells c b = Some n" "vid n = vid m" "mac_addr n = mac_addr m" for b n
  proof (rule ccontr)
    assume "b \<noteq> a"
    then have "before (cells c) a b \<or> before (cells c) b a"
      using sorted_wrt_total [OF _ a(1) b(1)] inv by (simp add: mac_inv_def)
    then show False using a(2) b by (auto simp: before_def MACMsg_compare_def)
  qed
  have "wp (RB_FIND c (vid m) (mac_addr m)) (\<lambda>r. r = Some a)"
  proof (rule wp_RB_FIND [OF inv])
    assume "\<And>b n. b \<in> set (mac_rb c) \<Longrightarrow> cells c b = Some n \<Longrightarrow> \<not> (vid n = vid m \<and> mac_addr n = mac_addr m)"
    from this [OF a] show "None = Some a" by simp
  next
    fix b n assume "at b (mac_rb c) c" "cells c b = Some n" "vid n = vid m" "mac_addr n = mac_addr m"
    then show "Some b = Some a" using uniq [of b n] by (simp add: at_def)
  qed
  then show ?thesis by (simp add: wp_def)
qed

lemma RB_FIND_absent:
  assumes inv: "mac_inv c"
    and no: "\<And>a m. a \<in> set (mac_rb c) \<Longrightarrow> cells c a = Some m \<Longrightarrow> \<not> (vid m = v \<and> mac_addr m = mac)"
  shows "RB_FIND c v mac = Some None"
proof -
  have "wp (RB_FIND c v mac) (\<lambda>r. r = None)"
  proof (rule wp_RB_FIND [OF inv])
    fix b n assume "at b (mac_rb c) c" "cells c b = Some n" "vid n = v" "mac_addr n = mac"
    then show "Some b = None" using no [of b n] by (simp add: at_def)
  qed simp
  then show ?thesis by (simp add: wp_def)
qed

lemma RB_FIND_None_D:
  "RB_FIND c v mac = Some None \<Longrightarrow> a \<in> set (mac_rb c) \<Longrightarrow> cells c a = Some m \<Longrightarrow> \<not> (vid m = v \<and> mac_addr m = mac)"
  by (auto simp: RB_FIND_def find_None_iff MACMsg_compare_zero split: if_splits dest: spec [of _ a])

lemma insert_absent:
  assumes inv: "mac_inv c" and m: "entry_ok m" "\<not> in_msg_list m" and new: "RB_FIND c (vid m) (mac_addr m) = Some None"
  shows "\<exists>rb. RB_INSERT (brk c) (c\<lparr> cells := (cells c)(brk c \<mapsto> m), brk := brk c + 1 \<rparr>) =
           Some (c\<lparr> cells := (cells c)(brk c \<mapsto> m), brk := brk c + 1, mac_rb := rb \<rparr>) \<and>
         set rb = insert (brk c) (set (mac_rb c)) \<and>
         at (brk c) rb (c\<lparr> cells := (cells c)(brk c \<mapsto> m), brk := brk c + 1, mac_rb := rb \<rparr>)"
  by (rule insert_new [OF inv m]) (rule RB_FIND_None_D [OF new])

text \<open>A queue of one entry.\<close>

lemma send_single:
  assumes inv: "mac_inv c" and q: "mac_msg_list c = [a]" and m: "cells c a = Some m"
    and keep: "op_type m = MAC_SYNC_DEL \<Longrightarrow> a \<notin> set (mac_rb c) \<and> RB_FIND c (vid m) (mac_addr m) = Some None"
  shows "mlacp_sync_send_syncMacInfo c = Some (c\<lparr> mac_msg_list := [],
      cells := (cells c)(a := if op_type m = MAC_SYNC_DEL then None else Some (m\<lparr> in_msg_list := False \<rparr>)),
      mac_msg_id := mac_msg_id c + 1,
      sent := sent c @ [mac_info_msg (mac_rg_id c) (mac_msg_id c) [m]] \<rparr>)"
proof -
  let ?m = "m\<lparr> in_msg_list := False \<rparr>"
  let ?k = "c\<lparr> mac_msg_list := [], cells := (cells c)(a \<mapsto> ?m) \<rparr>"
  let ?c = "?k\<lparr> mac_msg_id := mac_msg_id c + 1 \<rparr>"
  have ok: "entry_ok m" "entry_ok ?m" using inv m by (simp_all add: mac_inv_def entry_ok_def)
  have p: "mlacp_prepare_for_mac_info_to_peer ?k [] CSM_BUFFER_SIZE ?m 0 =
      Some (52, mac_info_msg (mac_rg_id c) (mac_msg_id c) [?m], ?c)"
    using prepare_mac_info [of "[]" ?m "[]" ?k] ok by simp
  have b: "mac_info_msg (mac_rg_id c) (mac_msg_id c) [?m] = mac_info_msg (mac_rg_id c) (mac_msg_id c) [m]"
    by (simp add: mac_info_msg_def info_msg_def entry_bytes_def)
  have f: "RB_FIND ?c (vid m) (mac_addr m) = Some None" if "op_type m = MAC_SYNC_DEL"
  proof (rule RB_FIND_absent)
    show "mac_inv ?c" using unlink_inv [OF inv q m] by simp
    show "\<not> (vid n = vid m \<and> mac_addr n = mac_addr m)" if "b \<in> set (mac_rb ?c)" "cells ?c b = Some n" for b n
      using that RB_FIND_None_D [of c "vid m" "mac_addr m" b n] keep [OF \<open>op_type m = MAC_SYNC_DEL\<close>]
      by (auto split: if_splits)
  qed
  have s1: "iccp_csm_send_mac (mac_info_msg (mac_rg_id c) (mac_msg_id c) [m]) 52 c' =
      c'\<lparr> sent := sent c' @ [mac_info_msg (mac_rg_id c) (mac_msg_id c) [m]] \<rparr>" for c'
    using send_mac_info_msg [of "[m]"] ok by simp
  show ?thesis
    using m p f keep by (simp add: mlacp_sync_send_syncMacInfo_def q send_one_def upd_def b s1 free_mac_def)
qed

lemma recv_single:
  assumes "entry_ok m"
  shows "mlacp_fsm_update_mac_info_from_peer (mac_info_msg rg mid [m]) c =
     mlacp_fsm_update_mac_entry_from_peer (mac_data m) c"
proof -
  let ?b = "mac_info_msg rg mid [m]"
  let ?h = "LDPHdr MSG_T_RG_APP_DATA 52 mid @ ICCRGIDTLV rg @ ICCParameter TLV_T_MLACP_MAC_INFO 32"
  have b: "?b = ?h @ enc16 1 @ entry_bytes m" by (simp add: mac_info_msg_def info_msg_def)
  have n: "rd16be ?b 20 = Some 1" unfolding b by (rule rd16be_at) simp
  have "MacEntry ((?h @ enc16 1) @ entry_bytes m @ []) 0 = Some (mac_data m)"
    by (rule MacEntry_at [OF assms]) simp
  then have e: "MacEntry ?b 0 = Some (mac_data m)" using b by simp
  have last: "update_mac_entries ?b [] = Some" by (rule ext) simp
  show ?thesis using n e by (simp add: mlacp_fsm_update_mac_info_from_peer_def last)
qed

lemma learn_new:
  fixes ty :: byte
  assumes inv: "mac_inv A" and mac: "length mac = ETHER_ADDR_LEN" "\<not> null_mac mac"
    and n: "name_ok n" "n \<noteq> peer_itf A" "local_if_find_by_name A n = Some l" "ml_state l \<noteq> PORT_STATE_DOWN"
    and env: "exchange A" "malloc_ok A" and new: "RB_FIND A v mac = Some None"
  defines "m \<equiv> MACMsg_zero\<lparr> op_type := MAC_SYNC_ADD, fdb_type := ty, mac_addr := mac, vid := v, ifname := n,
                 origin_ifname := n, age_peer := True, in_msg_list := True \<rparr>"
  shows "\<exists>rb. do_mac_update_from_syncd mac v n ty MAC_SYNC_ADD A =
      Some (A\<lparr> cells := (cells A)(brk A \<mapsto> m), brk := brk A + 1, mac_rb := rb,
               mac_msg_list := mac_msg_list A @ [brk A] \<rparr>) \<and> set rb = insert (brk A) (set (mac_rb A))"
proof -
  let ?m = "MACMsg_zero\<lparr> op_type := MAC_SYNC_ADD, fdb_type := ty, mac_addr := mac, vid := v, ifname := n,
              origin_ifname := n, age_peer := True \<rparr>"
  have m: "entry_ok ?m" "\<not> in_msg_list ?m" "vid ?m = v" "mac_addr ?m = mac"
    using mac n by (simp_all add: entry_ok_def MACMsg_zero_def)
  obtain rb where rb: "RB_INSERT (brk A) (A\<lparr> cells := (cells A)(brk A \<mapsto> ?m), brk := brk A + 1 \<rparr>) =
      Some (A\<lparr> cells := (cells A)(brk A \<mapsto> ?m), brk := brk A + 1, mac_rb := rb \<rparr>)"
    "set rb = insert (brk A) (set (mac_rb A))"
    using insert_absent [OF inv m(1,2)] new m(3,4) by auto
  have "\<not> MAX_L_PORT_NAME \<le> length n" using n(1) by (simp add: name_ok_def)
  then show ?thesis using rb mac n env new
    by (auto simp: do_mac_update_from_syncd_def Let_def syncd_add_new_def iccp_csm_init_mac_msg_def upd_def
        m_def MACMsg_zero_def intro!: exI [of _ rb])
qed

lemma peer_learn_new:
  fixes ty :: byte
  assumes inv: "mac_inv B" and mac: "length mac = ETHER_ADDR_LEN" "\<not> null_mac mac"
    and n: "name_ok n" "n \<noteq> peer_itf B" "mclag_if_find B n = Some l" "ml_state l \<noteq> PORT_STATE_DOWN"
    and env: "malloc_ok B" "sync_fd_ok B" and new: "RB_FIND B v mac = Some None"
  defines "m \<equiv> MACMsg_zero\<lparr> fdb_type := ty, vid := v, mac_addr := mac, ifname := n, origin_ifname := n,
                 age_local := True \<rparr>"
  shows "\<exists>rb. mlacp_fsm_update_mac_entry_from_peer
        \<lparr> md_type = MAC_SYNC_ADD, md_mac_type = ty, md_mac_addr = mac, md_vid = v, md_ifname = n \<rparr> B =
      Some (B\<lparr> cells := (cells B)(brk B \<mapsto> m), brk := brk B + 1, mac_rb := rb,
               fdb_out := fdb_out B @ [\<lparr> fdb_mac = mac, fdb_vid = v, fdb_port_name = n,
                 fdb_entry_type = ty, fdb_op_type = MAC_SYNC_ADD \<rparr>] \<rparr>) \<and>
      brk B \<in> set rb \<and> mac_inv (B\<lparr> cells := (cells B)(brk B \<mapsto> m), brk := brk B + 1, mac_rb := rb \<rparr>)"
proof -
  have m: "entry_ok m" "\<not> in_msg_list m" "vid m = v" "mac_addr m = mac" "ifname m = n" "fdb_type m = ty"
    using mac n by (simp_all add: entry_ok_def MACMsg_zero_def m_def)
  obtain rb where rb: "RB_INSERT (brk B) (B\<lparr> cells := (cells B)(brk B \<mapsto> m), brk := brk B + 1 \<rparr>) =
      Some (B\<lparr> cells := (cells B)(brk B \<mapsto> m), brk := brk B + 1, mac_rb := rb \<rparr>)"
    "at (brk B) rb (B\<lparr> cells := (cells B)(brk B \<mapsto> m), brk := brk B + 1, mac_rb := rb \<rparr>)"
    using insert_absent [OF inv m(1,2)] new m(3,4) by auto
  have "peer_store m (Some l) B = Some (B\<lparr> cells := (cells B)(brk B \<mapsto> m), brk := brk B + 1, mac_rb := rb,
      fdb_out := fdb_out B @ [\<lparr> fdb_mac = mac, fdb_vid = v, fdb_port_name = n,
        fdb_entry_type = ty, fdb_op_type = MAC_SYNC_ADD \<rparr>] \<rparr>)"
    using rb(1) env n mac m
    by (simp add: peer_store_def iccp_csm_init_mac_msg_def add_mac_to_chip_def iccp_send_fdb_entry_to_syncd_def)
  then show ?thesis using rb(2) mac n new
    by (auto simp: mlacp_fsm_update_mac_entry_from_peer_def peer_add_new_def Let_def m_def at_def
        intro!: exI [of _ rb])
qed

lemma age_out_local:
  assumes inv: "mac_inv A" and a: "a \<in> set (mac_rb A)" "cells A a = Some m" and mac: "\<not> null_mac (mac_addr m)"
    and m: "\<not> age_local m" "age_peer m" "ifname m \<noteq> peer_itf A" "\<not> add_to_syncd m"
    and q: "mac_msg_list A = []" "exchange A"
  shows "do_mac_update_from_syncd (mac_addr m) (vid m) n ty MAC_SYNC_DEL A =
      Some (A\<lparr> cells := (cells A)(a \<mapsto> m\<lparr> op_type := MAC_SYNC_DEL, in_msg_list := True, age_local := True \<rparr>),
               mac_msg_list := [a], mac_rb := remove1 a (mac_rb A) \<rparr>)"
proof -
  have "\<not> in_msg_list m" using inv a(2) q(1) by (simp add: mac_inv_def)
  then show ?thesis using a m mac q RB_FIND_present [OF inv a]
    by (simp add: do_mac_update_from_syncd_def Let_def syncd_del_def set_mac_local_age_flag_def upd_def
        enqueue_mac_def aged_out_def drop_mac_def MAC_RB_REMOVE_def free_unless_queued_def)
qed

lemma age_out_peer:
  assumes inv: "mac_inv B" and b: "b \<in> set (mac_rb B)" "cells B b = Some m" and mac: "\<not> null_mac (mac_addr m)"
    and m: "age_local m" "\<not> in_msg_list m" and env: "sync_fd_ok B"
  shows "mlacp_fsm_update_mac_entry_from_peer \<lparr> md_type = MAC_SYNC_DEL, md_mac_type = ty,
        md_mac_addr = mac_addr m, md_vid = vid m, md_ifname = n \<rparr> B =
      Some (B\<lparr> fdb_out := fdb_out B @ [\<lparr> fdb_mac = mac_addr m, fdb_vid = vid m, fdb_port_name = ifname m,
                 fdb_entry_type = fdb_type m, fdb_op_type = MAC_SYNC_DEL \<rparr>],
               cells := (cells B)(b := None), mac_rb := remove1 b (mac_rb B) \<rparr>)"
  using b m mac env RB_FIND_present [OF inv b]
  by (simp add: mlacp_fsm_update_mac_entry_from_peer_def peer_del_def upd_def aged_out_def del_chip_def chip_def
      del_mac_from_chip_def iccp_send_fdb_entry_to_syncd_def drop_mac_def MAC_RB_REMOVE_def
      free_unless_queued_def free_mac_def)

lemma remove1_absent:
  "mac_inv c \<Longrightarrow> a \<in> set (mac_rb c) \<Longrightarrow> cells c a = Some m \<Longrightarrow> b \<in> set (remove1 a (mac_rb c)) \<Longrightarrow>
   cells c b = Some n \<Longrightarrow> \<not> (vid n = vid m \<and> mac_addr n = mac_addr m)"
proof
  assume inv: "mac_inv c" and a: "a \<in> set (mac_rb c)" "cells c a = Some m"
    and b: "b \<in> set (remove1 a (mac_rb c))" "cells c b = Some n" and k: "vid n = vid m \<and> mac_addr n = mac_addr m"
  have b': "b \<in> set (mac_rb c)" "b \<noteq> a" using b(1) rb_distinct [OF inv] by auto
  then show False using RB_FIND_present [OF inv a] RB_FIND_present [OF inv b'(1) b(2)] k by simp
qed

lemma queue_reinit_frees:
  "queue_reinit as c = Some c' \<Longrightarrow> distinct as \<Longrightarrow> mac_rb c' = mac_rb c \<and> mac_msg_list c' = [] \<and>
     (\<forall>a. (cells c a = None \<longrightarrow> cells c' a = None) \<and>
          (a \<in> set as \<and> map_option op_type (cells c a) = Some MAC_SYNC_DEL \<longrightarrow> cells c' a = None))"
proof (induction as arbitrary: c)
  case (Cons a as)
  then obtain m where m: "cells c a = Some m" by (auto simp: bind_eq_Some_conv)
  let ?c = "if op_type m = MAC_SYNC_DEL then c\<lparr> mac_msg_list := as, cells := (cells c)(a := None) \<rparr>
            else c\<lparr> mac_msg_list := as \<rparr>"
  have "queue_reinit as ?c = Some c'" using Cons.prems(1) m by (simp add: free_mac_def split: if_splits)
  from Cons.IH [OF this] Cons.prems(2) m show ?case
    by (cases "op_type m = MAC_SYNC_DEL") (auto split: if_splits)
qed auto

lemma unmark_dangling:
  "a \<in> set as \<Longrightarrow> cells c a = None \<Longrightarrow>
   foreach (\<lambda>a c. do { m \<leftarrow> cells c a;
                       if in_msg_list m then upd a (\<lambda>m. m\<lparr> in_msg_list := False \<rparr>) c else Some c }) as c = None"
proof (induction as arbitrary: c)
  case (Cons b as)
  show ?case
  proof (cases "cells c b")
    case (Some m)
    then have "a \<noteq> b" "a \<in> set as" using Cons.prems by auto
    then show ?thesis using Cons.IH Cons.prems(2) Some by (simp add: upd_def)
  qed simp
qed simp

section \<open>Properties\<close>


text \<open>
  C6.  Sending empties the queue of changes: every queued entry is announced to the peer once, in the
  order of the queue, in messages of at most 30 entries from which the receiver reads exactly those
  entries; the table keeps its entries.
\<close>

theorem mac_queue_drained:
  assumes "mac_inv c"
  shows "\<exists>c' msgs. mlacp_sync_send_syncMacInfo c = Some c' \<and> mac_msg_list c' = [] \<and> mac_rb c' = mac_rb c \<and>
           sent c' = sent c @ msgs \<and>
           map mac_entries msgs = map (Some \<circ> map mac_data) (chunks 30 (map (the \<circ> cells c) (mac_msg_list c))) \<and>
           concat (map (the \<circ> mac_entries) msgs) = map (mac_data \<circ> the \<circ> cells c) (mac_msg_list c) \<and>
           list_all (\<lambda>msg. \<exists>ds. mac_entries msg = Some ds \<and> ds \<noteq> [] \<and> length ds \<le> 30) msgs"
proof -
  obtain c' msgs where r: "mlacp_sync_send_syncMacInfo c = Some c'" "mac_msg_list c' = []" "mac_rb c' = mac_rb c"
    "sent c' = sent c @ msgs"
    and e: "map mac_entries msgs = map (Some \<circ> map mac_data) (chunks 30 (map (the \<circ> cells c) (mac_msg_list c)))"
    using send_syncMacInfo_ok [OF assms] by blast
  then show ?thesis using batches_read [OF e] by (auto simp: comp_def)
qed

text \<open>
  C7.  An address learnt on one switch on an interface that is up reaches the peer: the switch sends one
  message, and the peer, whose port channel of that name is up, stores the address on that
  interface as aged locally and known remotely, and programs it.
\<close>

theorem mac_learnt_reaches_peer:
  assumes "mac_inv A" "mac_inv B" "length mac = ETHER_ADDR_LEN" "\<not> null_mac mac" "name_ok n"
    "n \<noteq> peer_itf A" "local_if_find_by_name A n = Some la" "ml_state la \<noteq> PORT_STATE_DOWN"
    "n \<noteq> peer_itf B" "mclag_if_find B n = Some lb" "ml_state lb \<noteq> PORT_STATE_DOWN"
    "exchange A" "malloc_ok A" "malloc_ok B" "sync_fd_ok B" "mac_msg_list A = []"
    "RB_FIND A v mac = Some None" "RB_FIND B v mac = Some None"
  shows "\<exists>A' msg B' b m. mac_run [Syncd_update mac v n ty MAC_SYNC_ADD, Send_queue] A = Some A' \<and>
      sent A' = sent A @ [msg] \<and> mac_handle (Peer_mac_info msg) B = Some B' \<and>
      RB_FIND B' v mac = Some (Some b) \<and> cells B' b = Some m \<and> ifname m = n \<and> fdb_type m = ty \<and>
      age_local m \<and> \<not> age_peer m \<and>
      fdb_out B' = fdb_out B @ [\<lparr> fdb_mac = mac, fdb_vid = v, fdb_port_name = n,
        fdb_entry_type = ty, fdb_op_type = MAC_SYNC_ADD \<rparr>]"
proof -
  let ?m = "MACMsg_zero\<lparr> op_type := MAC_SYNC_ADD, fdb_type := ty, mac_addr := mac, vid := v, ifname := n,
              origin_ifname := n, age_peer := True, in_msg_list := True \<rparr>"
  let ?k = "MACMsg_zero\<lparr> fdb_type := ty, vid := v, mac_addr := mac, ifname := n, origin_ifname := n, age_local := True \<rparr>"
  let ?msg = "mac_info_msg (mac_rg_id A) (mac_msg_id A) [?m]"
  obtain rb where A1: "do_mac_update_from_syncd mac v n ty MAC_SYNC_ADD A =
      Some (A\<lparr> cells := (cells A)(brk A \<mapsto> ?m), brk := brk A + 1, mac_rb := rb, mac_msg_list := [brk A] \<rparr>)"
    using learn_new [OF assms(1,3,4,5,6,7,8,12,13,17), of ty] assms(16) by auto
  let ?A = "A\<lparr> cells := (cells A)(brk A \<mapsto> ?m), brk := brk A + 1, mac_rb := rb, mac_msg_list := [brk A] \<rparr>"
  have invA: "mac_inv ?A"
    using do_mac_update_from_syncd_inv [OF assms(1,3,5), of v ty MAC_SYNC_ADD] A1 by (simp add: wp_def)
  obtain A' where A': "mlacp_sync_send_syncMacInfo ?A = Some A'" "sent A' = sent A @ [?msg]"
    using send_single [OF invA, of "brk A" ?m] by simp
  obtain rb' where B': "mlacp_fsm_update_mac_entry_from_peer (mac_data ?m) B =
      Some (B\<lparr> cells := (cells B)(brk B \<mapsto> ?k), brk := brk B + 1, mac_rb := rb',
               fdb_out := fdb_out B @ [\<lparr> fdb_mac = mac, fdb_vid = v, fdb_port_name = n,
                 fdb_entry_type = ty, fdb_op_type = MAC_SYNC_ADD \<rparr>] \<rparr>)"
    "brk B \<in> set rb'" "mac_inv (B\<lparr> cells := (cells B)(brk B \<mapsto> ?k), brk := brk B + 1, mac_rb := rb' \<rparr>)"
    using peer_learn_new [OF assms(2,3,4,5,9,10,11,14,15,18), of ty] by (auto simp: mac_data_def)
  let ?B = "B\<lparr> cells := (cells B)(brk B \<mapsto> ?k), brk := brk B + 1, mac_rb := rb',
               fdb_out := fdb_out B @ [\<lparr> fdb_mac = mac, fdb_vid = v, fdb_port_name = n,
                 fdb_entry_type = ty, fdb_op_type = MAC_SYNC_ADD \<rparr>] \<rparr>"
  have "RB_FIND ?B v mac = Some (Some (brk B))"
    using RB_FIND_present [of ?B "brk B" ?k] B'(2,3) by simp
  moreover have "entry_ok ?m" using assms(3,5) by (simp add: entry_ok_def)
  ultimately show ?thesis using A1 A' B'(1) recv_single [of ?m]
    by (intro exI [of _ A'] exI [of _ ?msg] exI [of _ ?B] exI [of _ "brk B"] exI [of _ ?k])
       (simp add: MACMsg_zero_def)
qed

text \<open>
  C8.  An address that ages out on the switch that learnt it, and that the peer knows from that switch
  only, disappears from both tables and from both heaps: the switch announces the removal in one message and
  frees its entry after sending it, and the peer removes the address from its forwarding plane.
\<close>

theorem mac_aged_out_on_both:
  assumes "mac_inv A" "mac_inv B" "a \<in> set (mac_rb A)" "cells A a = Some m" "b \<in> set (mac_rb B)" "cells B b = Some k"
    "vid k = vid m" "mac_addr k = mac_addr m" "\<not> null_mac (mac_addr m)"
    "\<not> age_local m" "age_peer m" "ifname m \<noteq> peer_itf A" "\<not> add_to_syncd m" "age_local k" "\<not> in_msg_list k"
    "mac_msg_list A = []" "exchange A" "sync_fd_ok B" "name_ok n"
  shows "\<exists>A' msg B'. mac_run [Syncd_update (mac_addr m) (vid m) n ty MAC_SYNC_DEL, Send_queue] A = Some A' \<and>
      sent A' = sent A @ [msg] \<and> mac_handle (Peer_mac_info msg) B = Some B' \<and>
      mac_rb A' = remove1 a (mac_rb A) \<and> cells A' = (cells A)(a := None) \<and>
      mac_rb B' = remove1 b (mac_rb B) \<and> cells B' = (cells B)(b := None) \<and>
      fdb_out B' = fdb_out B @ [\<lparr> fdb_mac = mac_addr m, fdb_vid = vid m, fdb_port_name = ifname k,
        fdb_entry_type = fdb_type k, fdb_op_type = MAC_SYNC_DEL \<rparr>]"
proof -
  let ?m = "m\<lparr> op_type := MAC_SYNC_DEL, in_msg_list := True, age_local := True \<rparr>"
  let ?A = "A\<lparr> cells := (cells A)(a \<mapsto> ?m), mac_msg_list := [a], mac_rb := remove1 a (mac_rb A) \<rparr>"
  let ?msg = "mac_info_msg (mac_rg_id A) (mac_msg_id A) [?m]"
  have ok: "entry_ok m" using assms(1,4) by (simp add: mac_inv_def)
  then have ok': "entry_ok ?m" "length (mac_addr m) = ETHER_ADDR_LEN" by (simp_all add: entry_ok_def)
  have A1: "do_mac_update_from_syncd (mac_addr m) (vid m) n ty MAC_SYNC_DEL A = Some ?A"
    by (rule age_out_local [OF assms(1,3,4,9,10,11,12,13,16,17)])
  have inv: "mac_inv ?A"
    using do_mac_update_from_syncd_inv [OF assms(1) ok'(2) assms(19), of "vid m" ty MAC_SYNC_DEL] A1 by (simp add: wp_def)
  have gone: "a \<notin> set (mac_rb ?A)" using rb_distinct [OF assms(1)] by simp
  have "RB_FIND ?A (vid m) (mac_addr m) = Some None"
  proof (rule RB_FIND_absent [OF inv])
    fix x y assume "x \<in> set (mac_rb ?A)" "cells ?A x = Some y"
    then show "\<not> (vid y = vid m \<and> mac_addr y = mac_addr m)"
      using remove1_absent [OF assms(1,3,4), of x y] gone by (auto split: if_splits)
  qed
  then obtain A' where A': "mlacp_sync_send_syncMacInfo ?A = Some A'" "sent A' = sent A @ [?msg]"
      "mac_rb A' = remove1 a (mac_rb A)" "cells A' = (cells A)(a := None)"
    using send_single [OF inv, of a ?m] gone by simp
  have "mlacp_fsm_update_mac_entry_from_peer (mac_data ?m) B = Some
      (B\<lparr> fdb_out := fdb_out B @ [\<lparr> fdb_mac = mac_addr m, fdb_vid = vid m, fdb_port_name = ifname k,
            fdb_entry_type = fdb_type k, fdb_op_type = MAC_SYNC_DEL \<rparr>],
          cells := (cells B)(b := None), mac_rb := remove1 b (mac_rb B) \<rparr>)"
    using age_out_peer [OF assms(2,5,6) _ assms(14,15,18), of "fdb_type m" "origin_ifname m"] assms(7,8,9)
    by (simp add: mac_data_def)
  then show ?thesis using A1 A' recv_single [OF ok'(1)] by simp
qed

text \<open>
  C32.  When the session is initialised again while a removal is queued for an address that is still in the
  table, clearing the queue frees the entry and the loop over the table that follows reads it.
\<close>

theorem queue_reinit_reads_freed_entry:
  assumes "mac_inv c" "a \<in> set (mac_rb c)" "a \<in> set (mac_msg_list c)" "cells c a = Some m" "op_type m = MAC_SYNC_DEL"
  shows "mlacp_mac_msg_queue_reinit c = None"
proof (cases "queue_reinit (mac_msg_list c) c")
  case (Some c')
  have "mac_rb c' = mac_rb c" "cells c' a = None"
    using queue_reinit_frees [OF Some] assms by (auto simp: mac_inv_def)
  then show ?thesis using unmark_dangling [of a "mac_rb c" c'] assms(2) Some
    by (simp add: mlacp_mac_msg_queue_reinit_def RB_FOREACH_SAFE_def)
qed (simp add: mlacp_mac_msg_queue_reinit_def)

text \<open>
  An address learnt on a port channel that is down here and up on the peer is programmed on the
  peer link, but the redirection and the mark of the pending removal are made on the copy on the
  stack: the stored entry still names the port channel, is not pending and counts as not
  programmed.
\<close>

theorem pending_mark_lost:
  assumes "mac_inv c" "length mac = ETHER_ADDR_LEN" "\<not> null_mac mac" "name_ok n" "n \<noteq> peer_itf c"
    "local_if_find_by_name c n = Some l" "ml_state l = PORT_STATE_DOWN" "mclag_if_find c n = Some l'"
    "peer_if_find_by_name c n = Some PORT_STATE_UP" "malloc_ok c" "sync_fd_ok c" "RB_FIND c v mac = Some None"
  shows "\<exists>c' a m. do_mac_update_from_syncd mac v n ty MAC_SYNC_ADD c = Some c' \<and>
      RB_FIND c' v mac = Some (Some a) \<and> cells c' a = Some m \<and>
      ifname m = n \<and> \<not> pending_local_del m \<and> \<not> add_to_syncd m \<and>
      fdb_out c' = fdb_out c @ [\<lparr> fdb_mac = mac, fdb_vid = v, fdb_port_name = peer_itf c,
        fdb_entry_type = ty, fdb_op_type = MAC_SYNC_ADD \<rparr>]"
proof -
  let ?m = "MACMsg_zero\<lparr> op_type := MAC_SYNC_ADD, fdb_type := ty, mac_addr := mac, vid := v, ifname := n,
              origin_ifname := n, age_peer := True \<rparr>"
  have m: "entry_ok ?m" "\<not> in_msg_list ?m" using assms(2,4) by (simp_all add: entry_ok_def MACMsg_zero_def)
  obtain rb where rb: "RB_INSERT (brk c) (c\<lparr> cells := (cells c)(brk c \<mapsto> ?m), brk := brk c + 1 \<rparr>) =
      Some (c\<lparr> cells := (cells c)(brk c \<mapsto> ?m), brk := brk c + 1, mac_rb := rb \<rparr>)"
    "at (brk c) rb (c\<lparr> cells := (cells c)(brk c \<mapsto> ?m), brk := brk c + 1, mac_rb := rb \<rparr>)"
    using insert_absent [OF assms(1) m] assms(12) by auto
  let ?c = "c\<lparr> cells := (cells c)(brk c \<mapsto> ?m), brk := brk c + 1, mac_rb := rb,
    fdb_out := fdb_out c @ [\<lparr> fdb_mac = mac, fdb_vid = v, fdb_port_name = peer_itf c,
        fdb_entry_type = ty, fdb_op_type = MAC_SYNC_ADD \<rparr>] \<rparr>"
  have f: "RB_FIND ?c v mac = Some (Some (brk c))"
    using RB_FIND_present [of ?c "brk c" ?m] rb(2) by (simp add: at_def)
  have "\<not> MAX_L_PORT_NAME \<le> length n" using assms(4) by (simp add: name_ok_def)
  then have "do_mac_update_from_syncd mac v n ty MAC_SYNC_ADD c = Some ?c"
    using rb(1) assms
    by (simp add: do_mac_update_from_syncd_def Let_def syncd_add_new_def iccp_csm_init_mac_msg_def
        add_mac_to_chip_def iccp_send_fdb_entry_to_syncd_def to_peer_link_def MACMsg_zero_def)
  then show ?thesis using f by (intro exI [of _ ?c] exI [of _ "brk c"] exI [of _ ?m]) (simp add: MACMsg_zero_def)
qed

text \<open>
  Without a peer link, an address the peer moved to an orphan port is dropped here, and the log
  line that reports it reads the entry after it was freed.
\<close>

theorem orphan_without_peer_link_faults:
  assumes "RB_FIND c (md_vid d) (md_mac_addr d) = Some (Some a)" "cells c a = Some m"
    "\<not> null_mac (md_mac_addr d)" "md_type d = MAC_SYNC_ADD" "peer_itf c = []" "mclag_if_find c (md_ifname d) = None"
    "fdb_type m \<noteq> MAC_TYPE_STATIC" "origin_ifname m \<noteq> md_ifname d" "\<not> in_msg_list m" "age_local m \<or> \<not> exchange c"
  shows "mlacp_fsm_update_mac_entry_from_peer d c = None"
  using assms
  by (auto simp: mlacp_fsm_update_mac_entry_from_peer_def peer_add_existing_def upd_def set_mac_local_age_flag_def
      del_chip_def chip_def del_mac_from_chip_def iccp_send_fdb_entry_to_syncd_def drop_mac_def MAC_RB_REMOVE_def
      free_unless_queued_def free_mac_def)

section \<open>Samples\<close>

definition sample_mac :: mem where
  "sample_mac = [2, 0, 0, 0, 0, 7]"

definition sample_lif :: "port_state \<Rightarrow> mac_lif" where
  "sample_lif st = \<lparr> ml_name = [80, 67, 49], ml_ifindex = 3, ml_type = IF_T_PORT_CHANNEL, ml_mclag = True,
     ml_state = st, ml_po_active = True, ml_po_down_time = 0, ml_mac_addr = [2, 0, 0, 0, 0, 3],
     ml_ipv4_addr = replicate 4 0, ml_ipv6_addr = replicate 16 0, ml_prefixlen_v6 = 0,
     ml_ipv6_ll_addr = replicate 16 0, ml_ll_prefixlen_v6 = 0, ml_l3_mode = False,
     ml_is_l3_proto_enabled = False, ml_master_ifindex = 0, ml_vlan_tree = [] \<rparr>"

definition sample_link :: mac_lif where
  "sample_link = (sample_lif PORT_STATE_UP)\<lparr> ml_name := [80, 76], ml_ifindex := 2, ml_mclag := False \<rparr>"

definition sample_macs :: "port_state \<Rightarrow> mac_ctx" where
  "sample_macs st = \<lparr> peer_itf = [80, 76], peer_link_if = Some [80, 76], exchange = True, lifs = [sample_lif st, sample_link],
     pifs = [([80, 67, 49], PORT_STATE_UP)], cells = (\<lambda>_. None), brk = 0, mac_rb = [], mac_msg_list = [],
     mac_rg_id = 1, mac_msg_id = 1, sync_fd_ok = True, malloc_ok = True, clock = 100, fdb_out = [], sent = [] \<rparr>"

definition sample_entry :: MACMsg where
  "sample_entry = MACMsg_zero\<lparr> vid := 10, mac_addr := sample_mac, op_type := MAC_SYNC_ADD, fdb_type := MAC_TYPE_DYNAMIC,
     ifname := [80, 67, 49], origin_ifname := [80, 67, 49] \<rparr>"

definition sample_with :: "MACMsg \<Rightarrow> mac_ctx" where
  "sample_with m = (sample_macs PORT_STATE_UP)\<lparr> cells := (\<lambda>_. None)(0 \<mapsto> m), brk := 1, mac_rb := [0] \<rparr>"

lemma sample_start: "mac_start (sample_macs st)"
  by (simp add: mac_start_def sample_macs_def name_ok_def)

lemma sample_inv: "mac_inv (sample_macs st)"
  by (rule macs.inv_init [OF sample_start])

lemma sample_find:
  "RB_FIND (sample_macs st) v mac = Some None" "local_if_find_by_name (sample_macs st) [80, 67, 49] = Some (sample_lif st)"
  "mclag_if_find (sample_macs st) [80, 67, 49] = Some (sample_lif st)"
  by (simp_all add: RB_FIND_def sample_macs_def local_if_find_by_name_def mclag_if_find_def sample_lif_def)

lemma sample_fields:
  "peer_itf (sample_macs st) = [80, 76]" "exchange (sample_macs st)" "malloc_ok (sample_macs st)"
  "sync_fd_ok (sample_macs st)" "mac_msg_list (sample_macs st) = []" "ml_state (sample_lif st) = st"
  "length sample_mac = ETHER_ADDR_LEN" "\<not> null_mac sample_mac" "name_ok [80, 67, 49]"
proof -
  have "hd sample_mac \<noteq> 0" "sample_mac \<noteq> []" by (simp_all add: sample_mac_def)
  then show "\<not> null_mac sample_mac" unfolding null_mac_def by (metis hd_replicate replicate_empty)
qed (simp_all add: sample_macs_def sample_lif_def sample_mac_def name_ok_def)

lemma sample_with_inv: "entry_ok m \<Longrightarrow> \<not> in_msg_list m \<Longrightarrow> mac_inv (sample_with m)"
  by (simp add: mac_inv_def sample_with_def sample_macs_def name_ok_def)

lemma sample_entry_ok: "entry_ok sample_entry"
  by (simp add: entry_ok_def sample_entry_def sample_mac_def name_ok_def)


text \<open>A table with one entry, which is queued.\<close>

definition sample_queued :: "MACMsg \<Rightarrow> mac_ctx" where
  "sample_queued m = (sample_macs PORT_STATE_UP)\<lparr> cells := (\<lambda>_. None)(0 \<mapsto> m), brk := 1, mac_rb := [0],
     mac_msg_list := [0] \<rparr>"

lemma sample_queued_inv: "entry_ok m \<Longrightarrow> in_msg_list m \<Longrightarrow> mac_inv (sample_queued m)"
  by (simp add: mac_inv_def sample_queued_def sample_macs_def name_ok_def)

lemma sample_entry_upd:
  "entry_ok (sample_entry\<lparr> in_msg_list := q \<rparr>)" "entry_ok (sample_entry\<lparr> op_type := t, in_msg_list := q \<rparr>)"
  "entry_ok (sample_entry\<lparr> age_peer := y \<rparr>)" "entry_ok (sample_entry\<lparr> age_local := x \<rparr>)"
  "mac_addr sample_entry = sample_mac" "vid sample_entry = 10" "ifname sample_entry = [80, 67, 49]"
  "\<not> in_msg_list sample_entry" "\<not> age_local sample_entry" "\<not> add_to_syncd sample_entry"
  using sample_entry_ok by (simp_all add: entry_ok_def sample_entry_def MACMsg_zero_def)

lemma mac_queue_drained_witness:
  "\<exists>c' msgs. mlacp_sync_send_syncMacInfo (sample_queued (sample_entry\<lparr> in_msg_list := True \<rparr>)) = Some c' \<and>
     sent c' = msgs \<and> concat (map (the \<circ> mac_entries) msgs) = [mac_data (sample_entry\<lparr> in_msg_list := True \<rparr>)]"
proof -
  let ?c = "sample_queued (sample_entry\<lparr> in_msg_list := True \<rparr>)"
  have f: "sent ?c = []" "map (mac_data \<circ> the \<circ> cells ?c) (mac_msg_list ?c) = [mac_data (sample_entry\<lparr> in_msg_list := True \<rparr>)]"
    by (simp_all add: sample_queued_def sample_macs_def)
  have "mac_inv ?c" by (rule sample_queued_inv) (simp_all add: sample_entry_upd)
  from mac_queue_drained [OF this] show ?thesis unfolding f by auto
qed

lemma mac_learnt_reaches_peer_witness:
  "\<exists>A' msg B' b m. mac_run [Syncd_update sample_mac 10 [80, 67, 49] 2 1, Send_queue] (sample_macs PORT_STATE_UP) = Some A' \<and>
     sent A' = [msg] \<and> mac_handle (Peer_mac_info msg) (sample_macs PORT_STATE_UP) = Some B' \<and>
     RB_FIND B' 10 sample_mac = Some (Some b) \<and> cells B' b = Some m \<and> ifname m = [80, 67, 49]"
proof -
  have s: "sent (sample_macs PORT_STATE_UP) = []" by (simp add: sample_macs_def)
  show ?thesis
    using mac_learnt_reaches_peer [OF sample_inv sample_inv sample_fields(7,8,9) _ sample_find(2) _ _ sample_find(3) _
        sample_fields(2,3,3,4,5) sample_find(1,1), of PORT_STATE_UP PORT_STATE_UP 10 2]
    unfolding s by (simp add: sample_fields) blast
qed

lemma mac_aged_out_on_both_witness:
  "\<exists>A' msg B'. mac_run [Syncd_update sample_mac 10 [80, 67, 49] 2 2, Send_queue]
       (sample_with (sample_entry\<lparr> age_peer := True \<rparr>)) = Some A' \<and>
     sent A' = [msg] \<and> mac_handle (Peer_mac_info msg) (sample_with (sample_entry\<lparr> age_local := True \<rparr>)) = Some B' \<and>
     mac_rb A' = [] \<and> mac_rb B' = []"
proof -
  let ?m = "sample_entry\<lparr> age_peer := True \<rparr>" and ?k = "sample_entry\<lparr> age_local := True \<rparr>"
  have i: "mac_inv (sample_with ?m)" "mac_inv (sample_with ?k)"
    by (rule sample_with_inv; simp add: sample_entry_upd)+
  have f: "mac_rb (sample_with x) = [0]" "cells (sample_with x) 0 = Some x" "peer_itf (sample_with x) = [80, 76]"
    "mac_msg_list (sample_with x) = []" "exchange (sample_with x)" "sync_fd_ok (sample_with x)" "sent (sample_with x) = []" for x
    by (simp_all add: sample_with_def sample_macs_def)
  have g: "vid ?m = 10" "mac_addr ?m = sample_mac" by (simp_all add: sample_entry_upd)
  show ?thesis
    using mac_aged_out_on_both [OF i, of 0 ?m 0 ?k "[80, 67, 49]" 2] unfolding g
    by (simp add: f sample_fields sample_entry_upd) blast
qed

lemma queue_reinit_reads_freed_entry_witness:
  "mlacp_mac_msg_queue_reinit (sample_queued (sample_entry\<lparr> op_type := MAC_SYNC_DEL, in_msg_list := True \<rparr>)) = None"
  by (rule queue_reinit_reads_freed_entry [of _ 0 "sample_entry\<lparr> op_type := MAC_SYNC_DEL, in_msg_list := True \<rparr>"])
     (simp add: sample_queued_inv sample_entry_upd, simp_all add: sample_queued_def)

lemma pending_mark_lost_witness:
  "\<exists>c' a m. do_mac_update_from_syncd sample_mac 10 [80, 67, 49] 2 1 (sample_macs PORT_STATE_DOWN) = Some c' \<and>
     RB_FIND c' 10 sample_mac = Some (Some a) \<and> cells c' a = Some m \<and> ifname m = [80, 67, 49] \<and> \<not> pending_local_del m"
proof -
  have p: "peer_if_find_by_name (sample_macs PORT_STATE_DOWN) [80, 67, 49] = Some PORT_STATE_UP"
    by (simp add: peer_if_find_by_name_def sample_macs_def)
  show ?thesis
    using pending_mark_lost [OF sample_inv sample_fields(7,8,9) _ sample_find(2) _ sample_find(3) p
        sample_fields(3,4) sample_find(1), of 10 2] by (simp add: sample_fields) blast
qed

text \<open>
  A state in which clearing the queue faults is reached from the empty table: an address is learnt here, then by the
  peer, and ages out here.
\<close>

lemma removal_queued_in_table:
  "\<exists>es. list_all event_ok es \<and> mac_run es (sample_macs PORT_STATE_UP) \<noteq> None \<and>
     (mac_run es (sample_macs PORT_STATE_UP) \<bind> mlacp_mac_msg_queue_reinit) = None"
proof -
  let ?es = "[Syncd_update sample_mac 10 [80, 67, 49] 2 1, Peer_mac_info (mac_info_msg 1 1 [sample_entry]),
    Syncd_update sample_mac 10 [80, 67, 49] 2 2]"
  have "mac_run ?es (sample_macs PORT_STATE_UP) \<noteq> None" by code_simp
  moreover have "(mac_run ?es (sample_macs PORT_STATE_UP) \<bind> mlacp_mac_msg_queue_reinit) = None" by code_simp
  moreover have "list_all event_ok ?es" by (simp add: sample_fields mac_entries_of_msg sample_entry_ok)
  ultimately show ?thesis by blast
qed

end
