(* ===== verification/Iccp_NeighSync.thy ===== *)
theory Iccp_NeighSync
  imports Iccp_Neigh Iccp_MacSync
begin

text \<open>
  Properties of the neighbour component: the codec of its messages, the draining of its queues,
  the lists as maps from addresses to interfaces and MAC addresses, the invariant of all handlers,
  and the way of an entry from the kernel of one switch to the kernel of the other.
\<close>

section \<open>The messages\<close>

definition neigh_ok :: "nat \<Rightarrow> neigh \<Rightarrow> bool" where
  "neigh_ok n e \<longleftrightarrow> length (nm_ip e) = n \<and> length (nm_mac e) = ETHER_ADDR_LEN \<and> name_ok (nm_ifname e)"

definition neigh_bytes :: "neigh \<Rightarrow> mem" where
  "neigh_bytes e = [nm_op_type e, nm_flag e, 0] @ name_field (nm_ifname e) @ [0] @ nm_ip e @ nm_mac e @ [0, 0]"

text \<open>The learn flag is not sent.\<close>

definition wire :: "neigh \<Rightarrow> neigh" where
  "wire e = e\<lparr> nm_learn_flag := 0 \<rparr>"

lemma wire_simps [simp]:
  "nm_op_type (wire e) = nm_op_type e" "nm_flag (wire e) = nm_flag e" "nm_ip (wire e) = nm_ip e"
  "nm_ifname (wire e) = nm_ifname e" "nm_mac (wire e) = nm_mac e" "neigh_ok n (wire e) = neigh_ok n e"
  by (simp_all add: wire_def neigh_ok_def)

lemma length_neigh_bytes: "neigh_ok n e \<Longrightarrow> length (neigh_bytes e) = 32 + n"
  by (simp add: neigh_ok_def neigh_bytes_def name_field_ok)

lemma NeighEntry_at:
  assumes ok: "neigh_ok n e" and len: "length xs = 22 + (32 + n) * i"
  shows "NeighEntry n (xs @ neigh_bytes e @ zs) i = Some (wire e)"
proof -
  define off where "off = 22 + (32 + n) * i"
  have o: "16 + 6 + (32 + n) * i = off" and len: "length xs = off" using len by (simp_all add: off_def)
  let ?f = "[nm_op_type e, nm_flag e, 0]" and ?name = "name_field (nm_ifname e)"
  have l: "length (nm_ip e) = n" "length (nm_mac e) = 6" and nm: "name_ok (nm_ifname e)"
    using ok by (simp_all add: neigh_ok_def)
  note nf = name_field_ok [OF nm]
  let ?b = "xs @ neigh_bytes e @ zs"
  have b: "?b = xs @ ?f @ ?name @ [0] @ nm_ip e @ nm_mac e @ [0, 0] @ zs" by (simp add: neigh_bytes_def)
  have "rd8 ?b off = Some (nm_op_type e)"
    using rd8_at [of _ xs "nm_op_type e"] b len by simp
  moreover have "rd8 ?b (off + 1) = Some (nm_flag e)"
    using rd8_at [of _ "xs @ [nm_op_type e]" "nm_flag e"] b len by simp
  moreover have "rd8 ?b (off + 2) = Some 0"
    using rd8_at [of _ "xs @ [nm_op_type e, nm_flag e]" 0] b len by simp
  moreover have "rdn ?b (off + 3) 20 = Some ?name"
    using rdn_at [of "off + 3" "xs @ ?f" 20 ?name "[0] @ nm_ip e @ nm_mac e @ [0, 0] @ zs"] b len nf by simp
  moreover have "rdn ?b (off + 24) n = Some (nm_ip e)"
    using rdn_at [of "off + 24" "xs @ ?f @ ?name @ [0]" n "nm_ip e" "nm_mac e @ [0, 0] @ zs"] b len nf l by simp
  moreover have "rdn ?b (off + 24 + n) 6 = Some (nm_mac e)"
    using rdn_at [of "off + 24 + n" "xs @ ?f @ ?name @ [0] @ nm_ip e" 6 "nm_mac e" "[0, 0] @ zs"] b len nf l by simp
  ultimately show ?thesis
    using nf unfolding NeighEntry_def Let_def sizeof_neigh_def o by (simp add: wire_def)
qed

lemma neigh_codec: "info_codec (32 + n) (neigh_ok n) neigh_bytes (NeighEntry n) wire"
  by unfold_locales (simp_all add: length_neigh_bytes NeighEntry_at)

interpretation arpc: info_codec TLV_T_MLACP_ARP_INFO 36 "neigh_ok 4" neigh_bytes "NeighEntry 4" wire
  using neigh_codec [of 4] by simp

interpretation ndc: info_codec TLV_T_MLACP_NDISC_INFO 48 "neigh_ok 16" neigh_bytes "NeighEntry 16" wire
  using neigh_codec [of 16] by simp

lemma neigh_writes:
  assumes ok: "neigh_ok n e" and off: "off = length xs"
  shows "do { buf \<leftarrow> wrn (xs @ replicate (32 + n) 0) off [nm_op_type e, nm_flag e];
              buf \<leftarrow> wrn buf (off + 3) (nm_ifname e @ [0]);
              buf \<leftarrow> wrn buf (off + 24) (take n (nm_ip e));
              buf \<leftarrow> wrn buf (off + 24 + n) (take ETHER_ADDR_LEN (nm_mac e));
              f buf } = f (xs @ neigh_bytes e)"
proof -
  let ?n = "nm_ifname e" and ?e = "[nm_op_type e, nm_flag e]"
  have l: "length (nm_ip e) = n" "length (nm_mac e) = 6" and nm: "name_ok ?n" using ok by (simp_all add: neigh_ok_def)
  note nf = name_field_ok [OF nm]
  have s: "32 + n = 2 + (1 + (20 + (1 + (n + (6 + 2)))))" by simp
  have z: "replicate (32 + n) (0 :: byte) =
      replicate 2 0 @ replicate 1 0 @ replicate 20 0 @ replicate 1 0 @ replicate n 0 @ replicate 6 0 @ replicate 2 0"
    unfolding s by (simp only: replicate_add)
  let ?r = "replicate 1 0 @ replicate n 0 @ replicate 6 0 @ replicate 2 (0 :: byte)"
  have w1: "wrn (xs @ replicate 2 0 @ replicate 1 0 @ replicate 20 0 @ ?r) off ?e =
      Some (xs @ ?e @ replicate 1 0 @ replicate 20 0 @ ?r)"
    by (rule wrn_at) (simp_all add: off)
  have w2: "wrn (xs @ ?e @ replicate 1 0 @ replicate 20 0 @ ?r) (off + 3) (?n @ [0]) =
      Some (xs @ ?e @ replicate 1 0 @ name_field ?n @ ?r)"
    using wrn_name [OF nm, of "off + 3" "xs @ ?e @ replicate 1 0" ?r] off by simp
  have w3: "wrn (xs @ ?e @ replicate 1 0 @ name_field ?n @ ?r) (off + 24) (nm_ip e) =
      Some (xs @ ?e @ replicate 1 0 @ name_field ?n @ replicate 1 0 @ nm_ip e @ replicate 6 0 @ replicate 2 0)"
    using wrn_at [of "off + 24" "xs @ ?e @ replicate 1 0 @ name_field ?n @ replicate 1 0" "nm_ip e" "replicate n 0"
        "replicate 6 0 @ replicate 2 0"] off l nf by simp
  have w4: "wrn (xs @ ?e @ replicate 1 0 @ name_field ?n @ replicate 1 0 @ nm_ip e @ replicate 6 0 @ replicate 2 0)
      (off + 24 + n) (nm_mac e) =
      Some (xs @ ?e @ replicate 1 0 @ name_field ?n @ replicate 1 0 @ nm_ip e @ nm_mac e @ replicate 2 0)"
    using wrn_at [of "off + 24 + n" "xs @ ?e @ replicate 1 0 @ name_field ?n @ replicate 1 0 @ nm_ip e" "nm_mac e"
        "replicate 6 0" "replicate 2 0"] off l nf by simp
  show ?thesis
    unfolding z take_all [OF eq_imp_le [OF l(1)]] take_all [OF eq_imp_le [OF l(2)]] w1 bind.bind_lunit w2 w3 w4
    by (simp add: neigh_bytes_def numeral_2_eq_2)
qed

definition neigh_msg :: "16 word \<Rightarrow> nat \<Rightarrow> 32 word \<Rightarrow> 32 word \<Rightarrow> neigh list \<Rightarrow> mem" where
  "neigh_msg tlv n = info_msg tlv (32 + n) neigh_bytes"

definition neigh_entries :: "nat \<Rightarrow> mem \<Rightarrow> neigh list option" where
  "neigh_entries n = info_entries (NeighEntry n)"

lemmas length_neigh_msg = info_codec.length_info [OF neigh_codec, folded neigh_msg_def]
lemmas neigh_entries_of_msg = info_codec.entries_of_info [OF neigh_codec, folded neigh_msg_def neigh_entries_def]

lemma prepare_neigh_ok:
  assumes ok: "list_all (neigh_ok n) es" "neigh_ok n e" and len: "length es < 40" "n \<le> 16"
    and buf: "buf = (if es = [] then [] else neigh_msg tlv n (mac_rg_id c) mid es)"
  shows "prepare_neigh tlv n c buf CSM_BUFFER_SIZE e (length es) =
     Some (int (22 + (32 + n) * (length es + 1)), neigh_msg tlv n (mac_rg_id c) (mac_msg_id c) (es @ [e]),
           c\<lparr> mac_msg_id := mac_msg_id c + 1 \<rparr>)"
proof -
  obtain p where p: "length p = 22 + (32 + n) * length es"
      "\<And>e. p @ neigh_bytes e = neigh_msg tlv n (mac_rg_id c) (mac_msg_id c) (es @ [e])"
    and w: "\<And>f :: mem \<Rightarrow> (int \<times> mem \<times> mac_ctx) option.
             do { buf \<leftarrow> wrn (pad (22 + (32 + n) * (length es + 1)) buf) 0
               (LDPHdr MSG_T_RG_APP_DATA (22 + (32 + n) * (length es + 1)) (mac_msg_id c) @ ICCRGIDTLV (mac_rg_id c));
               buf \<leftarrow> wrn buf 18 (drop 2 (ICCParameter tlv (2 + (32 + n) * (length es + 1))));
               buf \<leftarrow> wrn buf 20 (enc16 (of_nat (length es + 1)));
               buf \<leftarrow> (if length es = 0 then wrn buf 16 (take 2 (ICCParameter tlv (2 + (32 + n) * (length es + 1))))
                      else Some buf);
               f buf } = f (p @ replicate (32 + n) 0)"
    using info_codec.header_writes [OF neigh_codec ok(1) buf [unfolded neigh_msg_def] refl refl, folded neigh_msg_def]
    by blast
  have "(32 + n) * (length es + 1) \<le> 48 * 40" using len by (intro mult_le_mono) simp_all
  then have sz: "16 + (6 + (32 + n) * (length es + 1)) = 22 + (32 + n) * (length es + 1)"
    "6 + (32 + n) * (length es + 1) - 4 = 2 + (32 + n) * (length es + 1)"
    "16 + 6 + (32 + n) * length es = 22 + (32 + n) * length es"
    "\<not> 65536 < 22 + (32 + n) * (length es + 1)" "(16 :: nat) + 2 = 18" "(16 :: nat) + 4 = 20" by linarith+
  show ?thesis
    unfolding prepare_neigh_def sizeof_neigh_def mlacp_fill_icc_header_def Let_def sz prod.case
      if_not_P [OF sz(4)] w neigh_writes [OF ok(2) p(1) [symmetric]] p(2)
    by simp
qed

section \<open>Draining the queues\<close>

lemma send_neigh_msg:
  "list_all (neigh_ok n) es \<Longrightarrow> iccp_csm_send_mac (neigh_msg tlv n rg mid es) (int (22 + (32 + n) * length es)) c =
     c\<lparr> sent := sent c @ [neigh_msg tlv n rg mid es] \<rparr>"
  using length_neigh_msg [of n es tlv rg mid] by (simp add: iccp_csm_send_mac_def flip: of_nat_add of_nat_mult)

lemma neigh_send_loop_ok:
  assumes "list_all (neigh_ok n) (es @ qs)" "length es < 40" "n \<le> 16"
    and "buf = (if es = [] then [] else neigh_msg tlv n (mac_rg_id c) mid es)"
    and "es \<noteq> [] \<longrightarrow> len = int (22 + (32 + n) * length es)"
  shows "\<exists>msgs k. neigh_send_loop (prepare_neigh tlv n) qs (length es) len buf c =
           Some (c\<lparr> sent := sent c @ msgs, mac_msg_id := k \<rparr>) \<and>
           map (neigh_entries n) msgs = map (Some \<circ> map wire) (chunks 40 (es @ qs))"
  using assms
proof (induction qs arbitrary: c es buf mid len)
  case Nil
  show ?case
  proof (cases "es = []")
    case True
    then show ?thesis by (intro exI [of _ "[]"] exI [of _ "mac_msg_id c"]) simp
  next
    case False
    let ?m = "neigh_msg tlv n (mac_rg_id c) mid es"
    have "neigh_entries n ?m = Some (map wire es)" using neigh_entries_of_msg [of n es tlv] Nil.prems by simp
    then show ?thesis using False Nil.prems send_neigh_msg [of n es tlv "mac_rg_id c" mid c]
      by (intro exI [of _ "[?m]"] exI [of _ "mac_msg_id c"]) (simp add: chunks_one)
  qed
next
  case (Cons q qs)
  let ?msg = "neigh_msg tlv n (mac_rg_id c) (mac_msg_id c) (es @ [q])"
  let ?len = "int (22 + (32 + n) * (length es + 1))" and ?c = "c\<lparr> mac_msg_id := mac_msg_id c + 1 \<rparr>"
  have ok: "list_all (neigh_ok n) (es @ [q])" "list_all (neigh_ok n) qs" using Cons.prems(1) by simp_all
  have p: "prepare_neigh tlv n c buf CSM_BUFFER_SIZE q (length es) = Some (?len, ?msg, ?c)"
    using prepare_neigh_ok [of n es q buf tlv c mid] Cons.prems by simp
  show ?case
  proof (cases "length es + 1 < 40")
    case True
    then obtain msgs k where r: "neigh_send_loop (prepare_neigh tlv n) qs (length (es @ [q])) ?len ?msg ?c =
        Some (?c\<lparr> sent := sent ?c @ msgs, mac_msg_id := k \<rparr>)"
      "map (neigh_entries n) msgs = map (Some \<circ> map wire) (chunks 40 ((es @ [q]) @ qs))"
      using Cons.IH [of "es @ [q]" ?msg ?c "mac_msg_id c" ?len] Cons.prems(1,3) by auto
    then show ?thesis using True p by (intro exI [of _ msgs] exI [of _ k]) simp
  next
    case False
    then have l: "length (es @ [q]) = 40" using Cons.prems(2) by simp
    let ?d = "?c\<lparr> sent := sent c @ [?msg] \<rparr>"
    have s: "iccp_csm_send_mac ?msg ?len ?c = ?d"
      using send_neigh_msg [OF ok(1), of tlv "mac_rg_id c" "mac_msg_id c" ?c] by simp
    obtain msgs k where r: "neigh_send_loop (prepare_neigh tlv n) qs 0 ?len [] ?d =
        Some (?d\<lparr> sent := sent ?d @ msgs, mac_msg_id := k \<rparr>)"
      "map (neigh_entries n) msgs = map (Some \<circ> map wire) (chunks 40 qs)"
      using Cons.IH [of "[]" "[]" ?d mid ?len] ok(2) Cons.prems(3) by auto
    have "neigh_entries n ?msg = Some (map wire (es @ [q]))" using neigh_entries_of_msg [OF ok(1), of tlv] l by simp
    moreover have "chunks 40 (es @ q # qs) = (es @ [q]) # chunks 40 qs"
      using chunks_full [OF l, of qs] by simp
    ultimately show ?thesis using r p s False by (intro exI [of _ "?msg # msgs"] exI [of _ k]) simp
  qed
qed

section \<open>The lists as maps\<close>

definition neigh_map :: "neigh list \<Rightarrow> mem \<Rightarrow> (ifname \<times> mem) option" where
  "neigh_map xs ip = map_option (\<lambda>e. (nm_ifname e, nm_mac e)) (neigh_find ip xs)"

lemma neigh_find_simps [simp]:
  "neigh_find ip [] = None" "neigh_find ip (e # es) = (if nm_ip e = ip then Some e else neigh_find ip es)"
  by (simp_all add: neigh_find_def)

lemma neigh_find_None: "neigh_find ip xs = None \<longleftrightarrow> ip \<notin> nm_ip ` set xs"
  by (induction xs) auto


lemma neigh_find_append:
  "neigh_find ip (xs @ ys) = (case neigh_find ip xs of None \<Rightarrow> neigh_find ip ys | Some e \<Rightarrow> Some e)"
  by (induction xs) auto

lemma neigh_find_upd:
  "(\<And>e. nm_ip (f e) = nm_ip e) \<Longrightarrow>
   neigh_find ip' (neigh_upd ip f xs) = (if ip' = ip then map_option f (neigh_find ip xs) else neigh_find ip' xs)"
  by (induction xs) auto

lemma neigh_find_del:
  "distinct (map nm_ip xs) \<Longrightarrow>
   neigh_find ip' (neigh_del ip xs) = (if ip' = ip then None else neigh_find ip' xs)"
  by (induction xs) (auto simp: neigh_find_None)

lemma neigh_find_filter:
  "neigh_find ip' (neigh_unqueue ip xs) = (if ip' = ip then None else neigh_find ip' xs)"
  by (induction xs) (auto simp: neigh_unqueue_def)

lemma ips_upd: "(\<And>e. nm_ip (f e) = nm_ip e) \<Longrightarrow> map nm_ip (neigh_upd ip f xs) = map nm_ip xs"
  by (induction xs) auto

lemma set_upd: "e \<in> set (neigh_upd ip f xs) \<Longrightarrow> e \<in> set xs \<or> (\<exists>i \<in> set xs. e = f i)"
  by (induction xs) (auto split: if_splits)

lemma set_del: "set (neigh_del ip xs) \<subseteq> set xs"
  by (induction xs) auto

lemma distinct_del: "distinct (map nm_ip xs) \<Longrightarrow> distinct (map nm_ip (neigh_del ip xs))"
  by (induction xs) (use set_del in fastforce)+

text \<open>
  A list has one entry for each address, none of them a removal, and all of them fit their fields.
\<close>

definition list_inv :: "nat \<Rightarrow> neigh list \<Rightarrow> bool" where
  "list_inv n xs \<longleftrightarrow> distinct (map nm_ip xs) \<and> (\<forall>e \<in> set xs. neigh_ok n e \<and> nm_op_type e \<noteq> NEIGH_SYNC_DEL)"

lemma list_inv_upd:
  assumes "list_inv n xs" "\<And>e. nm_ip (f e) = nm_ip e"
    "\<And>e. neigh_ok n e \<Longrightarrow> nm_op_type e \<noteq> NEIGH_SYNC_DEL \<Longrightarrow> neigh_ok n (f e) \<and> nm_op_type (f e) \<noteq> NEIGH_SYNC_DEL"
  shows "list_inv n (neigh_upd ip f xs)"
  using assms by (auto simp: list_inv_def ips_upd dest!: set_upd)

lemma list_inv_del: "list_inv n xs \<Longrightarrow> list_inv n (neigh_del ip xs)"
  using set_del by (fastforce simp: list_inv_def distinct_del)

lemma list_inv_append:
  "list_inv n xs \<Longrightarrow> neigh_ok n e \<Longrightarrow> nm_op_type e \<noteq> NEIGH_SYNC_DEL \<Longrightarrow> neigh_find (nm_ip e) xs = None \<Longrightarrow>
   list_inv n (xs @ [e])"
  by (auto simp: list_inv_def neigh_find_None)

lemma list_inv_map:
  assumes "list_inv n xs" "\<And>e. nm_ip (f e) = nm_ip e"
    "\<And>e. neigh_ok n e \<Longrightarrow> nm_op_type e \<noteq> NEIGH_SYNC_DEL \<Longrightarrow> neigh_ok n (f e) \<and> nm_op_type (f e) \<noteq> NEIGH_SYNC_DEL"
  shows "list_inv n (map f xs)"
proof -
  have "map nm_ip (map f xs) = map nm_ip xs" using assms(2) by simp
  then have "distinct (map nm_ip (map f xs))" using assms(1) unfolding list_inv_def by (simp only: simp_thms)
  then show ?thesis using assms(1,3) by (auto simp: list_inv_def)
qed


text \<open>What the peer says replaces what the list has.\<close>

lemma neigh_list_update_map:
  assumes "list_inv n xs" "al" "nm_op_type e = NEIGH_SYNC_ADD \<or> nm_op_type e = NEIGH_SYNC_DEL"
  shows "neigh_map (neigh_list_update al e xs) =
     (neigh_map xs)(nm_ip e := if nm_op_type e = NEIGH_SYNC_ADD then Some (nm_ifname e, nm_mac e) else None)"
proof -
  let ?f = "\<lambda>i. i\<lparr> nm_ifname := nm_ifname e, nm_mac := nm_mac e \<rparr>"
  have "distinct (map nm_ip (neigh_upd (nm_ip e) ?f xs))" using assms(1) by (simp add: list_inv_def ips_upd)
  note del = neigh_find_del [OF this]
  show ?thesis
    by (rule ext) (use assms(2,3) in \<open>auto simp: neigh_map_def neigh_list_update_def Let_def del neigh_find_upd
        neigh_find_append remote_neigh_def split: option.split\<close>)
qed

section \<open>The invariant\<close>

definition lif_ok :: "mac_lif \<Rightarrow> bool" where
  "lif_ok l \<longleftrightarrow> name_ok (ml_name l) \<and> length (ml_mac_addr l) = ETHER_ADDR_LEN \<and> length (ml_ipv4_addr l) = 4 \<and>
     length (ml_ipv6_addr l) = 16 \<and> length (ml_ipv6_ll_addr l) = 16"

definition con_ok :: "mac_ctx \<Rightarrow> bool" where
  "con_ok m \<longleftrightarrow> name_ok (peer_itf m) \<and> (\<forall>l \<in> set (lifs m). lif_ok l)"

definition neigh_inv :: "neigh_ctx \<Rightarrow> bool" where
  "neigh_inv c \<longleftrightarrow> con_ok (con c) \<and> length (system_id c) = ETHER_ADDR_LEN \<and>
     list_inv 4 (arp_list c) \<and> (\<forall>e \<in> set (arp_msg_list c). neigh_ok 4 e) \<and>
     list_inv 16 (ndisc_list c) \<and> (\<forall>e \<in> set (ndisc_msg_list c). neigh_ok 16 e)"

lemma lif_ok_found:
  "con_ok m \<Longrightarrow> local_if_find_by_name m n = Some l \<Longrightarrow> lif_ok l"
  "con_ok m \<Longrightarrow> local_if_find_by_ifindex m i = Some l \<Longrightarrow> lif_ok l"
  by (auto simp: con_ok_def local_if_find_by_name_def local_if_find_by_ifindex_def find_Some_iff)

text \<open>What the functions that only send to the peer change\<close>

definition quiet :: "neigh_ctx \<Rightarrow> neigh_ctx" where
  "quiet c = c\<lparr> con := (con c)\<lparr> sent := [], mac_msg_id := 0 \<rparr>, bridge_out := [], learning_enable := 0,
     learning_retry_time := 0 \<rparr>"

definition sends :: "neigh_ctx \<Rightarrow> neigh_ctx \<Rightarrow> bool" where
  "sends c c' \<longleftrightarrow> quiet c' = quiet c"

lemma sends_refl: "sends c c"
  by (simp add: sends_def)

lemma sends_trans: "sends a b \<Longrightarrow> sends b c \<Longrightarrow> sends a c"
  by (simp add: sends_def)

lemma quiet_fields:
  "arp_list (quiet c) = arp_list c" "ndisc_list (quiet c) = ndisc_list c" "arp_msg_list (quiet c) = arp_msg_list c"
  "ndisc_msg_list (quiet c) = ndisc_msg_list c" "nl_out (quiet c) = nl_out c" "system_id (quiet c) = system_id c"
  "malloc_ok (con (quiet c)) = malloc_ok (con c)" "con_ok (con (quiet c)) = con_ok (con c)"
  by (simp_all add: quiet_def con_ok_def)

lemma sends_same:
  assumes "sends c c'"
  shows "arp_list c' = arp_list c" "ndisc_list c' = ndisc_list c" "arp_msg_list c' = arp_msg_list c"
    "ndisc_msg_list c' = ndisc_msg_list c" "nl_out c' = nl_out c" "malloc_ok (con c') = malloc_ok (con c)"
    "system_id c' = system_id c" "con_ok (con c') = con_ok (con c)"
  using assms unfolding sends_def by (metis quiet_fields)+

lemma sends_inv: "sends c c' \<Longrightarrow> neigh_inv c \<Longrightarrow> neigh_inv c'"
  by (simp add: neigh_inv_def sends_same)

lemma send_alone_sends: "wp (send_alone (Some (len, buf, (con c)\<lparr> mac_msg_id := k \<rparr>)) c) (sends c)"
  by (simp add: send_alone_def wp_def sends_def quiet_def iccp_csm_send_mac_def)

lemma learning_off_sends: "sends c (set_peerlink_learning_off c)"
  by (simp add: set_peerlink_learning_off_def sends_def quiet_def Let_def split: option.split)

lemma wp_same: "wp (Some c) (sends c)"
  by (simp add: wp_def sends_refl)

lemma neigh_alone_sends:
  assumes "neigh_ok n e" "n \<le> 16"
  shows "wp (send_alone (prepare_neigh tlv n (con c) [] CSM_BUFFER_SIZE e 0) c) (sends c)"
  using prepare_neigh_ok [of n "[]" e "[]" tlv "con c" 0] assms by (simp add: send_alone_sends)

lemma mac_alone_sends:
  assumes "entry_ok m"
  shows "wp (send_alone (mlacp_prepare_for_mac_info_to_peer (con c) [] CSM_BUFFER_SIZE m 0) c) (sends c)"
  using prepare_mac_info [of "[]" m "[]" "con c" 0] assms by (simp add: send_alone_sends)

lemma syn_mac_sends: "neigh_inv c \<Longrightarrow> wp (syn_local_mac_info_to_peer l add sag c) (sends c)"
  unfolding syn_local_mac_info_to_peer_def
  by (intro wp_if wp_same mac_alone_sends)
    (simp add: neigh_inv_def con_ok_def entry_ok_def MACMsg_zero_def name_ok_def)

lemma syn_arp_sends: "lif_ok l \<Longrightarrow> wp (syn_local_arp_info_to_peer l add ack c) (sends c)"
  unfolding syn_local_arp_info_to_peer_def mlacp_prepare_for_arp_info_def
  by (intro neigh_alone_sends) (simp_all add: lif_ok_def neigh_ok_def)

lemma syn_nd_sends: "neigh_inv c \<Longrightarrow> lif_ok l \<Longrightarrow> wp (syn_local_nd_info_to_peer l add ack ll c) (sends c)"
  unfolding syn_local_nd_info_to_peer_def mlacp_prepare_for_ndisc_info_def Let_def
  by (intro wp_if wp_same neigh_alone_sends) (simp_all add: lif_ok_def neigh_ok_def neigh_inv_def)

lemma wp_sends:
  assumes "wp r (sends c)" "\<And>c'. sends c c' \<Longrightarrow> wp (g c') (sends c')"
  shows "wp (r \<bind> g) (sends c)"
  using assms sends_trans unfolding wp_def by fastforce

lemma syn_neigh_mac_sends:
  assumes "neigh_inv c" "lif_ok l"
  shows "wp (syn_local_neigh_mac_info_to_peer l add v4 v6 sm ack ll c) (sends c)"
proof -
  let ?o = "set_peerlink_learning_off c"
  have i: "neigh_inv ?o" using sends_inv [OF learning_off_sends] assms(1) .
  have "wp (do { c \<leftarrow> (if sm then syn_local_mac_info_to_peer l add ll ?o else Some ?o);
                 c \<leftarrow> (if v4 then syn_local_arp_info_to_peer l add ack c else Some c);
                 if v6 then syn_local_nd_info_to_peer l add ack ll c else Some c }) (sends ?o)"
    by (intro wp_sends wp_if syn_mac_sends syn_arp_sends syn_nd_sends wp_same i assms(2))
      (use i sends_inv in blast)+
  then show ?thesis using sends_trans [OF learning_off_sends [of c]] wp_same [of c]
    unfolding syn_local_neigh_mac_info_to_peer_def Let_def by (auto intro: wp_mono)
qed

lemma syn_ack_sends: "neigh_inv c \<Longrightarrow> wp (syn_ack_local_neigh_mac_info_to_peer name ll c) (sends c)"
  unfolding syn_ack_local_neigh_mac_info_to_peer_def
  by (intro wp_option wp_if wp_same syn_neigh_mac_sends) (auto intro: lif_ok_found simp: neigh_inv_def)


section \<open>Handlers keep the invariant\<close>

lemma nl_request_inv: "neigh_inv (snd (iccp_netlink_neighbor_request fam e add perm c)) = neigh_inv c"
  by (simp add: iccp_netlink_neighbor_request_def neigh_inv_def Let_def)

lemma announce_arp_inv: "neigh_inv c \<Longrightarrow> neigh_ok 4 m \<Longrightarrow> neigh_inv (announce_arp op m c)"
  by (simp add: announce_arp_def enqueue_arp_msg_def neigh_inv_def neigh_ok_def)

lemma announce_ndisc_inv: "neigh_inv c \<Longrightarrow> neigh_ok 16 m \<Longrightarrow> neigh_inv (announce_ndisc op m c)"
  by (simp add: announce_ndisc_def enqueue_ndisc_msg_def neigh_inv_def neigh_ok_def)

lemma copy_keeps: "nm_ip (neigh_copy m i) = nm_ip i"
  "neigh_ok n m \<Longrightarrow> nm_op_type m \<noteq> NEIGH_SYNC_DEL \<Longrightarrow> neigh_ok n i \<Longrightarrow>
   neigh_ok n (neigh_copy m i) \<and> nm_op_type (neigh_copy m i) \<noteq> NEIGH_SYNC_DEL"
  by (simp_all add: neigh_copy_def neigh_ok_def)

lemma local_ok: "neigh_ok n (local_neigh m) = neigh_ok n m" "nm_ip (local_neigh m) = nm_ip m"
  "nm_op_type (local_neigh m) = NEIGH_SYNC_LIF" "nm_mac (local_neigh m) = nm_mac m" "nm_ifname (local_neigh m) = nm_ifname m"
  by (simp_all add: local_neigh_def neigh_ok_def)

lemma arp_list_inv: "neigh_inv c \<Longrightarrow> list_inv 4 xs \<Longrightarrow> neigh_inv (c\<lparr> arp_list := xs \<rparr>)"
  by (simp add: neigh_inv_def)

lemma ndisc_list_inv: "neigh_inv c \<Longrightarrow> list_inv 16 xs \<Longrightarrow> neigh_inv (c\<lparr> ndisc_list := xs \<rparr>)"
  by (simp add: neigh_inv_def)

lemma neigh_inv_lists: "neigh_inv c \<Longrightarrow> list_inv 4 (arp_list c)" "neigh_inv c \<Longrightarrow> list_inv 16 (ndisc_list c)"
  by (simp_all add: neigh_inv_def)

lemmas learn_inv = announce_arp_inv announce_ndisc_inv arp_list_inv ndisc_list_inv list_inv_upd list_inv_del
  list_inv_append neigh_inv_lists

lemma new_arp_inv:
  "neigh_inv c \<Longrightarrow> neigh_ok 4 m \<Longrightarrow> neigh_find (nm_ip m) (arp_list c) = None \<Longrightarrow>
   neigh_inv (mlacp_enqueue_arp (local_neigh m) c)"
  by (auto simp: mlacp_enqueue_arp_def local_ok intro!: learn_inv)


lemma arp_table_learn_inv:
  assumes "neigh_inv c" "neigh_ok 4 m" "nm_op_type m \<noteq> NEIGH_SYNC_DEL"
  shows "neigh_inv (arp_table_learn m del c)"
  using assms new_arp_inv [OF assms(1,2)]
  by (auto simp: arp_table_learn_def local_ok copy_keeps intro!: learn_inv split: option.split)































lemma resend_arp_inv: "neigh_inv c \<Longrightarrow> neigh_inv (resend_arp P c)"
proof -
  assume c: "neigh_inv c"
  then have l: "list_inv 4 (arp_list c)" by (simp add: neigh_inv_def)
  have "list_inv 4 (map (\<lambda>e. if P e then resend e else e) (arp_list c))"
    by (rule list_inv_map [OF l]) (simp_all add: resend_def neigh_ok_def)
  then show ?thesis using c by (auto simp: resend_arp_def neigh_inv_def list_inv_def resend_def neigh_ok_def)
qed




lemma send_arp_ok:
  assumes "neigh_inv c"
  shows "\<exists>c' msgs. mlacp_sync_send_syncArpInfo c = Some c' \<and> neigh_inv c' \<and> arp_msg_list c' = [] \<and>
     arp_list c' = arp_list c \<and> sent (con c') = sent (con c) @ msgs \<and>
     map (neigh_entries 4) msgs = map (Some \<circ> map wire) (chunks 40 (arp_msg_list c))"
proof -
  have "list_all (neigh_ok 4) ([] @ arp_msg_list c)" using assms by (simp add: neigh_inv_def list_all_iff)
  then obtain msgs k where "neigh_send_loop mlacp_prepare_for_arp_info (arp_msg_list c) 0 0 [] (con c) =
      Some ((con c)\<lparr> sent := sent (con c) @ msgs, mac_msg_id := k \<rparr>)"
    "map (neigh_entries 4) msgs = map (Some \<circ> map wire) (chunks 40 (arp_msg_list c))"
    using neigh_send_loop_ok [of 4 "[]" "arp_msg_list c" "[]" TLV_T_MLACP_ARP_INFO "con c" 0 0]
    by (auto simp: mlacp_prepare_for_arp_info_def)
  then show ?thesis using assms by (auto simp: mlacp_sync_send_syncArpInfo_def neigh_inv_def con_ok_def)
qed

lemma send_ndisc_ok:
  assumes "neigh_inv c"
  shows "\<exists>c' msgs. mlacp_sync_send_syncNdiscInfo c = Some c' \<and> neigh_inv c' \<and> ndisc_msg_list c' = [] \<and>
     ndisc_list c' = ndisc_list c \<and> sent (con c') = sent (con c) @ msgs \<and>
     map (neigh_entries 16) msgs = map (Some \<circ> map wire) (chunks 40 (ndisc_msg_list c))"
proof -
  have "list_all (neigh_ok 16) ([] @ ndisc_msg_list c)" using assms by (simp add: neigh_inv_def list_all_iff)
  then obtain msgs k where "neigh_send_loop mlacp_prepare_for_ndisc_info (ndisc_msg_list c) 0 0 [] (con c) =
      Some ((con c)\<lparr> sent := sent (con c) @ msgs, mac_msg_id := k \<rparr>)"
    "map (neigh_entries 16) msgs = map (Some \<circ> map wire) (chunks 40 (ndisc_msg_list c))"
    using neigh_send_loop_ok [of 16 "[]" "ndisc_msg_list c" "[]" TLV_T_MLACP_NDISC_INFO "con c" 0 0]
    by (auto simp: mlacp_prepare_for_ndisc_info_def)
  then show ?thesis using assms by (auto simp: mlacp_sync_send_syncNdiscInfo_def neigh_inv_def con_ok_def)
qed

section \<open>Runs of the neighbour handlers\<close>

text \<open>
  \<open>Connection\<close> stands for whatever the rest of the daemon and the kernel do: it sets the connection
  with its interfaces and what the kernel will answer.
\<close>

datatype neigh_event =
    Kernel_neigh mem
  | Arp_packet mem nat int byte
  | Ndisc_packet mem nat int
  | Peer_arp_info mem
  | Peer_ndisc_info mem
  | Send_arp_queue
  | Send_ndisc_queue
  | Resync
  | Interface_up mac_lif
  | L3_state mac_lif ROUTE_MANIPULATE_TYPE_E
  | Unique_ip "ifname list"
  | Connection mac_ctx "nl_request \<Rightarrow> int"

fun neigh_handle :: "neigh_event \<Rightarrow> neigh_ctx \<Rightarrow> neigh_ctx option" where
  "neigh_handle (Kernel_neigh n) c = do_one_neigh_request n c"
| "neigh_handle (Arp_packet buf n i hl) c = iccp_receive_arp_packet_handler buf n i hl c"
| "neigh_handle (Ndisc_packet buf n i) c = iccp_receive_ndisc_packet_handler buf n i c"
| "neigh_handle (Peer_arp_info buf) c = mlacp_fsm_update_arp_info buf c"
| "neigh_handle (Peer_ndisc_info buf) c = mlacp_fsm_update_ndisc_info buf c"
| "neigh_handle Send_arp_queue c = mlacp_sync_send_syncArpInfo c"
| "neigh_handle Send_ndisc_queue c = mlacp_sync_send_syncNdiscInfo c"
| "neigh_handle Resync c = Some (mlacp_resync_ndisc (mlacp_resync_arp c))"
| "neigh_handle (Interface_up l) c = Some (syn_ndisc_info_to_peer l (syn_arp_info_to_peer l c))"
| "neigh_handle (L3_state l rt) c = Some (set_l3_itf_state l rt c)"
| "neigh_handle (Unique_ip ns) c = sync_unique_ip ns c"
| "neigh_handle (Connection m st) c = Some (c\<lparr> con := m, nl_status := st \<rparr>)"






section \<open>An entry on two switches\<close>

lemma chunks_single: "0 < n \<Longrightarrow> chunks n [x] = [[x]]"
  by (simp add: chunks_one)

lemma entries_single:
  assumes "neigh_entries n buf = Some [e]"
  shows "\<exists>num. rd16be buf 20 = Some num \<and> [0..<unat num] = [0] \<and> NeighEntry n buf 0 = Some e"
proof -
  obtain num where num: "rd16be buf 20 = Some num" and t: "those (map (NeighEntry n buf) [0..<unat num]) = Some [e]"
    using assms by (auto simp: neigh_entries_def info_entries_def bind_eq_Some_conv)
  have len: "those xs = Some ys \<Longrightarrow> length ys = length xs" for xs :: "neigh option list" and ys
    by (induction xs arbitrary: ys) (auto split: option.splits)
  have "unat num = 1" using len [OF t] by simp
  then show ?thesis using num t by (auto split: option.splits)
qed

lemma arp_info_single:
  "neigh_entries 4 buf = Some [e] \<Longrightarrow> mlacp_fsm_update_arp_info buf c = mlacp_fsm_update_arp_entry e c"
  by (drule entries_single, cases "mlacp_fsm_update_arp_entry e c") (auto simp: mlacp_fsm_update_arp_info_def)

lemma send_arp_single:
  assumes "neigh_inv c" "arp_msg_list c = [q]"
  shows "\<exists>c' msg. mlacp_sync_send_syncArpInfo c = Some c' \<and> arp_list c' = arp_list c \<and>
     sent (con c') = sent (con c) @ [msg] \<and> neigh_entries 4 msg = Some [wire q]"
  using send_arp_ok [OF assms(1)] assms(2) by (auto simp: chunks_single)

lemma kernel_entry:
  assumes "length ip = n" "n \<le> 16" "\<And>mac. ll = Some mac \<Longrightarrow> length mac = 6"
  shows "neigh_of_kernel n name (Some ip) ll =
     Some \<lparr> nm_op_type = NEIGH_SYNC_LIF, nm_flag = 0, nm_learn_flag = 0, nm_ifname = name, nm_ip = ip,
            nm_mac = (case ll of None \<Rightarrow> replicate 6 0 | Some mac \<Rightarrow> mac) \<rparr>"
  using assms by (auto simp: neigh_of_kernel_def Let_def split: option.split)

lemma vlan_checked:
  assumes "vlan_id_of (nm_ifname e) \<noteq> 0" "local_if_find_by_name c (peer_itf c) = Some pl" "\<not> local_if_is_l3_mode pl"
    "vlan_find pl (vlan_id_of (nm_ifname e)) = Some v" "vlan_if c v = Some vi" "\<not> own vi"
  shows "neigh_check own own' e c = (True, False)"
  using assms by (simp add: neigh_check_def neigh_vlan_check_def Let_def)

lemma peer_takes_arp:
  assumes "neigh_check (\<lambda>l. nm_ip e = ml_ipv4_addr l) (\<lambda>l. nm_ip e = ml_ipv4_addr l) e (con c) = (True, False)"
    "\<not> nl_failed (fst (iccp_netlink_neighbor_request AF_INET e (nm_op_type e = NEIGH_SYNC_ADD)
        (nm_flag e AND NEIGH_SYNC_FLAG_SELF_IP \<noteq> 0) c))" "neigh_inv c"
  shows "\<exists>c' c1. mlacp_fsm_update_arp_entry e c = Some c' \<and> c' = arp_lists_update e c1 \<and>
     sends (snd (iccp_netlink_neighbor_request AF_INET e (nm_op_type e = NEIGH_SYNC_ADD)
        (nm_flag e AND NEIGH_SYNC_FLAG_SELF_IP \<noteq> 0) c)) c1"
proof -
  obtain err d where r: "iccp_netlink_neighbor_request AF_INET e (nm_op_type e = NEIGH_SYNC_ADD)
      (nm_flag e AND NEIGH_SYNC_FLAG_SELF_IP \<noteq> 0) c = (err, d)" by fastforce
  have d: "neigh_inv d" using nl_request_inv [of AF_INET e _ _ c] assms(3) r by (metis snd_conv)
  obtain c1 where "(if nm_op_type e = NEIGH_SYNC_ADD \<and> nm_flag e AND NEIGH_SYNC_FLAG_ACK \<noteq> 0
      then syn_ack_local_neigh_mac_info_to_peer (nm_ifname e) False d else Some d) = Some c1" "sends d c1"
    using syn_ack_sends [OF d, of "nm_ifname e" False] sends_refl [of d] unfolding wp_def by (cases "nm_op_type e = NEIGH_SYNC_ADD \<and> nm_flag e AND NEIGH_SYNC_FLAG_ACK \<noteq> 0") auto
  then show ?thesis using assms(1,2) r unfolding mlacp_fsm_update_arp_entry_def Let_def by auto
qed

lemma nl_request_fields:
  "local_if_find_by_name (con c) (nm_ifname e) \<noteq> None \<Longrightarrow>
   iccp_netlink_neighbor_request fam e add perm c =
     (let r = \<lparr> rq_family = fam, rq_addr = nm_ip e, rq_add = add, rq_mac = nm_mac e, rq_port = nm_ifname e, rq_permanent = perm \<rparr>
      in (nl_status c r, c\<lparr> nl_out := nl_out c @ [r] \<rparr>))"
  by (auto simp: iccp_netlink_neighbor_request_def Let_def)

lemma arp_entry_installed:
  assumes "neigh_inv c" "malloc_ok (con c)" "nm_op_type e = NEIGH_SYNC_ADD \<or> nm_op_type e = NEIGH_SYNC_DEL" "nm_flag e = 0"
    "neigh_check (\<lambda>l. nm_ip e = ml_ipv4_addr l) (\<lambda>l. nm_ip e = ml_ipv4_addr l) e (con c) = (True, False)"
    "local_if_find_by_name (con c) (nm_ifname e) \<noteq> None" "\<And>r. 0 \<le> nl_status c r"
  shows "\<exists>c'. mlacp_fsm_update_arp_entry e c = Some c' \<and>
     nl_out c' = nl_out c @ [\<lparr> rq_family = AF_INET, rq_addr = nm_ip e, rq_add = (nm_op_type e = NEIGH_SYNC_ADD),
        rq_mac = nm_mac e, rq_port = nm_ifname e, rq_permanent = False \<rparr>] \<and>
     neigh_map (arp_list c') = (neigh_map (arp_list c))(nm_ip e :=
        if nm_op_type e = NEIGH_SYNC_ADD then Some (nm_ifname e, nm_mac e) else None)"
proof -
  let ?r = "\<lparr> rq_family = AF_INET, rq_addr = nm_ip e, rq_add = (nm_op_type e = NEIGH_SYNC_ADD),
        rq_mac = nm_mac e, rq_port = nm_ifname e, rq_permanent = False \<rparr>"
  have q: "iccp_netlink_neighbor_request AF_INET e (nm_op_type e = NEIGH_SYNC_ADD)
      (nm_flag e AND NEIGH_SYNC_FLAG_SELF_IP \<noteq> 0) c = (nl_status c ?r, c\<lparr> nl_out := nl_out c @ [?r] \<rparr>)"
    using assms(4,6) by (simp add: nl_request_fields Let_def)
  obtain c' c1 where u: "mlacp_fsm_update_arp_entry e c = Some c'" "c' = arp_lists_update e c1"
    "sends (c\<lparr> nl_out := nl_out c @ [?r] \<rparr>) c1"
    using peer_takes_arp [OF assms(5) _ assms(1)] assms(7) [of ?r] unfolding q by (auto simp: nl_failed_def)
  have "nl_out c' = nl_out c @ [?r]" using sends_same(5) [OF u(3)] u(2) by (simp add: arp_lists_update_def)
  moreover have "arp_list c' = neigh_list_update True e (arp_list c)"
    using sends_same(1,6) [OF u(3)] u(2) assms(2) by (simp add: arp_lists_update_def)
  ultimately show ?thesis using u(1) neigh_list_update_map [of 4 "arp_list c" True e] assms(1,3)
    by (simp add: neigh_inv_def)
qed

lemma find_map_None: "neigh_find ip xs = None \<Longrightarrow> neigh_map xs ip = None"
  by (simp add: neigh_map_def)

lemma neigh_map_upd:
  "neigh_find (nm_ip m) xs \<noteq> None \<Longrightarrow>
   neigh_map (neigh_upd (nm_ip m) (neigh_copy m) xs) = (neigh_map xs)(nm_ip m \<mapsto> (nm_ifname m, nm_mac m))"
  by (rule ext) (auto simp: neigh_map_def neigh_find_upd copy_keeps neigh_copy_def)

lemma neigh_map_append:
  "neigh_find (nm_ip m) xs = None \<Longrightarrow> neigh_map (xs @ [m]) = (neigh_map xs)(nm_ip m \<mapsto> (nm_ifname m, nm_mac m))"
  by (rule ext) (auto simp: neigh_map_def neigh_find_append split: option.split)

lemma neigh_map_del: "list_inv n xs \<Longrightarrow> neigh_map (neigh_del ip xs) = (neigh_map xs)(ip := None)"
  by (rule ext) (auto simp: neigh_map_def neigh_find_del list_inv_def)

definition announcement :: "byte \<Rightarrow> neigh \<Rightarrow> neigh" where
  "announcement op m = m\<lparr> nm_op_type := op, nm_flag := 0, nm_learn_flag := 0 \<rparr>"

lemma announcement_simps [simp]:
  "nm_ip (announcement op m) = nm_ip m" "nm_ifname (announcement op m) = nm_ifname m"
  "nm_mac (announcement op m) = nm_mac m" "nm_op_type (announcement op m) = op" "nm_flag (announcement op m) = 0"
  by (simp_all add: announcement_def)

lemma arp_learn_change:
  assumes "exchange (con c)" "malloc_ok (con c)" "arp_msg_list c = []" "nm_op_type m = NEIGH_SYNC_LIF"
    "neigh_map (arp_list c) (nm_ip m) \<noteq> Some (nm_ifname m, nm_mac m)"
  shows "neigh_map (arp_list (arp_table_learn m False c)) = (neigh_map (arp_list c))(nm_ip m \<mapsto> (nm_ifname m, nm_mac m)) \<and>
     (\<exists>q. arp_msg_list (arp_table_learn m False c) = [q] \<and> wire q = announcement NEIGH_SYNC_ADD m) \<and>
     con (arp_table_learn m False c) = con c"
proof (cases "neigh_find (nm_ip m) (arp_list c)")
  case None
  then show ?thesis using assms neigh_map_append [of "local_neigh m" "arp_list c"]
    by (simp add: arp_table_learn_def announce_arp_def enqueue_arp_msg_def mlacp_enqueue_arp_def local_ok)
      (simp add: local_neigh_def wire_def announcement_def)
next
  case (Some i)
  then have "neigh_changed i m" using assms(5) by (auto simp: neigh_map_def neigh_changed_def)
  then show ?thesis using Some assms neigh_map_upd [of m "arp_list c"]
    by (simp add: arp_table_learn_def announce_arp_def enqueue_arp_msg_def wire_def announcement_def)
qed

lemma arp_learn_removal:
  assumes "neigh_inv c" "exchange (con c)" "malloc_ok (con c)" "arp_msg_list c = []"
    "neigh_find (nm_ip m) (arp_list c) \<noteq> None"
  shows "neigh_map (arp_list (arp_table_learn m True c)) = (neigh_map (arp_list c))(nm_ip m := None) \<and>
     (\<exists>q. arp_msg_list (arp_table_learn m True c) = [q] \<and> wire q = announcement NEIGH_SYNC_DEL m) \<and>
     con (arp_table_learn m True c) = con c"
proof -
  obtain i where "neigh_find (nm_ip m) (arp_list c) = Some i" using assms(5) by blast
  then show ?thesis using assms neigh_map_del [OF neigh_inv_lists(1) [OF assms(1)]]
    by (simp add: arp_table_learn_def announce_arp_def enqueue_arp_msg_def wire_def announcement_def)
qed

text \<open>From the list of one switch over the queue and the message to the other switch\<close>

lemma arp_queue_to_peer:
  assumes A: "neigh_inv A" "arp_msg_list A = [q]" "wire q = announcement op m" "op = NEIGH_SYNC_ADD \<or> op = NEIGH_SYNC_DEL"
    and B: "neigh_inv B" "malloc_ok (con B)" "vlan_id_of (nm_ifname m) \<noteq> 0"
      "local_if_find_by_name (con B) (peer_itf (con B)) = Some pl" "\<not> local_if_is_l3_mode pl"
      "vlan_find pl (vlan_id_of (nm_ifname m)) = Some v" "vlan_if (con B) v = Some vi" "nm_ip m \<noteq> ml_ipv4_addr vi"
      "local_if_find_by_name (con B) (nm_ifname m) \<noteq> None" "\<And>r. 0 \<le> nl_status B r"
  shows "\<exists>A' msg B'. mlacp_sync_send_syncArpInfo A = Some A' \<and> arp_list A' = arp_list A \<and>
     sent (con A') = sent (con A) @ [msg] \<and> mlacp_fsm_update_arp_info msg B = Some B' \<and>
     nl_out B' = nl_out B @ [\<lparr> rq_family = AF_INET, rq_addr = nm_ip m, rq_add = (op = NEIGH_SYNC_ADD), rq_mac = nm_mac m,
        rq_port = nm_ifname m, rq_permanent = False \<rparr>] \<and>
     neigh_map (arp_list B') = (neigh_map (arp_list B))(nm_ip m :=
        if op = NEIGH_SYNC_ADD then Some (nm_ifname m, nm_mac m) else None)"
proof -
  obtain A' msg where s: "mlacp_sync_send_syncArpInfo A = Some A'" "arp_list A' = arp_list A"
    "sent (con A') = sent (con A) @ [msg]" and e: "neigh_entries 4 msg = Some [announcement op m]"
    using send_arp_single [OF A(1,2)] A(3) by auto
  have "neigh_check (\<lambda>l. nm_ip m = ml_ipv4_addr l) (\<lambda>l. nm_ip m = ml_ipv4_addr l) (announcement op m) (con B) = (True, False)"
    using vlan_checked [where e = "announcement op m", unfolded announcement_simps, OF B(3-7), where own = "\<lambda>l. nm_ip m = ml_ipv4_addr l"] B(8)
    by simp
  then show ?thesis using arp_entry_installed [OF B(1,2), of "announcement op m"] A(4) B(9,10) s arp_info_single [OF e]
    by auto
qed

section \<open>Properties\<close>


text \<open>
  C10.  Sending empties both queues: every queued ARP and ND entry is announced once, in the order of its
  queue, in messages of at most forty entries from which the receiver reads exactly those entries;
  the lists stay as they are.
\<close>

theorem neigh_queues_drained:
  assumes "neigh_inv c"
  shows "\<exists>c1 c2 msgs1 msgs2. mlacp_sync_send_syncArpInfo c = Some c1 \<and> mlacp_sync_send_syncNdiscInfo c1 = Some c2 \<and>
     arp_msg_list c2 = [] \<and> ndisc_msg_list c2 = [] \<and> arp_list c2 = arp_list c \<and> ndisc_list c2 = ndisc_list c \<and>
     sent (con c2) = sent (con c) @ msgs1 @ msgs2 \<and>
     concat (map (the \<circ> neigh_entries 4) msgs1) = map wire (arp_msg_list c) \<and>
     concat (map (the \<circ> neigh_entries 16) msgs2) = map wire (ndisc_msg_list c) \<and>
     list_all (\<lambda>msg. \<exists>es. neigh_entries 4 msg = Some es \<and> es \<noteq> [] \<and> length es \<le> MAX_NEIGH_ENTRY_NUM) msgs1 \<and>
     list_all (\<lambda>msg. \<exists>es. neigh_entries 16 msg = Some es \<and> es \<noteq> [] \<and> length es \<le> MAX_NEIGH_ENTRY_NUM) msgs2"
proof -
  obtain c1 msgs1 where a: "mlacp_sync_send_syncArpInfo c = Some c1" "neigh_inv c1" "arp_msg_list c1 = []"
    "arp_list c1 = arp_list c" "sent (con c1) = sent (con c) @ msgs1"
    and ea: "map (neigh_entries 4) msgs1 = map (Some \<circ> map wire) (chunks 40 (arp_msg_list c))"
    using send_arp_ok [OF assms] by blast
  have k1: "ndisc_msg_list c1 = ndisc_msg_list c" "ndisc_list c1 = ndisc_list c"
    using a(1) by (auto simp: mlacp_sync_send_syncArpInfo_def bind_eq_Some_conv)
  obtain c2 msgs2 where b: "mlacp_sync_send_syncNdiscInfo c1 = Some c2" "ndisc_msg_list c2 = []"
    "ndisc_list c2 = ndisc_list c1" "sent (con c2) = sent (con c1) @ msgs2"
    and eb: "map (neigh_entries 16) msgs2 = map (Some \<circ> map wire) (chunks 40 (ndisc_msg_list c1))"
    using send_ndisc_ok [OF a(2)] by blast
  have k2: "arp_msg_list c2 = arp_msg_list c1" "arp_list c2 = arp_list c1"
    using b(1) by (auto simp: mlacp_sync_send_syncNdiscInfo_def bind_eq_Some_conv)
  show ?thesis using a b k1 k2 batches_read [OF ea] batches_read [OF eb] by auto
qed

text \<open>
  C11.  A neighbour the kernel of one switch reports, new or with another MAC address, reaches the other
  switch: one message is sent, the peer asks its kernel to add the entry on the interface of the
  same name, and both lists then have the address with that interface and MAC address.
\<close>

theorem arp_learnt_reaches_peer:
  assumes "neigh_inv A" "exchange (con A)" "malloc_ok (con A)" "arp_msg_list A = []"
    "local_if_find_by_ifindex (con A) i = Some l" "ml_ipv4_addr l \<noteq> replicate 4 0"
    "neigh_port (con A) i (vlan_id_of (ml_name l)) = Some w" "\<not> on_vlan (con A) w (\<lambda>vi. ip = ml_ipv4_addr vi)"
    "length ip = 4" "length mac = ETHER_ADDR_LEN" "mac \<noteq> bcast_mac"
    "neigh_map (arp_list A) ip \<noteq> Some (ml_name l, mac)"
    "neigh_inv B" "malloc_ok (con B)" "vlan_id_of (ml_name l) \<noteq> 0"
    "local_if_find_by_name (con B) (peer_itf (con B)) = Some pl" "\<not> local_if_is_l3_mode pl"
    "vlan_find pl (vlan_id_of (ml_name l)) = Some v" "vlan_if (con B) v = Some vi" "ip \<noteq> ml_ipv4_addr vi"
    "local_if_find_by_name (con B) (ml_name l) \<noteq> None" "\<And>r. 0 \<le> nl_status B r"
  shows "\<exists>A1 A2 msg B'. do_arp_learn_from_kernel i (Some ip) (Some mac) False False A = Some A1 \<and>
     mlacp_sync_send_syncArpInfo A1 = Some A2 \<and> sent (con A2) = sent (con A) @ [msg] \<and>
     neigh_map (arp_list A2) = (neigh_map (arp_list A))(ip \<mapsto> (ml_name l, mac)) \<and>
     mlacp_fsm_update_arp_info msg B = Some B' \<and>
     nl_out B' = nl_out B @ [\<lparr> rq_family = AF_INET, rq_addr = ip, rq_add = True, rq_mac = mac,
        rq_port = ml_name l, rq_permanent = False \<rparr>] \<and>
     neigh_map (arp_list B') = (neigh_map (arp_list B))(ip \<mapsto> (ml_name l, mac))"
proof -
  let ?m = "\<lparr> nm_op_type = NEIGH_SYNC_LIF, nm_flag = 0, nm_learn_flag = 0, nm_ifname = ml_name l, nm_ip = ip, nm_mac = mac \<rparr>"
  let ?A = "arp_table_learn ?m False A"
  have r: "do_arp_learn_from_kernel i (Some ip) (Some mac) False False A = Some ?A"
    using assms(5-11) kernel_entry [of ip 4 "Some mac" "ml_name l"] by (simp add: do_arp_learn_from_kernel_def)
  have ok: "neigh_ok 4 ?m"
    using assms(1,5,9,10) lif_ok_found(2) by (auto simp: neigh_inv_def neigh_ok_def lif_ok_def)
  then have inv: "neigh_inv ?A" using assms(1) by (intro arp_table_learn_inv) simp_all
  obtain q where q: "arp_msg_list ?A = [q]" "wire q = announcement NEIGH_SYNC_ADD ?m"
    and m: "neigh_map (arp_list ?A) = (neigh_map (arp_list A))(ip \<mapsto> (ml_name l, mac))" "con ?A = con A"
    using arp_learn_change [OF assms(2-4), of ?m] assms(12) by auto
  show ?thesis
    using arp_queue_to_peer [OF inv q _ assms(13,14) _ assms(16,17) _ assms(19)] assms(15,18,20-22) r m by auto
qed

text \<open>
  C12.  When the kernel of one switch drops a neighbour that is in the list, the other switch asks its kernel
  to delete the entry, and the address is in neither list any more.
\<close>

theorem arp_removed_on_both:
  assumes "neigh_inv A" "exchange (con A)" "malloc_ok (con A)" "arp_msg_list A = []"
    "local_if_find_by_ifindex (con A) i = Some l"
    "neigh_port (con A) i (vlan_id_of (ml_name l)) = Some w" "\<not> on_vlan (con A) w (\<lambda>vi. ip = ml_ipv4_addr vi)"
    "length ip = 4" "neigh_map (arp_list A) ip \<noteq> None"
    "neigh_inv B" "malloc_ok (con B)" "vlan_id_of (ml_name l) \<noteq> 0"
    "local_if_find_by_name (con B) (peer_itf (con B)) = Some pl" "\<not> local_if_is_l3_mode pl"
    "vlan_find pl (vlan_id_of (ml_name l)) = Some v" "vlan_if (con B) v = Some vi" "ip \<noteq> ml_ipv4_addr vi"
    "local_if_find_by_name (con B) (ml_name l) \<noteq> None" "\<And>r. 0 \<le> nl_status B r"
  shows "\<exists>A1 A2 msg B'. do_arp_learn_from_kernel i (Some ip) ll True True A = Some A1 \<and>
     mlacp_sync_send_syncArpInfo A1 = Some A2 \<and> sent (con A2) = sent (con A) @ [msg] \<and>
     neigh_map (arp_list A2) = (neigh_map (arp_list A))(ip := None) \<and>
     mlacp_fsm_update_arp_info msg B = Some B' \<and>
     nl_out B' = nl_out B @ [\<lparr> rq_family = AF_INET, rq_addr = ip, rq_add = False, rq_mac = replicate 6 0,
        rq_port = ml_name l, rq_permanent = False \<rparr>] \<and>
     neigh_map (arp_list B') = (neigh_map (arp_list B))(ip := None)"
proof -
  let ?m = "\<lparr> nm_op_type = NEIGH_SYNC_LIF, nm_flag = 0, nm_learn_flag = 0, nm_ifname = ml_name l, nm_ip = ip,
    nm_mac = replicate 6 0 \<rparr>"
  let ?A = "arp_table_learn ?m True A"
  have r: "do_arp_learn_from_kernel i (Some ip) ll True True A = Some ?A"
    using assms(5-8) kernel_entry [of ip 4 None "ml_name l"] by (simp add: do_arp_learn_from_kernel_def)
  have ok: "neigh_ok 4 ?m"
    using assms(1,5,8) lif_ok_found(2) by (auto simp: neigh_inv_def neigh_ok_def lif_ok_def)
  then have inv: "neigh_inv ?A" using assms(1) by (intro arp_table_learn_inv) simp_all
  have "neigh_find ip (arp_list A) \<noteq> None" using assms(9) by (simp add: neigh_map_def)
  then obtain q where q: "arp_msg_list ?A = [q]" "wire q = announcement NEIGH_SYNC_DEL ?m"
    and m: "neigh_map (arp_list ?A) = (neigh_map (arp_list A))(ip := None)" "con ?A = con A"
    using arp_learn_removal [OF assms(1-4), of ?m] by auto
  show ?thesis
    using arp_queue_to_peer [OF inv q _ assms(10,11) _ assms(13,14) _ assms(16)] assms(12,15,17-19) r m by auto
qed

text \<open>
  C31.  A change of the MAC address of an IPv6 neighbour is never learnt: once an address is in the ND list,
  a kernel message that reports it with any MAC address changes nothing and announces nothing, because the entry of
  the list is compared with itself.
\<close>

theorem nd_change_not_learnt:
  assumes "neigh_map (ndisc_list c) ip \<noteq> None" "length ip = 16" "length mac = ETHER_ADDR_LEN"
  shows "do_ndisc_learn_from_kernel i (Some ip) (Some mac) False False c = Some c"
proof -
  obtain e where "neigh_find ip (ndisc_list c) = Some e" using assms(1) by (auto simp: neigh_map_def)
  then show ?thesis using kernel_entry [of ip 16 "Some mac"] assms(2,3)
    by (simp add: do_ndisc_learn_from_kernel_def ndisc_table_learn_def neigh_changed_def split: option.split)
qed

lemma request_all_out:
  assumes "local_if_find_by_name (con c) n \<noteq> None" "\<forall>e \<in> set es. nm_ifname e = n"
  shows "request_all fam add es c = c\<lparr> nl_out := nl_out c @
     map (\<lambda>e. \<lparr> rq_family = fam, rq_addr = nm_ip e, rq_add = add, rq_mac = nm_mac e, rq_port = nm_ifname e,
       rq_permanent = False \<rparr>) es \<rparr>"
  using assms unfolding request_all_def
  by (induction es arbitrary: c) (simp_all add: nl_request_fields Let_def)

text \<open>
  When a layer 3 port channel goes down, its ARP entries are deleted from the kernel, but its ND
  entries are added again: the removal branch of the ND handler asks the kernel to add.
\<close>

theorem link_down_adds_nd:
  assumes "local_if_find_by_name (con c) (ml_name l) \<noteq> None" "take 4 (ml_name l) \<noteq> VLAN_PREFIX"
  shows "nl_out (set_l3_itf_state l ROUTE_ADD c) = nl_out c @
     map (\<lambda>e. \<lparr> rq_family = AF_INET, rq_addr = nm_ip e, rq_add = False, rq_mac = nm_mac e, rq_port = nm_ifname e,
       rq_permanent = False \<rparr>) (neighs_of_lif l (arp_list c)) @
     map (\<lambda>e. \<lparr> rq_family = AF_INET6, rq_addr = nm_ip e, rq_add = True, rq_mac = nm_mac e, rq_port = nm_ifname e,
       rq_permanent = False \<rparr>) (neighs_of_lif l (ndisc_list c))"
proof -
  have "\<forall>e \<in> set (neighs_of_lif l es). nm_ifname e = ml_name l" for es by (simp add: neighs_of_lif_def)
  then show ?thesis using assms
    by (simp add: set_l3_itf_state_def arp_set_handler_def ndisc_set_handler_def request_all_out [where n = "ml_name l"])
qed

text \<open>
  The options of a neighbour advertisement: an option has a type, its length in units of eight
  bytes and its data.
\<close>

definition nd_opt_ok :: "byte \<times> mem \<Rightarrow> bool" where
  "nd_opt_ok x = (\<exists>k > 0. k < 256 \<and> length (snd x) + 2 = 8 * k)"

definition nd_opt_bytes :: "byte \<times> mem \<Rightarrow> mem" where
  "nd_opt_bytes x = fst x # of_nat ((length (snd x) + 2) div 8) # snd x"

fun target_mac :: "(byte \<times> mem) list \<Rightarrow> mem" where
  "target_mac [] = replicate ETHER_ADDR_LEN 0"
| "target_mac (x # os) = (if fst x = 2 then take ETHER_ADDR_LEN (snd x) else target_mac os)"

lemma nd_opt_facts:
  assumes "nd_opt_ok x"
  shows "length (nd_opt_bytes x) = 8 * unat (of_nat ((length (snd x) + 2) div 8) :: byte)"
    "(of_nat ((length (snd x) + 2) div 8) :: byte) \<noteq> 0" "6 \<le> length (snd x)"
proof -
  obtain k where k: "0 < k" "k < 256" "length (snd x) + 2 = 8 * k" using assms by (auto simp: nd_opt_ok_def)
  have d: "(length (snd x) + 2) div 8 = k" using k by simp
  have u: "unat (of_nat k :: byte) = k" using k by (simp add: unat_of_nat)
  show "length (nd_opt_bytes x) = 8 * unat (of_nat ((length (snd x) + 2) div 8) :: byte)"
    unfolding d u using k by (simp add: nd_opt_bytes_def)
  show "(of_nat ((length (snd x) + 2) div 8) :: byte) \<noteq> 0" unfolding d using u k(1) by (metis less_irrefl unat_0)
  show "6 \<le> length (snd x)" using k by linarith
qed

lemma nd_opt_loop_reads:
  "list_all nd_opt_ok os \<Longrightarrow>
   nd_opt_loop (p @ concat (map nd_opt_bytes os) @ r) (length p) (int (length (concat (map nd_opt_bytes os)))) =
     Some (Some (target_mac os))"
proof (induction os arbitrary: p)
  case Nil
  then show ?case by (subst nd_opt_loop.simps) simp
next
  case (Cons x os)
  let ?l = "of_nat ((length (snd x) + 2) div 8) :: byte" and ?t = "concat (map nd_opt_bytes os)"
  have ok: "nd_opt_ok x" using Cons.prems by simp
  note f = nd_opt_facts [OF ok]
  let ?b = "p @ nd_opt_bytes x @ ?t @ r"
  have b: "?b = p @ fst x # ?l # snd x @ ?t @ r" by (simp add: nd_opt_bytes_def)
  have l: "rd8 ?b (length p + 1) = Some ?l" using rd8_at [of _ "p @ [fst x]" ?l "snd x @ ?t @ r"] b by simp
  have t: "rd8 ?b (length p) = Some (fst x)" unfolding b by (rule rd8_at) simp
  have m: "rdn ?b (length p + 2) 6 = Some (take 6 (snd x))" using f(3) unfolding b by (simp add: rdn_def)
  have n: "2 \<le> length (nd_opt_bytes x)" by (simp add: nd_opt_bytes_def)
  have "nd_opt_loop ?b (length p + 8 * unat ?l) (int (length (nd_opt_bytes x @ ?t)) - 8 * int (unat ?l)) =
      Some (Some (target_mac os))"
    using Cons.IH [of "p @ nd_opt_bytes x"] Cons.prems f(1) by simp
  then show ?case using l t m n f(2) by (subst nd_opt_loop.simps) auto
qed

text \<open>
  C29.  The handler of neighbour advertisements reads the options of every well-formed packet that fits its buffer and
  passes on the first target link-layer address, or zeros when there is none.
\<close>

theorem advertisement_read:
  assumes "list_all nd_opt_ok os" "length hdr = 7" "length target = 16"
    "pkt = [136] @ hdr @ target @ concat (map nd_opt_bytes os)" "buf = pkt @ old"
  shows "iccp_receive_ndisc_packet_handler buf (length pkt) i c =
     Some (do_ndisc_update_from_reply_packet i target (target_mac os) c)"
proof -
  let ?p = "[136] @ hdr @ target" and ?o = "concat (map nd_opt_bytes os)"
  have b: "buf = ?p @ ?o @ old" and n: "length ?p = 24" using assms by simp_all
  have "rd8 buf 0 = Some 136" using rd8_at [of 0 "[]" 136] b by simp
  moreover have "rdn buf 8 16 = Some target" using rdn_at [of 8 "[136] @ hdr" 16 target "?o @ old"] b assms(2,3) by simp
  moreover have "nd_opt_loop buf 24 (int (length ?o)) = Some (Some (target_mac os))"
    using nd_opt_loop_reads [OF assms(1), of ?p old] b n by simp
  moreover have "int (length pkt) - 24 = int (length ?o)" using assms(2-4) by simp
  moreover have "target_mac os = replicate 6 0" if "length ?o = 0"
  proof -
    have "os = []" using that by (cases os) (simp_all add: nd_opt_bytes_def)
    then show ?thesis by simp
  qed
  ultimately show ?thesis by (auto simp: iccp_receive_ndisc_packet_handler_def)
qed


section \<open>Samples\<close>

text \<open>Two switches with VLAN 10 on the peer link and an interface \<open>Vlan10\<close> with an address\<close>

definition sample_vlan :: mac_lif where
  "sample_vlan = (sample_lif PORT_STATE_UP)\<lparr> ml_name := [86, 108, 97, 110, 49, 48], ml_ifindex := 10, ml_type := IF_T_VLAN,
     ml_mclag := False, ml_ipv4_addr := [10, 0, 0, 1], ml_ipv6_addr := [0x20] @ replicate 14 0 @ [1] \<rparr>"

definition sample_peer_link :: mac_lif where
  "sample_peer_link = sample_link\<lparr> ml_vlan_tree := [\<lparr> vlan_vid = 10, vlan_itf = Some [86, 108, 97, 110, 49, 48] \<rparr>] \<rparr>"

definition sample_con :: mac_ctx where
  "sample_con = (sample_macs PORT_STATE_UP)\<lparr> lifs := [sample_vlan, sample_peer_link, sample_lif PORT_STATE_UP] \<rparr>"

definition sample_neigh :: "neigh list \<Rightarrow> neigh list \<Rightarrow> neigh_ctx" where
  "sample_neigh as ns = \<lparr> con = sample_con, system_id = [2, 0, 0, 0, 0, 1], arp_list = as, arp_msg_list = [], ndisc_list = ns,
     ndisc_msg_list = [], nl_status = (\<lambda>_. 0), if_has_addr = (\<lambda>_ _ _. False), nl_out = [], bridge_ok = True,
     bridge_out = [], learning_enable = 0, learning_retry_time = 0 \<rparr>"

definition sample_arp :: neigh where
  "sample_arp = \<lparr> nm_op_type = 0, nm_flag = 0, nm_learn_flag = 1, nm_ifname = [86, 108, 97, 110, 49, 48],
     nm_ip = [10, 0, 0, 7], nm_mac = [2, 0, 0, 0, 0, 7] \<rparr>"

definition sample_nd :: neigh where
  "sample_nd = sample_arp\<lparr> nm_ip := [0x20] @ replicate 14 0 @ [7] \<rparr>"

lemmas sample_neigh_defs = sample_neigh_def sample_con_def sample_vlan_def sample_peer_link_def sample_link_def
  sample_lif_def sample_macs_def

lemma sample_con_ok: "con_ok sample_con"
  by (simp add: sample_neigh_defs con_ok_def lif_ok_def name_ok_def)

lemma sample_neigh_inv: "list_inv 4 as \<Longrightarrow> list_inv 16 ns \<Longrightarrow> neigh_inv (sample_neigh as ns)"
  using sample_con_ok by (simp add: neigh_inv_def sample_neigh_def)

lemma sample_arp_inv: "list_inv 4 [sample_arp]" "list_inv 4 []" "list_inv 16 [sample_nd]" "list_inv 16 []"
  by (simp_all add: list_inv_def neigh_ok_def sample_arp_def sample_nd_def name_ok_def)

lemma sample_con_facts:
  "local_if_find_by_ifindex sample_con 10 = Some sample_vlan"
  "local_if_find_by_name sample_con (ml_name sample_vlan) = Some sample_vlan"
  "local_if_find_by_name sample_con (peer_itf sample_con) = Some sample_peer_link"
  "exchange sample_con" "malloc_ok sample_con" "sent sample_con = []" "\<not> local_if_is_l3_mode sample_peer_link"
  "vlan_if sample_con \<lparr> vlan_vid = 10, vlan_itf = Some [86, 108, 97, 110, 49, 48] \<rparr> = Some sample_vlan"
  "ml_name sample_vlan = [86, 108, 97, 110, 49, 48]" "ml_ipv4_addr sample_vlan = [10, 0, 0, 1]"
  by (simp_all add: sample_neigh_defs local_if_find_by_ifindex_def local_if_find_by_name_def
      local_if_is_l3_mode_def vlan_if_def)

lemma sample_lists: "[10, 0, 0, 1] \<noteq> replicate 4 (0 :: byte)" "[2, 0, 0, 0, 0, 7] \<noteq> replicate 6 (255 :: byte)"
  "local_if_find_by_name sample_con [86, 108, 97, 110, 49, 48] = Some sample_vlan"
  using sample_con_facts(2) by (code_simp, code_simp, simp add: sample_con_facts(9))

lemma sample_vlan_id: "vlan_id_of [86, 108, 97, 110, 49, 48] = 10"
  by code_simp

lemma sample_vlan_find: "vlan_find sample_peer_link 10 = Some \<lparr> vlan_vid = 10, vlan_itf = Some [86, 108, 97, 110, 49, 48] \<rparr>"
  by (simp add: sample_neigh_defs vlan_find_def)

lemma sample_port: "neigh_port sample_con 10 10 = Some (Some \<lparr> vlan_vid = 10, vlan_itf = Some [86, 108, 97, 110, 49, 48] \<rparr>)"
  by code_simp

definition sample_nlmsg :: mem where
  "sample_nlmsg = [48, 0, 0, 0, 28, 0, 0, 0, 0, 0, 0, 0, 0, 0, 0, 0] @ [2, 0, 0, 0, 10, 0, 0, 0, 2, 0, 0, 1] @
     [8, 0, 1, 0, 10, 0, 0, 7] @ [10, 0, 2, 0, 2, 0, 0, 0, 0, 7, 0, 0]"




lemma kernel_message_learnt:
  "map_option (\<lambda>c. (neigh_map (arp_list c) [10, 0, 0, 7], length (arp_msg_list c)))
     (neigh_handle (Kernel_neigh sample_nlmsg) (sample_neigh [] [])) =
   Some (Some ([86, 108, 97, 110, 49, 48], [2, 0, 0, 0, 0, 7]), 1)"
  by code_simp

lemma neigh_queues_drained_witness:
  "\<exists>c1 c2 msgs1 msgs2. mlacp_sync_send_syncArpInfo (mlacp_resync_arp (sample_neigh [sample_arp] [])) = Some c1 \<and>
     mlacp_sync_send_syncNdiscInfo c1 = Some c2 \<and> arp_msg_list c2 = [] \<and> sent (con c2) = msgs1 @ msgs2 \<and>
     concat (map (the \<circ> neigh_entries 4) msgs1) = [announcement 1 sample_arp] \<and>
     concat (map (the \<circ> neigh_entries 16) msgs2) = []"
proof -
  let ?c = "mlacp_resync_arp (sample_neigh [sample_arp] [])"
  have "neigh_inv ?c"
    unfolding mlacp_resync_arp_def by (intro resend_arp_inv sample_neigh_inv sample_arp_inv)
  from neigh_queues_drained [OF this] show ?thesis
    by (auto simp: mlacp_resync_arp_def resend_arp_def sample_neigh_def sample_con_facts resend_def announcement_def wire_def)
qed

lemma arp_learnt_reaches_peer_witness:
  "\<exists>A1 A2 msg B'. do_arp_learn_from_kernel 10 (Some [10, 0, 0, 7]) (Some [2, 0, 0, 0, 0, 7]) False False (sample_neigh [] []) = Some A1 \<and>
     mlacp_sync_send_syncArpInfo A1 = Some A2 \<and> sent (con A2) = [msg] \<and>
     mlacp_fsm_update_arp_info msg (sample_neigh [] []) = Some B' \<and>
     neigh_map (arp_list B') = [[10, 0, 0, 7] \<mapsto> ([86, 108, 97, 110, 49, 48], [2, 0, 0, 0, 0, 7])]"
proof -
  have inv: "neigh_inv (sample_neigh [] [])" by (intro sample_neigh_inv sample_arp_inv)
  have con: "con (sample_neigh [] []) = sample_con" by (simp add: sample_neigh_def)
  have e: "neigh_map [] = Map.empty" by (simp add: neigh_map_def fun_eq_iff)
  show ?thesis
    using arp_learnt_reaches_peer [of "sample_neigh [] []" 10 sample_vlan _ "[10, 0, 0, 7]" "[2, 0, 0, 0, 0, 7]" "sample_neigh [] []"
        sample_peer_link "\<lparr> vlan_vid = 10, vlan_itf = Some [86, 108, 97, 110, 49, 48] \<rparr>" sample_vlan, unfolded con sample_con_facts
        sample_vlan_id sample_port, OF inv _ _ _ refl _ refl _ _ _ _ _ inv]
    by (auto simp: sample_neigh_def sample_con_facts sample_vlan_find on_vlan_def bcast_mac_def e sample_lists)
qed

lemma arp_removed_on_both_witness:
  "\<exists>A1 A2 msg B'. do_arp_learn_from_kernel 10 (Some [10, 0, 0, 7]) None True True (sample_neigh [sample_arp] []) = Some A1 \<and>
     mlacp_sync_send_syncArpInfo A1 = Some A2 \<and> sent (con A2) = [msg] \<and>
     mlacp_fsm_update_arp_info msg (sample_neigh [sample_arp] []) = Some B' \<and> neigh_map (arp_list B') [10, 0, 0, 7] = None"
proof -
  have inv: "neigh_inv (sample_neigh [sample_arp] [])" by (intro sample_neigh_inv sample_arp_inv)
  have con: "con (sample_neigh [sample_arp] []) = sample_con" by (simp add: sample_neigh_def)
  have e: "neigh_map [sample_arp] [10, 0, 0, 7] \<noteq> None" by (simp add: neigh_map_def sample_arp_def)
  show ?thesis
    using arp_removed_on_both [of "sample_neigh [sample_arp] []" 10 sample_vlan _ "[10, 0, 0, 7]" "sample_neigh [sample_arp] []"
        sample_peer_link "\<lparr> vlan_vid = 10, vlan_itf = Some [86, 108, 97, 110, 49, 48] \<rparr>" sample_vlan None, unfolded con sample_con_facts
        sample_vlan_id sample_port, OF inv _ _ _ refl refl _ _ _ inv] e
    by (auto simp: sample_neigh_def sample_con_facts sample_vlan_find on_vlan_def sample_lists)
qed

lemma nd_change_not_learnt_witness:
  "do_ndisc_learn_from_kernel 10 (Some (nm_ip sample_nd)) (Some [2, 0, 0, 0, 0, 9]) False False (sample_neigh [] [sample_nd]) =
     Some (sample_neigh [] [sample_nd]) \<and> nm_mac sample_nd \<noteq> [2, 0, 0, 0, 0, 9]"
  using nd_change_not_learnt [of "sample_neigh [] [sample_nd]" "nm_ip sample_nd" "[2, 0, 0, 0, 0, 9]" 10]
  by (simp add: sample_neigh_def sample_nd_def sample_arp_def neigh_map_def)

lemma link_down_adds_nd_witness:
  "nl_out (set_l3_itf_state (sample_lif PORT_STATE_UP) ROUTE_ADD
     (sample_neigh [sample_arp\<lparr> nm_ifname := [80, 67, 49] \<rparr>] [sample_nd\<lparr> nm_ifname := [80, 67, 49] \<rparr>])) =
   [\<lparr> rq_family = AF_INET, rq_addr = [10, 0, 0, 7], rq_add = False, rq_mac = [2, 0, 0, 0, 0, 7], rq_port = [80, 67, 49],
      rq_permanent = False \<rparr>,
    \<lparr> rq_family = AF_INET6, rq_addr = nm_ip sample_nd, rq_add = True, rq_mac = [2, 0, 0, 0, 0, 7], rq_port = [80, 67, 49],
      rq_permanent = False \<rparr>]"
proof -
  let ?c = "sample_neigh [sample_arp\<lparr> nm_ifname := [80, 67, 49] \<rparr>] [sample_nd\<lparr> nm_ifname := [80, 67, 49] \<rparr>]"
  have "local_if_find_by_name (con ?c) (ml_name (sample_lif PORT_STATE_UP)) \<noteq> None"
    by (simp add: sample_neigh_defs local_if_find_by_name_def)
  moreover have "take 4 (ml_name (sample_lif PORT_STATE_UP)) \<noteq> VLAN_PREFIX" by (simp add: sample_lif_def VLAN_PREFIX_def)
  ultimately show ?thesis using link_down_adds_nd [of ?c "sample_lif PORT_STATE_UP"]
    by (simp add: neighs_of_lif_def sample_neigh_def sample_arp_def sample_nd_def sample_lif_def)
qed

lemma advertisement_read_witness:
  "iccp_receive_ndisc_packet_handler ([136, 0, 0, 0, 0, 0, 0, 0] @ nm_ip sample_nd @ [2, 1, 2, 0, 0, 0, 0, 7] @ [1, 2, 3]) 32 10
     (sample_neigh [] []) =
   Some (do_ndisc_update_from_reply_packet 10 (nm_ip sample_nd) [2, 0, 0, 0, 0, 7] (sample_neigh [] []))"
proof -
  have "nd_opt_ok (2, [2, 0, 0, 0, 0, 7])" by (auto simp: nd_opt_ok_def intro: exI [of _ 1])
  then show ?thesis
    using advertisement_read [OF _ _ _ refl refl, of "[(2, [2, 0, 0, 0, 0, 7])]" "[0, 0, 0, 0, 0, 0, 0]" "nm_ip sample_nd" "[1, 2, 3]" 10
        "sample_neigh [] []"]
    by (simp add: sample_nd_def nd_opt_bytes_def)
qed


end
