(* ===== verification/CStr.thy ===== *)
theory CStr
  imports Prelude
begin

text \<open>
  Text handling of the C library as the tools of the image use it.  A string is the list of its
  characters without the terminating null byte, and a text file the list of its characters.
\<close>

section \<open>Searching and splitting\<close>

text \<open>The string that starts at a position of a buffer ends at the first null byte.\<close>

definition c_str :: "string \<Rightarrow> string" where
  "c_str s = takeWhile (\<lambda>ch. ch \<noteq> CHR 0x00) s"

text \<open>\<open>strstr(s, t) != NULL\<close>\<close>

fun strstr :: "string \<Rightarrow> string \<Rightarrow> bool" where
  "strstr [] t = (t = [])"
| "strstr (ch # s) t = (take (length t) (ch # s) = t \<or> strstr s t)"

text \<open>\<open>strncmp(s, t, n) == 0\<close>\<close>

definition strncmp_eq :: "string \<Rightarrow> string \<Rightarrow> nat \<Rightarrow> bool" where
  "strncmp_eq s t n \<longleftrightarrow> take n s = take n t"

text \<open>
  One call of \<open>strtok_r\<close> with the set of delimiters as a predicate: the token and the string at
  which the next call goes on, or nothing when only delimiters are left.
\<close>

definition strtok :: "(char \<Rightarrow> bool) \<Rightarrow> string \<Rightarrow> (string \<times> string) option" where
  "strtok d s =
     (case dropWhile d s of
        [] \<Rightarrow> None
      | s' \<Rightarrow> Some (takeWhile (\<lambda>ch. \<not> d ch) s', tl (dropWhile (\<lambda>ch. \<not> d ch) s')))"

text \<open>\<open>snprintf\<close> into an array of \<open>n\<close> bytes keeps \<open>n - 1\<close> characters.\<close>

definition snprintf :: "nat \<Rightarrow> string \<Rightarrow> string" where
  "snprintf n s = take (n - 1) s"

text \<open>\<open>printf\<close> writes a null string as \<open>(null)\<close>.\<close>

definition str_of :: "string option \<Rightarrow> string" where
  "str_of s = (case s of None \<Rightarrow> ''(null)'' | Some t \<Rightarrow> t)"

definition dec_int :: "int \<Rightarrow> string" where
  "dec_int i = (if i < 0 then CHR ''-'' # dec_string (nat (- i)) else dec_string (nat i))"

text \<open>The lines of a file as \<open>getline\<close> returns them, newline included.\<close>

fun getlines :: "string \<Rightarrow> string list" where
  "getlines [] = []"
| "getlines (ch # s) =
     (if ch = CHR 0x0A then [ch] # getlines s
      else case getlines s of [] \<Rightarrow> [[ch]] | l # ls \<Rightarrow> (ch # l) # ls)"

section \<open>Facts\<close>

lemma strstr_iff: "strstr s t \<longleftrightarrow> (\<exists>a b. s = a @ t @ b)"
proof (induction s)
  case Nil
  thus ?case by simp
next
  case (Cons ch s)
  have "(\<exists>a b. ch # s = a @ t @ b) \<longleftrightarrow> (\<exists>b. ch # s = t @ b) \<or> (\<exists>a b. s = a @ t @ b)"
    by (auto simp: Cons_eq_append_conv)
  moreover have "take (length t) (ch # s) = t \<longleftrightarrow> (\<exists>b. ch # s = t @ b)"
    by (metis append_eq_conv_conj append_take_drop_id)
  ultimately show ?case by (simp add: Cons.IH)
qed

lemma strstr_single: "strstr s [ch] \<longleftrightarrow> ch \<in> set s"
  by (simp add: strstr_iff in_set_conv_decomp)

lemma concat_getlines: "concat (getlines s) = s"
  by (induction s) (auto split: list.splits)

lemma getlines_line: "\<forall>ch \<in> set l. ch \<noteq> CHR 0x0A \<Longrightarrow> getlines (l @ CHR 0x0A # s) = (l @ [CHR 0x0A]) # getlines s"
  by (induction l) auto

lemma strtok_None: "strtok d s = None \<longleftrightarrow> (\<forall>ch \<in> set s. d ch)"
proof -
  have "strtok d s = None \<longleftrightarrow> dropWhile d s = []"
    unfolding strtok_def by (cases "dropWhile d s") (simp_all del: dropWhile_eq_Nil_conv)
  thus ?thesis by (simp add: dropWhile_eq_Nil_conv)
qed

lemma strtok_shorter: "strtok d s = Some (t, r) \<Longrightarrow> length r < length s"
proof -
  assume a: "strtok d s = Some (t, r)"
  then obtain ch s' where s': "dropWhile d s = ch # s'" by (auto simp: strtok_def split: list.splits)
  hence "r = tl (dropWhile (\<lambda>ch. \<not> d ch) (ch # s'))" using a by (simp add: strtok_def)
  moreover have "length (dropWhile (\<lambda>ch. \<not> d ch) (ch # s')) \<le> length (ch # s')" by (rule length_dropWhile_le)
  ultimately have "length r < length (ch # s')" by (cases "dropWhile (\<lambda>ch. \<not> d ch) (ch # s')") auto
  thus ?thesis using length_dropWhile_le [of d s] s' by simp
qed

lemma strtok_token:
  assumes "t \<noteq> []" "\<forall>ch \<in> set t. \<not> d ch" "d ch"
  shows "strtok d (t @ ch # r) = Some (t, r)" "strtok d t = Some (t, [])"
proof -
  obtain a t' where t: "t = a # t'" using assms(1) by (cases t) auto
  have "takeWhile (\<lambda>ch. \<not> d ch) (t @ ch # r) = t" "dropWhile (\<lambda>ch. \<not> d ch) (t @ ch # r) = ch # r"
    using assms(2,3) by (simp_all add: takeWhile_append2 dropWhile_append2)
  thus "strtok d (t @ ch # r) = Some (t, r)" using assms(2) by (simp add: strtok_def t)
  have "takeWhile (\<lambda>ch. \<not> d ch) t = t" "dropWhile (\<lambda>ch. \<not> d ch) t = []"
    using assms(2) by (simp_all add: takeWhile_eq_all_conv dropWhile_eq_Nil_conv)
  moreover have "dropWhile d t = t" using assms(2) by (simp add: t)
  ultimately show "strtok d t = Some (t, [])" by (simp add: strtok_def t)
qed

lemma snprintf_short: "length s < n \<Longrightarrow> snprintf n s = s"
  by (simp add: snprintf_def)

definition is_digit :: "char \<Rightarrow> bool" where
  "is_digit ch \<longleftrightarrow> 48 \<le> (of_char ch :: nat) \<and> (of_char ch :: nat) \<le> 57"

lemma dec_string_digits: "dec_string n \<noteq> [] \<and> (\<forall>ch \<in> set (dec_string n). is_digit ch)"
proof (induction n rule: dec_string.induct)
  case (1 n)
  show ?case
  proof (cases "n < 10")
    case True
    thus ?thesis by (subst dec_string.simps) (auto simp: dec_string.simps [of n] is_digit_def)
  next
    case False
    have "n mod 10 < 10" by simp
    thus ?thesis using 1 [OF False] False
      by (auto simp: dec_string.simps [of n] is_digit_def)
  qed
qed

lemma dec_string_inj: "dec_string m = dec_string n \<Longrightarrow> m = n"
  by (metis dec_value_dec_string)

lemma atoi_digits_append:
  assumes "\<forall>ch \<in> set s. is_digit ch"
  shows "atoi_digits k (s @ r) = atoi_digits (atoi_digits k s) r"
  using assms
proof (induction s arbitrary: k)
  case (Cons ch s)
  have "(48 :: int) \<le> of_char ch" "of_char ch \<le> (57 :: int)"
    using Cons.prems of_nat_of_char [of ch, where ?'a = int] by (auto simp: is_digit_def)
  thus ?case using Cons by (simp add: Let_def)
qed simp

lemma digit_value: "m < 10 \<Longrightarrow> (of_char (char_of (48 + m :: nat)) :: int) = 48 + int m"
  using of_nat_of_char [of "char_of (48 + m)", where ?'a = int] by simp

lemma atoi_digits_dec_string: "atoi_digits 0 (dec_string n) = int n"
proof (induction n rule: dec_string.induct)
  case (1 n)
  show ?case
  proof (cases "n < 10")
    case True
    thus ?thesis by (simp add: dec_string.simps [of n] digit_value Let_def)
  next
    case False
    have "atoi_digits 0 (dec_string n) = atoi_digits (int (n div 10)) [char_of (48 + n mod 10)]"
      using 1 [OF False] False dec_string_digits [of "n div 10"]
      by (simp add: dec_string.simps [of n] atoi_digits_append)
    also have "... = 10 * int (n div 10) + int (n mod 10)"
      using digit_value [of "n mod 10"] by (simp add: Let_def)
    also have "... = int n" by (simp add: zdiv_int zmod_int)
    finally show ?thesis .
  qed
qed

lemma atoi_dec_string:
  assumes "r = [] \<or> \<not> is_digit (hd r)"
  shows "atoi (dec_string n @ r) = int n"
proof -
  obtain ch t where d: "dec_string n = ch # t" using dec_string_digits [of n] by (cases "dec_string n") auto
  have dg: "is_digit ch" using dec_string_digits [of n] by (simp add: d)
  hence "\<not> c_isspace ch" "ch \<noteq> CHR ''-''" "ch \<noteq> CHR ''+''"
    by (auto simp: is_digit_def c_isspace_def)
  moreover have "atoi_digits 0 (dec_string n @ r) = int n"
  proof -
    have "atoi_digits k r = k" for k
    proof (cases r)
      case (Cons c r')
      hence "\<not> is_digit c" using assms by simp
      hence "\<not> ((48 :: int) \<le> of_char c \<and> of_char c \<le> (57 :: int))"
        using of_nat_of_char [of c, where ?'a = int] by (auto simp: is_digit_def)
      thus ?thesis by (auto simp: Cons Let_def)
    qed simp
    thus ?thesis using dec_string_digits [of n] by (simp add: atoi_digits_append atoi_digits_dec_string)
  qed
  ultimately show ?thesis by (simp add: atoi_def d)
qed

end
