(* ===== verification/NssRadius.thy ===== *)
theory NssRadius
  imports CStr
begin

text \<open>
  The name service module for users authenticated by RADIUS, \<open>src/radius/nss/libnss-radius\<close>:
  \<open>nss_radius_common.c\<close>, the entry point \<open>nss_radius.c\<close> and the tool \<open>cache_radius.c\<close> that the
  login stack runs after a successful authentication.

  The state \<open>nss_world\<close> is the password file, the files of the attribute cache by path, and the
  commands handed to \<open>popen\<close>.  What the commands do to the password file, the regular expression
  library and the outcomes of file operations are members of \<open>nss_env\<close>.  A result \<open>None\<close> is an
  access through a null pointer.
\<close>

section \<open>Data\<close>

abbreviation (input) RADIUS_MAX_MPL :: int where "RADIUS_MAX_MPL \<equiv> 15"
abbreviation (input) RADIUS_MIN_MPL :: int where "RADIUS_MIN_MPL \<equiv> 1"
abbreviation (input) RADIUS_MAX_NSS_CONF_SZ :: nat where "RADIUS_MAX_NSS_CONF_SZ \<equiv> 2048"
abbreviation (input) CMD_SZ :: nat where "CMD_SZ \<equiv> 4096"

abbreviation (input) STATUS_EPERM :: int where "STATUS_EPERM \<equiv> 1"
abbreviation (input) STATUS_ENOENT :: int where "STATUS_ENOENT \<equiv> 2"
abbreviation (input) STATUS_ESRCH :: int where "STATUS_ESRCH \<equiv> 3"
abbreviation (input) STATUS_EIO :: int where "STATUS_EIO \<equiv> 5"
abbreviation (input) STATUS_E2BIG :: int where "STATUS_E2BIG \<equiv> 7"
abbreviation (input) STATUS_EINVAL :: int where "STATUS_EINVAL \<equiv> 22"
abbreviation (input) STATUS_EFBIG :: int where "STATUS_EFBIG \<equiv> 27"
abbreviation (input) ERANGE :: int where "ERANGE \<equiv> 34"

record RADIUS_NSS_MPL =
  mpl_gid :: "32 word"
  mpl_groups :: "string option"
  mpl_gecos :: "string option"
  mpl_shell :: "string option"

record RADIUS_NSS_CONF_B =
  conf_debug :: bool
  conf_trace :: bool
  many_to_one :: bool
  allow_anonymous :: bool
  unconfirmed_regexp :: "string option"
  unconfirmed_ageout :: int
  unconfirmed_clear_limit :: int
  rnm :: "RADIUS_NSS_MPL list"

record passwd =
  pw_name :: string
  pw_uid :: "32 word"
  pw_gid :: "32 word"
  pw_gecos :: string
  pw_dir :: string
  pw_shell :: string

text \<open>An entry of the password file, or one that does not fit the buffer of the reader.\<close>

datatype pw_item = Entry passwd | TooLong

record nss_world =
  passwd_file :: "pw_item list option"
  attr_files :: "string \<Rightarrow> string option"
  commands :: "string list"

record nss_env =
  conf_file :: "string option"
  conf_stat_ok :: bool
  conf_read :: int
  lock_ok :: bool
  attr_stat_ok :: "string \<Rightarrow> bool"
  attr_read :: "string \<Rightarrow> int"
  dirs_ok :: "string \<Rightarrow> bool"
  attr_fopen_ok :: "string \<Rightarrow> bool"
  attr_fprintf_ok :: "string \<Rightarrow> bool"
  time_now :: int
  proc_cmdline :: "string option"
  cmdline_junk :: string
  regcomp :: "string \<Rightarrow> (string \<Rightarrow> bool) option"
  popen :: "string \<Rightarrow> pw_item list option \<Rightarrow> int \<times> pw_item list option"

section \<open>The configuration file\<close>

definition eol :: "char \<Rightarrow> bool" where
  "eol ch \<longleftrightarrow> ch = CHR 0x0A \<or> ch = CHR 0x0D \<or> ch = CHR 0x0C"

text \<open>
  \<open>parse_line\<close> in two steps: the position of the next line that is no comment and does not start
  with white space, and its end.
\<close>

fun line_start :: "bool \<Rightarrow> string \<Rightarrow> string option" where
  "line_start skip [] = None"
| "line_start skip (ch # s) =
     (if skip then line_start (\<not> eol ch) s
      else if c_isspace ch then line_start False s
      else if ch = CHR ''#'' then line_start True s
      else Some (ch # s))"

definition parse_line :: "string \<Rightarrow> (string \<times> string) option" where
  "parse_line s =
     (case line_start False s of
        Some (ch # r) \<Rightarrow>
          Some (c_str (ch # takeWhile (\<lambda>x. \<not> eol x) r), tl (dropWhile (\<lambda>x. \<not> eol x) r))
      | _ \<Rightarrow> None)"

lemma line_start_length: "line_start skip s = Some r \<Longrightarrow> length r \<le> length s"
  by (induction skip s rule: line_start.induct) (auto split: if_splits)

lemma parse_line_shorter: "parse_line s = Some (l, r) \<Longrightarrow> length r < length s"
proof -
  assume a: "parse_line s = Some (l, r)"
  then obtain ch t where t: "line_start False s = Some (ch # t)"
    by (auto simp: parse_line_def split: option.splits list.splits)
  hence "r = tl (dropWhile (\<lambda>x. \<not> eol x) t)" using a by (simp add: parse_line_def)
  moreover have "length (dropWhile (\<lambda>x. \<not> eol x) t) \<le> length t" by (rule length_dropWhile_le)
  ultimately have "length r \<le> length t" by simp
  thus ?thesis using line_start_length [OF t] by simp
qed

function conf_lines :: "string \<Rightarrow> string list" where
  "conf_lines s = (case parse_line s of None \<Rightarrow> [] | Some (l, r) \<Rightarrow> l # conf_lines r)"
  by pat_completeness auto
termination
  by (relation "measure length") (auto dest: parse_line_shorter)

declare conf_lines.simps [simp del]

text \<open>The tokens of a line between semicolons; nothing follows a final semicolon.\<close>

lemma tl_dropWhile_shorter: "s \<noteq> [] \<Longrightarrow> length (tl (dropWhile d s)) < length s"
  using length_dropWhile_le [of d s] by (cases s) (simp_all del: length_dropWhile_le, linarith?)

function parse_tokens :: "string \<Rightarrow> string list" where
  "parse_tokens s =
     (if s = [] then []
      else takeWhile (\<lambda>ch. ch \<noteq> CHR '';'') s # parse_tokens (tl (dropWhile (\<lambda>ch. ch \<noteq> CHR '';'') s)))"
  by pat_completeness auto
termination
  by (relation "measure length") (auto intro: tl_dropWhile_shorter simp del: length_tl)

declare parse_tokens.simps [simp del]

definition mpl_zero :: RADIUS_NSS_MPL where
  "mpl_zero = \<lparr> mpl_gid = 0, mpl_groups = None, mpl_gecos = None, mpl_shell = None \<rparr>"

definition parse_user_token :: "string \<Rightarrow> int \<times> RADIUS_NSS_MPL \<Rightarrow> int \<times> RADIUS_NSS_MPL" where
  "parse_user_token token = (\<lambda>(mpl, r).
     (if strncmp_eq token ''user_priv='' 10 then (atoi (drop 10 token), r)
      else if strncmp_eq token ''group='' 6 then (mpl, r\<lparr> mpl_groups := Some (drop 6 token) \<rparr>)
      else if strncmp_eq token ''pw_info='' 8 then (mpl, r\<lparr> mpl_gecos := Some (drop 8 token) \<rparr>)
      else if strncmp_eq token ''uid='' 4 then (mpl, r)
      else if strncmp_eq token ''gid='' 4 then (mpl, r\<lparr> mpl_gid := of_int (atoi (drop 4 token)) \<rparr>)
      else if strncmp_eq token ''dir='' 4 then (mpl, r)
      else if strncmp_eq token ''shell='' 6 then (mpl, r\<lparr> mpl_shell := Some (drop 6 token) \<rparr>)
      else (mpl, r)))"

definition parse_user :: "RADIUS_NSS_CONF_B \<Rightarrow> string \<Rightarrow> int \<times> RADIUS_NSS_CONF_B" where
  "parse_user conf line =
     (let (mpl, r) = fold parse_user_token (parse_tokens line) (0, mpl_zero)
      in if RADIUS_MIN_MPL > mpl \<or> mpl > RADIUS_MAX_MPL \<or> mpl_gid r = 0 \<or> mpl_groups r = None \<or>
            mpl_gecos r = None \<or> mpl_shell r = None
         then (1, conf)
         else (0, conf\<lparr> rnm := (rnm conf)[nat (mpl - 1) := r] \<rparr>))"

definition init_rnm :: "RADIUS_NSS_CONF_B \<Rightarrow> RADIUS_NSS_CONF_B" where
  "init_rnm conf = conf\<lparr> rnm := (replicate 15 mpl_zero)
     [0 := \<lparr> mpl_gid = 999, mpl_groups = Some ''docker'', mpl_gecos = Some ''remote_user'',
             mpl_shell = Some ''/usr/bin/sonic-launch-shell'' \<rparr>,
      14 := \<lparr> mpl_gid = 1000, mpl_groups = Some ''admin,sudo,docker'', mpl_gecos = Some ''remote_user_su'',
              mpl_shell = Some ''/usr/bin/sonic-launch-shell'' \<rparr>] \<rparr>"

text \<open>
  The body of the loop over the lines; the accumulator holds the configuration and the flags
  \<open>use_default_rnm\<close>, \<open>bad_rnm\<close> and \<open>unconfirmed_disallow\<close>.
\<close>

definition yes :: "string \<Rightarrow> bool" where
  "yes v \<longleftrightarrow> strncmp_eq v ''y'' 2 \<or> strncmp_eq v ''ye'' 3 \<or> strncmp_eq v ''yes'' 4"

definition no :: "string \<Rightarrow> bool" where
  "no v \<longleftrightarrow> strncmp_eq v ''n'' 2 \<or> strncmp_eq v ''no'' 3"

definition parse_conf_line ::
    "string \<Rightarrow> RADIUS_NSS_CONF_B \<times> bool \<times> bool \<times> bool \<Rightarrow> RADIUS_NSS_CONF_B \<times> bool \<times> bool \<times> bool" where
  "parse_conf_line line = (\<lambda>(conf, use_default_rnm, bad_rnm, disallow).
     (if strncmp_eq line ''debug='' 6 then
        ((if strncmp_eq (drop 6 line) ''on'' 2 then conf\<lparr> conf_debug := True \<rparr>
          else if strncmp_eq (drop 6 line) ''trace'' 5 then conf\<lparr> conf_debug := True, conf_trace := True \<rparr>
          else conf), use_default_rnm, bad_rnm, disallow)
      else if strncmp_eq line ''user_priv='' 10 then
        (let (rc, conf) = parse_user conf line
         in (conf, False, (if rc \<noteq> 0 then True else bad_rnm), disallow))
      else if strncmp_eq line ''many_to_one='' 12 then
        ((if yes (drop 12 line) then conf\<lparr> many_to_one := True \<rparr>
          else if strncmp_eq (drop 12 line) ''a'' 1 then conf\<lparr> many_to_one := False \<rparr>
          else if no (drop 12 line) then conf\<lparr> many_to_one := False \<rparr>
          else conf), use_default_rnm, bad_rnm, disallow)
      else if strncmp_eq line ''unconfirmed_regexp='' 19 then
        (conf\<lparr> unconfirmed_regexp := Some (drop 19 line) \<rparr>, use_default_rnm, bad_rnm, disallow)
      else if strncmp_eq line ''unconfirmed_ageout='' 19 then
        (conf\<lparr> unconfirmed_ageout := atoi (drop 19 line) \<rparr>, use_default_rnm, bad_rnm, disallow)
      else if strncmp_eq line ''unconfirmed_disallow='' 21 then
        (conf, use_default_rnm, bad_rnm,
         (if yes (drop 21 line) then True else if no (drop 21 line) then False else disallow))
      else (conf, use_default_rnm, bad_rnm, disallow)))"

definition conf_zero :: RADIUS_NSS_CONF_B where
  "conf_zero = \<lparr> conf_debug = False, conf_trace = False, many_to_one = False, allow_anonymous = True,
     unconfirmed_regexp = None, unconfirmed_ageout = 600, unconfirmed_clear_limit = 10,
     rnm = replicate 15 mpl_zero \<rparr>"

text \<open>The last loop of \<open>parse_nss_config\<close>: a level without a description takes that of the one below.\<close>

fun fill_down :: "RADIUS_NSS_MPL \<Rightarrow> RADIUS_NSS_MPL list \<Rightarrow> RADIUS_NSS_MPL list" where
  "fill_down prev [] = []"
| "fill_down prev (r # rs) =
     (let r' = (if mpl_gecos r = None then prev else r) in r' # fill_down r' rs)"

definition fix_up_rnm :: "RADIUS_NSS_CONF_B \<Rightarrow> RADIUS_NSS_CONF_B" where
  "fix_up_rnm conf =
     conf\<lparr> rnm := (case rnm conf of [] \<Rightarrow> [] | r # rs \<Rightarrow> r # fill_down r rs) \<rparr>"

definition parse_nss_config :: "nss_env \<Rightarrow> int \<times> RADIUS_NSS_CONF_B" where
  "parse_nss_config e =
     (let (ret, conf, use_default_rnm, bad_rnm) =
            (case conf_file e of
               None \<Rightarrow> (1, conf_zero, True, False)
             | Some file_buf \<Rightarrow>
                 let (ret, conf, d, b) =
                       (if \<not> conf_stat_ok e then (1, conf_zero, True, False)
                        else if length file_buf \<ge> RADIUS_MAX_NSS_CONF_SZ then (0, conf_zero, True, False)
                        else if conf_read e \<noteq> int (length file_buf) then (0, conf_zero, True, False)
                        else
                          let (conf, d, b, disallow) =
                                fold parse_conf_line (conf_lines file_buf) (conf_zero, True, False, False)
                          in (0, (if disallow then conf\<lparr> allow_anonymous := False \<rparr> else conf), d, b))
                 in (ret, (if lock_ok e then conf else conf\<lparr> allow_anonymous := False \<rparr>), d, b));
          conf = (if use_default_rnm \<or> bad_rnm then init_rnm conf else conf)
      in (ret, fix_up_rnm conf))"

section \<open>The password file\<close>

text \<open>\<open>fgetpwent_r\<close> until the name is found, the file ends, or an entry does not fit.\<close>

fun scan_passwd :: "string option \<Rightarrow> pw_item list \<Rightarrow> (int \<times> passwd option) option" where
  "scan_passwd name [] = Some (STATUS_ENOENT, None)"
| "scan_passwd name (TooLong # ps) = Some (ERANGE, None)"
| "scan_passwd name (Entry p # ps) =
     (case name of
        None \<Rightarrow> None
      | Some n \<Rightarrow> if pw_name p = n then Some (0, Some p) else scan_passwd name ps)"

definition radius_getpwnam_r :: "string option \<Rightarrow> nss_world \<Rightarrow> (int \<times> passwd option) option" where
  "radius_getpwnam_r name w =
     (case passwd_file w of None \<Rightarrow> Some (STATUS_ENOENT, None) | Some ps \<Rightarrow> scan_passwd name ps)"

definition invoke_popen :: "nss_env \<Rightarrow> string \<Rightarrow> nss_world \<Rightarrow> int \<times> nss_world" where
  "invoke_popen e cmd w =
     (let (status, db) = popen e cmd (passwd_file w)
      in (status, w\<lparr> passwd_file := db, commands := commands w @ [cmd] \<rparr>))"

definition quoted :: "string \<Rightarrow> string" where
  "quoted s = CHR 0x22 # s @ [CHR 0x22]"

definition level :: "RADIUS_NSS_CONF_B \<Rightarrow> int \<Rightarrow> RADIUS_NSS_MPL" where
  "level conf mpl = rnm conf ! nat (mpl - 1)"

definition useradd_cmd :: "nss_env \<Rightarrow> RADIUS_NSS_CONF_B \<Rightarrow> string option \<Rightarrow> int \<Rightarrow> bool \<Rightarrow> string" where
  "useradd_cmd e conf user mpl unconfirmed =
     (let r = level conf mpl; u = str_of user
      in if many_to_one conf then
           ''/usr/sbin/useradd -g '' @ dec_int (sint (mpl_gid r)) @ '' -G '' @ str_of (mpl_groups r) @
           '' -c '' @ quoted (str_of (mpl_gecos r)) @ '' -m -s '' @ str_of (mpl_shell r) @ '' '' @ quoted u
         else
           ''/usr/sbin/useradd -U -G '' @ str_of (mpl_groups r) @
           '' -c '' @ quoted (if unconfirmed then ''Unconfirmed-'' @ dec_int (time_now e) else u) @
           '' -d '' @ quoted (''/home/'' @ u) @ '' -m -s '' @ str_of (mpl_shell r) @ '' '' @ quoted u)"

definition radius_create_user ::
    "nss_env \<Rightarrow> RADIUS_NSS_CONF_B \<Rightarrow> string option \<Rightarrow> int \<Rightarrow> bool \<Rightarrow> nss_world \<Rightarrow> int \<times> nss_world" where
  "radius_create_user e conf user mpl unconfirmed w =
     (let useradd = useradd_cmd e conf user mpl unconfirmed
      in if length useradd \<ge> CMD_SZ then (STATUS_E2BIG, w) else invoke_popen e useradd w)"

definition radius_update_user ::
    "nss_env \<Rightarrow> RADIUS_NSS_CONF_B \<Rightarrow> string \<Rightarrow> int \<Rightarrow> nss_world \<Rightarrow> (int \<times> nss_world) option" where
  "radius_update_user e conf user mpl w = do {
     (status, result) \<leftarrow> radius_getpwnam_r (Some user) w;
     if status \<noteq> 0 then Some (radius_create_user e conf (Some user) mpl False w)
     else do {
       p \<leftarrow> result;
       if pw_uid p \<le> 1000 then Some (STATUS_EPERM, w)
       else
         let usermod = ''/usr/sbin/usermod -G '' @ str_of (mpl_groups (level conf mpl)) @ '' -c '' @
                       quoted user @ '' '' @ quoted user
         in if length usermod \<ge> CMD_SZ then Some (STATUS_E2BIG, w)
            else Some (invoke_popen e usermod w) } }"

definition userdel_cmd :: "string \<Rightarrow> string" where
  "userdel_cmd user = ''/usr/sbin/userdel -r '' @ quoted user"

definition radius_delete_user :: "nss_env \<Rightarrow> string \<Rightarrow> nss_world \<Rightarrow> int \<times> nss_world" where
  "radius_delete_user e user w =
     (if length (userdel_cmd user) \<ge> CMD_SZ then (STATUS_E2BIG, w)
      else invoke_popen e (userdel_cmd user) w)"

definition aged :: "nss_env \<Rightarrow> RADIUS_NSS_CONF_B \<Rightarrow> passwd \<Rightarrow> bool" where
  "aged e conf p \<longleftrightarrow>
     strncmp_eq (pw_gecos p) ''Unconfirmed-'' 12 \<and> atoi (drop 12 (pw_gecos p)) \<noteq> 0 \<and>
     time_now e - atoi (drop 12 (pw_gecos p)) \<ge> unconfirmed_ageout conf"

fun first_aged :: "nss_env \<Rightarrow> RADIUS_NSS_CONF_B \<Rightarrow> pw_item list \<Rightarrow> string option" where
  "first_aged e conf [] = None"
| "first_aged e conf (TooLong # ps) = None"
| "first_aged e conf (Entry p # ps) = (if aged e conf p then Some (pw_name p) else first_aged e conf ps)"

definition radius_clear_unconfirmed_users :: "nss_env \<Rightarrow> RADIUS_NSS_CONF_B \<Rightarrow> nss_world \<Rightarrow> int \<times> nss_world" where
  "radius_clear_unconfirmed_users e conf w =
     (case passwd_file w of
        None \<Rightarrow> (STATUS_ENOENT, w)
      | Some ps \<Rightarrow>
          (case first_aged e conf ps of
             None \<Rightarrow> (STATUS_ESRCH, w)
           | Some name \<Rightarrow> radius_delete_user e name w))"

section \<open>The attribute cache\<close>

definition cache_dir :: "string \<Rightarrow> string" where
  "cache_dir nam = ''/var/cache/radius/user/'' @ nam"

definition cache_filename :: "string \<Rightarrow> string" where
  "cache_filename nam = cache_dir nam @ ''/Management-Privilege-Level''"

definition radius_lookup_cache :: "nss_env \<Rightarrow> string \<Rightarrow> nss_world \<Rightarrow> int \<times> int" where
  "radius_lookup_cache e nam w =
     (let f = cache_filename nam
      in if length f \<ge> 4096 then (STATUS_E2BIG, RADIUS_MIN_MPL)
         else case attr_files w f of
           None \<Rightarrow> (STATUS_ENOENT, RADIUS_MIN_MPL)
         | Some file_buf \<Rightarrow>
             if \<not> attr_stat_ok e f then (STATUS_ENOENT, RADIUS_MIN_MPL)
             else if length file_buf \<ge> 10 then (STATUS_EFBIG, RADIUS_MIN_MPL)
             else if attr_read e f \<noteq> int (length file_buf) then (STATUS_EIO, RADIUS_MIN_MPL)
             else
               let mpl = atoi (c_str file_buf)
               in (0, if RADIUS_MIN_MPL \<le> mpl \<and> mpl \<le> RADIUS_MAX_MPL then mpl else RADIUS_MIN_MPL))"

definition radius_update_cache :: "nss_env \<Rightarrow> string \<Rightarrow> int \<Rightarrow> nss_world \<Rightarrow> int \<times> nss_world" where
  "radius_update_cache e nam mpl w =
     (let f = cache_filename nam
      in if length (cache_dir nam) + 27 + 1 \<ge> 4096 then (STATUS_EINVAL, w)
         else if \<not> dirs_ok e (cache_dir nam) then (STATUS_ENOENT, w)
         else if \<not> attr_fopen_ok e f then (STATUS_EPERM, w)
         else if \<not> attr_fprintf_ok e f then (STATUS_EPERM, w\<lparr> attr_files := (attr_files w)(f \<mapsto> []) \<rparr>)
         else (0, w\<lparr> attr_files := (attr_files w)(f \<mapsto> dec_int mpl @ [CHR 0x0A]) \<rparr>))"

section \<open>Answering a look-up\<close>

text \<open>
  The members of \<open>struct passwd\<close> point into the buffer of the caller; a pointer is an offset.
\<close>

record pwd_ptrs =
  p_name :: nat
  p_passwd :: nat
  p_uid :: "32 word"
  p_gid :: "32 word"
  p_gecos :: nat
  p_dir :: nat
  p_shell :: nat

definition put_string :: "nat \<Rightarrow> string \<Rightarrow> string \<Rightarrow> string option" where
  "put_string pos s buf =
     (if pos + length s + 1 \<le> length buf
      then Some (take pos buf @ s @ [CHR 0x00] @ drop (pos + length s + 1) buf) else None)"

definition radius_copy_pw :: "passwd \<Rightarrow> string \<Rightarrow> (int \<times> pwd_ptrs option \<times> string) option" where
  "radius_copy_pw res buffer =
     (let n = length (pw_name res); g = length (pw_gecos res); d = length (pw_dir res);
          s = length (pw_shell res)
      in if n + 1 + g + 1 + d + 1 + s + 1 + 1 + 1 > length buffer then Some (1, None, buffer)
         else do {
           b \<leftarrow> put_string 0 (pw_name res) buffer;
           b \<leftarrow> put_string (n + 1) ''*'' b;
           b \<leftarrow> put_string (n + 3) (pw_gecos res) b;
           b \<leftarrow> put_string (n + g + 4) (pw_dir res) b;
           b \<leftarrow> put_string (n + g + d + 5) (pw_shell res) b;
           Some (0, Some \<lparr> p_name = 0, p_passwd = n + 1, p_uid = pw_uid res, p_gid = pw_gid res,
                           p_gecos = n + 3, p_dir = n + g + 4, p_shell = n + g + d + 5 \<rparr>, b) })"

definition is_sshd_lookup :: "nss_env \<Rightarrow> RADIUS_NSS_CONF_B \<Rightarrow> string \<Rightarrow> bool" where
  "is_sshd_lookup e conf name =
     (case proc_cmdline e of
        None \<Rightarrow> False
      | Some proc_file \<Rightarrow>
          let cmdline = take 127 proc_file
          in if cmdline = [] then False
          else
            let expected = snprintf 128 ('': '' @ name @ '' [priv]''); accepted = '': [accepted]'';
                re = (case unconfirmed_regexp conf of None \<Rightarrow> None | Some r \<Rightarrow> regcomp e r)
            in case re of
                 Some match \<Rightarrow> match (c_str (cmdline @ cmdline_junk e))
               | None \<Rightarrow>
                   let colon = dropWhile (\<lambda>ch. ch \<noteq> CHR '':'') (c_str cmdline)
                   in colon \<noteq> [] \<and> (strncmp_eq expected colon 127 \<or> strncmp_eq accepted colon 127))"

datatype nss_status = NSS_STATUS_SUCCESS | NSS_STATUS_NOTFOUND

definition radius_find_entry :: "nss_env \<Rightarrow> RADIUS_NSS_CONF_B \<Rightarrow> string \<Rightarrow> nss_world \<Rightarrow> (passwd option \<times> nss_world) option" where
  "radius_find_entry e conf nam w =
     (let (status, mpl) = radius_lookup_cache e nam w; gecos = mpl_gecos (level conf mpl);
          find = (\<lambda>name w. map_option (\<lambda>(_, res). (res, w)) (radius_getpwnam_r name w))
      in if status = 0 then
           if many_to_one conf then find gecos w
           else if allow_anonymous conf
           then find (Some nam) (snd (radius_create_user e conf (Some nam) mpl False w))
           else Some (None, w)
         else if allow_anonymous conf \<and> is_sshd_lookup e conf nam then
           if many_to_one conf then do {
             (rc, res) \<leftarrow> radius_getpwnam_r gecos w;
             if rc \<noteq> 0 then find gecos (snd (radius_create_user e conf gecos mpl False w))
             else Some (res, w) }
           else find (Some nam) (snd (radius_create_user e conf (Some nam) mpl True w))
         else Some (None, w))"

definition nss_radius_getpwnam_r ::
    "nss_env \<Rightarrow> string \<Rightarrow> string \<Rightarrow> nss_world \<Rightarrow> (nss_status \<times> pwd_ptrs option \<times> string \<times> nss_world) option" where
  "nss_radius_getpwnam_r e nam buf w =
     (if nam = ''*'' \<or> buf = [] then Some (NSS_STATUS_NOTFOUND, None, buf, w)
      else
        let conf = snd (parse_nss_config e)
        in do {
          (res, w) \<leftarrow> radius_find_entry e conf nam w;
          case res of
            None \<Rightarrow> Some (NSS_STATUS_NOTFOUND, None, buf, w)
          | Some p \<Rightarrow> do {
              (ret, pwd, buf) \<leftarrow> radius_copy_pw p buf;
              Some (NSS_STATUS_SUCCESS, pwd, buf, w) } })"

section \<open>The tool run after authentication\<close>

function clear_loop :: "nss_env \<Rightarrow> RADIUS_NSS_CONF_B \<Rightarrow> int \<Rightarrow> nss_world \<Rightarrow> nss_world" where
  "clear_loop e conf limit w =
     (let (rc, w) = radius_clear_unconfirmed_users e conf w
      in if rc \<noteq> 0 then w else if limit \<le> 0 then w else clear_loop e conf (limit - 1) w)"
  by pat_completeness auto
termination
  by (relation "measure (\<lambda>(e, conf, limit, w). nat limit)") auto

declare clear_loop.simps [simp del]

definition privilege_level :: "string option \<Rightarrow> int" where
  "privilege_level privilege =
     (case privilege of
        None \<Rightarrow> 1
      | Some p \<Rightarrow> let mpl = atoi p in if RADIUS_MIN_MPL \<le> mpl \<and> mpl \<le> RADIUS_MAX_MPL then mpl else 1)"

definition main_cache_radius ::
    "nss_env \<Rightarrow> string list \<Rightarrow> string option \<Rightarrow> string option \<Rightarrow> nss_world \<Rightarrow> (int \<times> nss_world) option" where
  "main_cache_radius e av pam_user privilege w =
     (case pam_user of
        None \<Rightarrow> Some (STATUS_ENOENT, w)
      | Some user \<Rightarrow>
        if user = [] then Some (STATUS_ENOENT, w)
        else
          let no_clear = (length av = 2 \<and> strncmp_eq (av ! 1) ''-n'' 3);
              mpl = privilege_level privilege;
              conf = snd (parse_nss_config e);
              (status, cached_mpl) = radius_lookup_cache e user w
          in do {
            (found, _) \<leftarrow> radius_getpwnam_r (Some user) w;
            let refresh_user = (status \<noteq> 0 \<or> cached_mpl \<noteq> mpl \<or> found \<noteq> 0);
            let w = (if refresh_user then snd (radius_update_cache e user mpl w) else w);
            if many_to_one conf then do {
              let gecos = mpl_gecos (level conf mpl);
              (rc, _) \<leftarrow> radius_getpwnam_r gecos w;
              let w = (if rc \<noteq> 0 then snd (radius_create_user e conf gecos mpl False w) else w);
              Some (if mpl \<noteq> cached_mpl then (STATUS_EPERM, w) else (0, w)) }
            else do {
              w \<leftarrow> (if refresh_user then map_option snd (radius_update_user e conf user mpl w) else Some w);
              Some (0, if no_clear then w else clear_loop e conf (unconfirmed_clear_limit conf) w) } })"

section \<open>Sample data\<close>

definition sample_user :: passwd where
  "sample_user = \<lparr> pw_name = ''root'', pw_uid = 0, pw_gid = 0, pw_gecos = ''r'', pw_dir = ''/root'', pw_shell = ''/bin/sh'' \<rparr>"

definition sample_unconfirmed :: "string \<Rightarrow> string \<Rightarrow> passwd" where
  "sample_unconfirmed n t = \<lparr> pw_name = n, pw_uid = 1001, pw_gid = 1001, pw_gecos = ''Unconfirmed-'' @ t,
     pw_dir = ''/home/'' @ n, pw_shell = ''/bin/sh'' \<rparr>"

text \<open>
  A machine whose files can all be read and written and whose \<open>userdel\<close> works; no configuration file,
  and the look-ups come from a server that has no process name.
\<close>

definition sample_userdel :: "string \<Rightarrow> pw_item list option \<Rightarrow> int \<times> pw_item list option" where
  "sample_userdel cmd db = (0, map_option (filter (\<lambda>i. case i of Entry p \<Rightarrow> userdel_cmd (pw_name p) \<noteq> cmd | TooLong \<Rightarrow> True)) db)"

definition sample_nss_env :: nss_env where
  "sample_nss_env = \<lparr> conf_file = None, conf_stat_ok = True, conf_read = 0, lock_ok = True,
     attr_stat_ok = (\<lambda>_. True), attr_read = (\<lambda>_. 2), dirs_ok = (\<lambda>_. True), attr_fopen_ok = (\<lambda>_. True),
     attr_fprintf_ok = (\<lambda>_. True), time_now = 5000, proc_cmdline = None, cmdline_junk = [],
     regcomp = (\<lambda>_. None), popen = sample_userdel \<rparr>"

definition sample_nss_world :: nss_world where
  "sample_nss_world = \<lparr> passwd_file = Some (map Entry [sample_user, sample_unconfirmed ''eve'' ''1000'',
     sample_unconfirmed ''bob'' ''4900'', sample_unconfirmed ''mal'' ''1200'']), attr_files = (\<lambda>_. None), commands = [] \<rparr>"

lemmas sample_nss_defs = sample_nss_env_def sample_nss_world_def sample_user_def sample_unconfirmed_def

lemma sample_conf: "snd (parse_nss_config sample_nss_env) = fix_up_rnm (init_rnm conf_zero)"
  by (simp add: parse_nss_config_def sample_nss_env_def)

section \<open>Privilege levels\<close>

lemma fill_down_length [simp]: "length (fill_down prev rs) = length rs"
  by (induction rs arbitrary: prev) (simp_all add: Let_def)

lemma parse_user_length [simp]: "length (rnm (snd (parse_user conf line))) = length (rnm conf)"
  by (simp add: parse_user_def Let_def case_prod_beta)

lemma parse_conf_line_length: "length (rnm (fst (parse_conf_line line acc))) = length (rnm (fst acc))"
  by (cases acc) (simp add: parse_conf_line_def Let_def case_prod_beta)

lemma parse_lines_length:
  "length (rnm (fst (fold parse_conf_line ls acc))) = length (rnm (fst acc))"
  by (induction ls arbitrary: acc) (simp_all add: parse_conf_line_length)

lemma fix_up_length [simp]: "length (rnm (fix_up_rnm conf)) = length (rnm conf)"
  by (simp add: fix_up_rnm_def split: list.split)

lemma parse_nss_config_length: "length (rnm (snd (parse_nss_config e))) = 15"
proof -
  have "length (rnm (fst (fold parse_conf_line ls (conf_zero, True, False, False)))) = 15" for ls
    by (simp add: parse_lines_length conf_zero_def)
  thus ?thesis
    by (simp add: parse_nss_config_def Let_def case_prod_beta init_rnm_def conf_zero_def split: option.split)
qed

lemma lookup_range: "1 \<le> snd (radius_lookup_cache e nam w) \<and> snd (radius_lookup_cache e nam w) \<le> 15"
  by (simp add: radius_lookup_cache_def Let_def split: option.split)

text \<open>
  The privilege level never leaves the table.  Whatever the cache file of a user, the
  environment of the tool and the configuration file contain, the level that is looked up or handed
  over lies between 1 and 15, and the table the configuration yields has an entry for it.
\<close>

theorem privilege_index_in_range:
  "let mpl = snd (radius_lookup_cache e nam w); table = rnm (snd (parse_nss_config e)) in
   1 \<le> mpl \<and> nat (mpl - 1) < length table \<and>
   1 \<le> privilege_level p \<and> nat (privilege_level p - 1) < length table"
proof -
  have "1 \<le> privilege_level p \<and> privilege_level p \<le> 15"
    by (simp add: privilege_level_def Let_def split: option.split)
  thus ?thesis using lookup_range [of e nam w] by (simp add: Let_def parse_nss_config_length nat_less_iff)
qed

text \<open>
  The entry a level ends up with: the nearest configured one at or below it.
\<close>

lemma fill_down_nth:
  assumes "i < length rs"
  shows "fill_down prev rs ! i =
    (case filter (\<lambda>r. mpl_gecos r \<noteq> None) (take (Suc i) rs) of [] \<Rightarrow> prev | cs \<Rightarrow> last cs)"
  using assms
proof (induction rs arbitrary: prev i)
  case (Cons r rs)
  let ?r = "if mpl_gecos r = None then prev else r"
  show ?case
  proof (cases i)
    case 0
    thus ?thesis by (simp add: Let_def)
  next
    case (Suc j)
    let ?f = "filter (\<lambda>r. mpl_gecos r \<noteq> None) (take (Suc j) rs)"
    have "fill_down prev (r # rs) ! i = (case ?f of [] \<Rightarrow> ?r | cs \<Rightarrow> last cs)"
      using Cons.IH [of j ?r] Cons.prems by (simp add: Suc Let_def)
    thus ?thesis by (cases ?f) (auto simp: Suc)
  qed
qed simp

text \<open>
  A level without an entry of its own takes that of the nearest configured level below it; if
  none is configured at or below it, its entry is the empty one of level 1, with null strings.
\<close>

theorem level_inherits_from_below:
  assumes "1 \<le> mpl" "mpl \<le> int (length (rnm conf))"
  shows "level (fix_up_rnm conf) mpl =
    (case filter (\<lambda>r. mpl_gecos r \<noteq> None) (take (nat mpl) (rnm conf)) of
       [] \<Rightarrow> hd (rnm conf) | cs \<Rightarrow> last cs)"
proof -
  obtain r rs where r: "rnm conf = r # rs" using assms by (cases "rnm conf") auto
  show ?thesis
  proof (cases "nat (mpl - 1)")
    case 0
    hence "nat mpl = 1" using assms by simp
    thus ?thesis using 0 by (simp add: level_def fix_up_rnm_def r)
  next
    case (Suc j)
    have n: "nat mpl = Suc (Suc j)" using Suc assms by simp
    let ?f = "filter (\<lambda>r. mpl_gecos r \<noteq> None) (take (Suc j) rs)"
    have "level (fix_up_rnm conf) mpl = (case ?f of [] \<Rightarrow> r | cs \<Rightarrow> last cs)"
      using fill_down_nth [of j rs r] assms(2) n Suc by (simp add: level_def fix_up_rnm_def r)
    thus ?thesis by (cases ?f) (auto simp: n r)
  qed
qed

theorem level_inherits_from_below_witness:
  "mpl_groups (level (fix_up_rnm (init_rnm conf_zero)) 14) = Some ''docker''"
  using level_inherits_from_below [of 14 "init_rnm conf_zero"]
  by (simp add: init_rnm_def mpl_zero_def numeral_eq_Suc)

section \<open>The cache\<close>

lemma cache_filename_inj: "cache_filename a = cache_filename b \<Longrightarrow> a = b"
  by (simp add: cache_filename_def cache_dir_def)

text \<open>
  C34. What the tool stores, the name service reads.  After a successful update with a valid level,
  a look-up of that user (when the file can be read) gives this level, and a look-up of any other
  user gives what it gave before.
\<close>

theorem cache_round_trip:
  assumes "radius_update_cache e nam mpl w = (0, w')" "1 \<le> mpl" "mpl \<le> 15"
    and "attr_stat_ok e (cache_filename nam)"
    and "\<And>c. attr_files w' (cache_filename nam) = Some c \<Longrightarrow> attr_read e (cache_filename nam) = int (length c)"
  shows "radius_lookup_cache e nam w' = (0, mpl) \<and>
    (\<forall>other. other \<noteq> nam \<longrightarrow> radius_lookup_cache e other w' = radius_lookup_cache e other w)"
proof -
  let ?c = "dec_int mpl @ [CHR 0x0A]"
  have w': "w' = w\<lparr> attr_files := (attr_files w)(cache_filename nam \<mapsto> ?c) \<rparr>"
    and len: "length (cache_dir nam) + 28 < 4096"
    using assms(1) by (auto simp: radius_update_cache_def Let_def split: if_splits)
  have c: "?c = dec_string (nat mpl) @ [CHR 0x0A]" using assms(2) by (simp add: dec_int_def)
  have "\<forall>ch \<in> set ?c. ch \<noteq> CHR 0x00"
    using dec_string_digits [of "nat mpl"] by (auto simp: c is_digit_def)
  hence "c_str ?c = ?c" by (simp add: c_str_def takeWhile_eq_all_conv)
  hence atoi: "atoi (c_str ?c) = mpl"
    using atoi_dec_string [of "[CHR 0x0A]" "nat mpl"] assms(2) by (simp add: c is_digit_def)
  have "length (dec_string (nat mpl)) \<le> 2"
    using assms(2,3) by (simp add: dec_string.simps [of "nat mpl"] dec_string.simps [of "nat mpl div 10"])
  hence short: "length ?c < 10" by (simp add: c)
  have "radius_lookup_cache e nam w' = (0, mpl)"
    using atoi short assms(2-5) len by (simp add: radius_lookup_cache_def w' cache_filename_def Let_def)
  moreover have "radius_lookup_cache e other w' = radius_lookup_cache e other w" if "other \<noteq> nam" for other
  proof -
    have "cache_filename other \<noteq> cache_filename nam" using cache_filename_inj [of other nam] that by blast
    thus ?thesis by (simp add: radius_lookup_cache_def w' Let_def)
  qed
  ultimately show ?thesis by blast
qed

theorem cache_round_trip_witness:
  "radius_lookup_cache sample_nss_env ''joe'' (snd (radius_update_cache sample_nss_env ''joe'' 7 sample_nss_world)) = (0, 7)"
  using cache_round_trip [of sample_nss_env "''joe''" 7 sample_nss_world
      "snd (radius_update_cache sample_nss_env ''joe'' 7 sample_nss_world)"]
  by (simp add: radius_update_cache_def sample_nss_env_def Let_def cache_dir_def dec_int_def dec_string.simps
      split: if_splits)

section \<open>Entries handed to the caller\<close>



definition pw_size :: "passwd \<Rightarrow> nat" where
  "pw_size p = length (pw_name p) + length (pw_gecos p) + length (pw_dir p) + length (pw_shell p) + 6"






abbreviation (input) sample_sshd :: nss_env where
  "sample_sshd \<equiv> sample_nss_env\<lparr> proc_cmdline := Some ''sshd: eve [priv]'' \<rparr>"

lemma sample_found:
  "\<exists>w'. radius_find_entry sample_sshd (snd (parse_nss_config sample_sshd)) ''eve'' sample_nss_world =
     Some (Some (sample_unconfirmed ''eve'' ''1000''), w')"
proof -
  let ?conf = "fix_up_rnm (init_rnm conf_zero)"
  have conf: "snd (parse_nss_config sample_sshd) = ?conf"
    by (simp add: parse_nss_config_def sample_nss_env_def)
  have flags: "\<not> many_to_one ?conf" "allow_anonymous ?conf" "unconfirmed_regexp ?conf = None"
    by (simp_all add: fix_up_rnm_def init_rnm_def conf_zero_def)
  have miss: "radius_lookup_cache sample_sshd ''eve'' sample_nss_world = (STATUS_ENOENT, 1)"
    by (simp add: radius_lookup_cache_def sample_nss_world_def cache_filename_def cache_dir_def)
  have sshd: "is_sshd_lookup sample_sshd ?conf ''eve''"
    by (simp add: is_sshd_lookup_def flags snprintf_def c_str_def strncmp_eq_def Let_def)
  have "passwd_file (snd (radius_create_user sample_sshd ?conf u 1 True sample_nss_world)) = passwd_file sample_nss_world" for u
    by (simp add: radius_create_user_def invoke_popen_def sample_nss_env_def sample_userdel_def
        sample_nss_world_def useradd_cmd_def flags userdel_cmd_def Let_def)
  hence "radius_getpwnam_r (Some ''eve'') (snd (radius_create_user sample_sshd ?conf u 1 True sample_nss_world)) =
      Some (0, Some (sample_unconfirmed ''eve'' ''1000''))" for u
    by (simp add: radius_getpwnam_r_def sample_nss_world_def sample_user_def sample_unconfirmed_def)
  thus ?thesis by (simp add: radius_find_entry_def conf miss flags sshd Let_def)
qed

text \<open>
  Too small a buffer is reported as success: the copy fails with \<open>ERANGE\<close> and leaves the structure
  of the caller untouched, but the name service answers \<open>NSS_STATUS_SUCCESS\<close>.
\<close>

theorem small_buffer_reported_as_success:
  assumes "radius_find_entry e (snd (parse_nss_config e)) nam w = Some (Some p, w')"
    and "nam \<noteq> ''*''" "buf \<noteq> []" "length buf < pw_size p"
  shows "nss_radius_getpwnam_r e nam buf w = Some (NSS_STATUS_SUCCESS, None, buf, w')"
  using assms by (simp add: nss_radius_getpwnam_r_def radius_copy_pw_def pw_size_def Let_def)

theorem small_buffer_reported_as_success_witness:
  "\<exists>w'. nss_radius_getpwnam_r sample_sshd ''eve'' ''xxxx'' sample_nss_world =
     Some (NSS_STATUS_SUCCESS, None, ''xxxx'', w')"
proof -
  obtain w' where "radius_find_entry sample_sshd (snd (parse_nss_config sample_sshd)) ''eve'' sample_nss_world =
      Some (Some (sample_unconfirmed ''eve'' ''1000''), w')"
    using sample_found by blast
  from small_buffer_reported_as_success [OF this, of "''xxxx''"] show ?thesis
    by (simp add: sample_unconfirmed_def pw_size_def)
qed



lemma locked_out: "conf_file e = Some c \<Longrightarrow> \<not> lock_ok e \<Longrightarrow> \<not> allow_anonymous (snd (parse_nss_config e))"
  by (simp add: parse_nss_config_def Let_def case_prod_beta fix_up_rnm_def init_rnm_def)

section \<open>Accounts of the system\<close>

text \<open>
  Local accounts are protected.  When a user with the name of an account whose identifier is at
  most 1000 (such as root) passes RADIUS authentication, the tool runs no command for it and leaves
  the password file alone; only the cache of the user may change.
\<close>

theorem reserved_account_untouched:
  assumes "radius_getpwnam_r (Some user) w = Some (0, Some p)" "pw_uid p \<le> 1000"
    and "\<not> many_to_one (snd (parse_nss_config e))" "user \<noteq> []"
  shows "\<exists>w'. main_cache_radius e [prog, ''-n''] (Some user) privilege w = Some (0, w') \<and>
    commands w' = commands w \<and> passwd_file w' = passwd_file w"
proof -
  have upd: "passwd_file (snd (radius_update_cache e user mpl w)) = passwd_file w \<and>
      commands (snd (radius_update_cache e user mpl w)) = commands w" for mpl
    by (simp add: radius_update_cache_def Let_def)
  have same: "radius_getpwnam_r (Some user) (snd (radius_update_cache e user mpl w)) = Some (0, Some p)" for mpl
    using assms(1) upd [of mpl] by (simp add: radius_getpwnam_r_def)
  show ?thesis using assms upd same
    by (auto simp: main_cache_radius_def radius_update_user_def strncmp_eq_def Let_def case_prod_beta)
qed

theorem reserved_account_untouched_witness:
  "\<exists>w'. main_cache_radius sample_nss_env [''cache_radius'', ''-n''] (Some ''root'') (Some ''15'') sample_nss_world = Some (0, w') \<and>
     commands w' = [] \<and> passwd_file w' = passwd_file sample_nss_world"
  using reserved_account_untouched [of "''root''" sample_nss_world sample_user sample_nss_env "''cache_radius''" "Some ''15''"]
  by (simp add: sample_conf radius_getpwnam_r_def sample_nss_world_def sample_user_def fix_up_rnm_def init_rnm_def conf_zero_def)

section \<open>Clearing unconfirmed accounts\<close>

definition aged_names :: "nss_env \<Rightarrow> RADIUS_NSS_CONF_B \<Rightarrow> passwd list \<Rightarrow> string list" where
  "aged_names e conf ps = map pw_name (filter (aged e conf) ps)"

definition without :: "string \<Rightarrow> passwd list \<Rightarrow> passwd list" where
  "without n ps = filter (\<lambda>p. pw_name p \<noteq> n) ps"

text \<open>\<open>userdel\<close> as documented: the entry of the user is gone and nothing else changes.\<close>

definition userdel_works :: "nss_env \<Rightarrow> bool" where
  "userdel_works e \<longleftrightarrow>
     (\<forall>n ps. popen e (userdel_cmd n) (Some (map Entry ps)) = (0, Some (map Entry (without n ps))))"

lemma first_aged_names:
  "first_aged e conf (map Entry ps) = (case aged_names e conf ps of [] \<Rightarrow> None | n # _ \<Rightarrow> Some n)"
  by (induction ps) (simp_all add: aged_names_def)

lemma aged_names_without:
  assumes "aged_names e conf ps = n # ns" "distinct (map pw_name ps)"
  shows "aged_names e conf (without n ps) = ns"
proof -
  have d: "distinct (aged_names e conf ps)" using assms(2) by (simp add: aged_names_def distinct_map_filter)
  have "aged_names e conf (without n ps) = filter (\<lambda>m. m \<noteq> n) (aged_names e conf ps)"
    by (simp add: aged_names_def without_def filter_map comp_def conj_commute)
  also have "... = ns" using d assms(1) by (simp add: filter_id_conv) metis
  finally show ?thesis .
qed

lemma clear_step:
  assumes "userdel_works e" "passwd_file w = Some (map Entry ps)" "\<forall>p \<in> set ps. length (pw_name p) < 4000"
  shows "radius_clear_unconfirmed_users e conf w =
    (case aged_names e conf ps of
       [] \<Rightarrow> (STATUS_ESRCH, w)
     | n # _ \<Rightarrow> (0, w\<lparr> passwd_file := Some (map Entry (without n ps)), commands := commands w @ [userdel_cmd n] \<rparr>))"
proof (cases "aged_names e conf ps")
  case (Cons n ns)
  hence "n \<in> set (aged_names e conf ps)" by simp
  hence "n \<in> pw_name ` set ps" by (auto simp: aged_names_def)
  hence "length (userdel_cmd n) < CMD_SZ" using assms(3) by (auto simp: userdel_cmd_def quoted_def)
  thus ?thesis using assms(1,2)
    by (simp add: radius_clear_unconfirmed_users_def first_aged_names Cons radius_delete_user_def
        invoke_popen_def userdel_works_def)
qed (simp add: radius_clear_unconfirmed_users_def first_aged_names assms(2))

lemma clear_loop_clears:
  assumes "userdel_works e" "passwd_file w = Some (map Entry ps)" "distinct (map pw_name ps)"
    and "\<forall>p \<in> set ps. length (pw_name p) < 4000"
  shows "clear_loop e conf (int k) w = w\<lparr>
    passwd_file := Some (map Entry (filter (\<lambda>p. pw_name p \<notin> set (take (Suc k) (aged_names e conf ps))) ps)),
    commands := commands w @ map userdel_cmd (take (Suc k) (aged_names e conf ps)) \<rparr>"
  using assms(2-)
proof (induction k arbitrary: w ps)
  case 0
  thus ?case using clear_step [OF assms(1) 0(1) 0(3), of conf]
    by (cases "aged_names e conf ps") (simp_all add: clear_loop.simps [of _ _ 0] without_def)
next
  case (Suc k)
  note step = clear_step [OF assms(1) Suc.prems(1) Suc.prems(3), of conf]
  show ?case
  proof (cases "aged_names e conf ps")
    case Nil
    thus ?thesis using step Suc.prems(1) by (subst clear_loop.simps) (cases w, simp)
  next
    case (Cons n ns)
    let ?w = "w\<lparr> passwd_file := Some (map Entry (without n ps)), commands := commands w @ [userdel_cmd n] \<rparr>"
    have "clear_loop e conf (int (Suc k)) w = clear_loop e conf (int k) ?w"
      using step by (subst clear_loop.simps) (simp add: Cons)
    also have "... = ?w\<lparr>
        passwd_file := Some (map Entry (filter (\<lambda>p. pw_name p \<notin> set (take (Suc k) ns)) (without n ps))),
        commands := commands ?w @ map userdel_cmd (take (Suc k) ns) \<rparr>"
      using Suc.IH [of ?w "without n ps"] Suc.prems aged_names_without [OF Cons Suc.prems(2)]
      by (simp add: without_def distinct_map_filter)
    finally show ?thesis by (simp add: Cons without_def conj_commute)
  qed
qed

text \<open>
  C35. Unconfirmed accounts are cleared in the order of the password file, and one more of them than
  the limit says: with a working \<open>userdel\<close> the loop deletes the first \<open>limit + 1\<close> accounts whose time
  has run out, or all of them if there are fewer, and no other account.
\<close>

theorem unconfirmed_accounts_cleared:
  assumes "userdel_works e" "passwd_file w = Some (map Entry ps)" "distinct (map pw_name ps)"
    and "\<forall>p \<in> set ps. length (pw_name p) < 4000" "0 \<le> limit"
  shows "commands (clear_loop e conf limit w) =
      commands w @ map userdel_cmd (take (nat limit + 1) (aged_names e conf ps)) \<and>
    passwd_file (clear_loop e conf limit w) =
      Some (map Entry (filter (\<lambda>p. pw_name p \<notin> set (take (nat limit + 1) (aged_names e conf ps))) ps))"
  using clear_loop_clears [OF assms(1-4), of conf "nat limit"] assms(5) by simp

lemma sample_userdel_works: "userdel_works sample_nss_env"
  by (simp add: userdel_works_def sample_nss_env_def sample_userdel_def without_def userdel_cmd_def quoted_def
      filter_map comp_def)

lemma sample_aged:
  "aged_names sample_nss_env conf_zero [sample_user, sample_unconfirmed ''eve'' ''1000'',
     sample_unconfirmed ''bob'' ''4900'', sample_unconfirmed ''mal'' ''1200''] = [''eve'', ''mal'']"
  by code_simp

theorem unconfirmed_accounts_cleared_witness:
  "commands (clear_loop sample_nss_env conf_zero 0 sample_nss_world) = [userdel_cmd ''eve'']"
proof -
  let ?ps = "[sample_user, sample_unconfirmed ''eve'' ''1000'', sample_unconfirmed ''bob'' ''4900'',
    sample_unconfirmed ''mal'' ''1200'']"
  have "passwd_file sample_nss_world = Some (map Entry ?ps)" "commands sample_nss_world = []"
    by (simp_all add: sample_nss_world_def)
  thus ?thesis using unconfirmed_accounts_cleared [of sample_nss_env sample_nss_world ?ps 0 conf_zero]
      sample_userdel_works by (simp add: sample_aged) (simp add: sample_user_def sample_unconfirmed_def)
qed

end
