(* ===== verification/Ssg.thy ===== *)
theory Ssg
  imports CStr
begin

text \<open>
  The unit generator \<open>src/systemd-sonic-generator/systemd-sonic-generator.c\<close>.  At boot, before systemd
  starts units, it reads the list of services of the image and links each one into the directories
  of its targets; on a switch with several ASICs a template unit gets an instance per ASIC, and
  dependencies on such services are rewritten in the unit files.

  The file system maps a path to what lies there.  A result \<open>None\<close> is a read or write through a null
  or uninitialised pointer, a write behind an array or the release of a pointer that was not
  allocated.  Allocations succeed; messages on standard error are not modelled.
\<close>

section \<open>The file system\<close>

datatype node = Reg string | Dir | Link string

type_synonym fs = "string \<Rightarrow> node option"

datatype sys_op = OpenR | OpenW | Mkdir | Remove | Rename | Chmod | Symlink

text \<open>Whether the kernel refuses an operation on a path for reasons outside the model.\<close>

type_synonym refusal = "sys_op \<Rightarrow> string \<Rightarrow> bool"

text \<open>Links are followed at most 40 times, as the kernel does.\<close>

fun follow :: "nat \<Rightarrow> fs \<Rightarrow> string \<Rightarrow> string option" where
  "follow 0 fs path = None"
| "follow (Suc n) fs path = (case fs path of Some (Link p) \<Rightarrow> follow n fs p | _ \<Rightarrow> Some path)"

definition stat :: "fs \<Rightarrow> string \<Rightarrow> node option" where
  "stat fs path = Option.bind (follow 41 fs path) fs"

text \<open>A directory can be opened for reading, but no line can be read from it.\<close>

definition fopen_r :: "refusal \<Rightarrow> fs \<Rightarrow> string \<Rightarrow> string option" where
  "fopen_r no fs path =
     (if no OpenR path then None
      else case stat fs path of Some (Reg text) \<Rightarrow> Some text | Some Dir \<Rightarrow> Some [] | _ \<Rightarrow> None)"

definition write_file :: "refusal \<Rightarrow> fs \<Rightarrow> string \<Rightarrow> string \<Rightarrow> fs option" where
  "write_file no fs path text =
     (if no OpenW path then None
      else do { p \<leftarrow> follow 41 fs path; if fs p = Some Dir then None else Some (fs(p \<mapsto> Reg text)) })"

definition unlink_path :: "refusal \<Rightarrow> string \<Rightarrow> fs \<Rightarrow> bool \<times> fs" where
  "unlink_path no path fs =
     (if no Remove path \<or> fs path = None then (False, fs) else (True, fs(path := None)))"

definition rename :: "refusal \<Rightarrow> string \<Rightarrow> string \<Rightarrow> fs \<Rightarrow> fs" where
  "rename no old new fs =
     (if no Rename new \<or> fs old = None \<or> fs new = Some Dir then fs
      else (fs(new := fs old))(old := None))"

definition mkdir :: "refusal \<Rightarrow> string \<Rightarrow> fs \<Rightarrow> bool \<times> fs" where
  "mkdir no path fs = (if fs path \<noteq> None \<or> no Mkdir path then (False, fs) else (True, fs(path \<mapsto> Dir)))"

text \<open>The lines of a file as C strings.\<close>

definition file_lines :: "string \<Rightarrow> string list" where
  "file_lines text = map c_str (getlines text)"

section \<open>Constants and globals\<close>

abbreviation (input) MAX_NUM_TARGETS :: nat where "MAX_NUM_TARGETS \<equiv> 48"
abbreviation (input) MAX_NUM_INSTALL_LINES :: nat where "MAX_NUM_INSTALL_LINES \<equiv> 48"
abbreviation (input) MAX_NUM_UNITS :: nat where "MAX_NUM_UNITS \<equiv> 128"
abbreviation (input) MAX_BUF_SIZE :: nat where "MAX_BUF_SIZE \<equiv> 512"
abbreviation (input) PATH_MAX :: nat where "PATH_MAX \<equiv> 4096"

definition UNIT_FILE_PREFIX :: string where "UNIT_FILE_PREFIX = ''/usr/lib/systemd/system/''"
definition CONFIG_FILE :: string where "CONFIG_FILE = ''/etc/sonic/generated_services.conf''"
definition MACHINE_CONF_FILE :: string where "MACHINE_CONF_FILE = ''/host/machine.conf''"

definition asic_conf :: "string \<Rightarrow> string" where
  "asic_conf platform = ''/usr/share/sonic/device/'' @ platform @ ''/asic.conf''"

record ssg_globals =
  num_asics :: int
  multi_instance_services :: "string list"

section \<open>Reading unit files\<close>

definition strip_trailing_newline :: "string \<Rightarrow> string" where
  "strip_trailing_newline str = (if str \<noteq> [] \<and> last str = CHR 0x0A then butlast str else str)"

fun install_lines :: "bool \<Rightarrow> nat \<Rightarrow> string list \<Rightarrow> string list" where
  "install_lines found_install n [] = []"
| "install_lines found_install n (line # ls) =
     (if strstr line ''[Install]'' then install_lines True n ls
      else if found_install then
        (if n \<ge> MAX_NUM_INSTALL_LINES then [] else line # install_lines True (n + 1) ls)
      else install_lines False n ls)"

definition get_target_lines :: "refusal \<Rightarrow> fs \<Rightarrow> string \<Rightarrow> string list option" where
  "get_target_lines no fs unit_file =
     map_option (\<lambda>text. install_lines False 0 (file_lines text)) (fopen_r no fs unit_file)"

definition is_multi_instance_service :: "ssg_globals \<Rightarrow> string \<Rightarrow> bool" where
  "is_multi_instance_service g service_name = list_ex (strstr service_name) (multi_instance_services g)"

text \<open>The body of the loop of \<open>get_install_targets_from_line\<close>; the type of the line may be uninitialised.\<close>

definition final_target :: "string \<Rightarrow> string option \<Rightarrow> string option" where
  "final_target token install_type = do {
     let target = strip_trailing_newline token;
     t \<leftarrow> (if strstr target ''%'' then do {
             (prefix, r) \<leftarrow> strtok (\<lambda>ch. ch = CHR ''.'') target;
             (suffix, _) \<leftarrow> strtok (\<lambda>ch. ch = CHR ''.'') r;
             if length prefix < 2 then None else Some (take (length prefix - 2) prefix @ ''.'' @ suffix) }
           else Some target);
     ty \<leftarrow> install_type;
     if length (t @ ty) < PATH_MAX then Some (t @ ty) else None }"

function get_install_targets_from_line :: "string \<Rightarrow> string option \<Rightarrow> nat \<Rightarrow> string list option" where
  "get_install_targets_from_line target_string install_type n =
     (case strtok (\<lambda>ch. ch = CHR '' '') target_string of
        None \<Rightarrow> Some []
      | Some (token, rest) \<Rightarrow>
          if n \<ge> MAX_NUM_TARGETS then Some []
          else case final_target token install_type of
            None \<Rightarrow> None
          | Some t \<Rightarrow> map_option (\<lambda>ts. t # ts) (get_install_targets_from_line rest install_type (n + 1)))"
  by pat_completeness auto
termination
  by (relation "measure (\<lambda>(s, ty, n). length s)") (auto dest: strtok_shorter)

declare get_install_targets_from_line.simps [simp del]

section \<open>Rewriting dependencies\<close>

text \<open>One word behind the equals sign; the pieces of the line that replace it.\<close>

definition dep_word :: "ssg_globals \<Rightarrow> string \<Rightarrow> string \<Rightarrow> string option" where
  "dep_word g token word =
     (if CHR ''.'' \<notin> set word \<or> CHR ''@'' \<in> set word
      then Some (snprintf MAX_BUF_SIZE (token @ ''='' @ word @ [CHR 0x0A]))
      else
        let (service_name, save) = (case strtok (\<lambda>ch. ch = CHR ''.'') word of
                                      None \<Rightarrow> (None, []) | Some (t, r) \<Rightarrow> (Some t, r));
            type = map_option fst (strtok (\<lambda>ch. ch = CHR 0x0A) save);
            out = (if is_multi_instance_service g word
                   then concat (map (\<lambda>i. snprintf MAX_BUF_SIZE (token @ ''='' @ str_of service_name @ ''@'' @
                          dec_string i @ ''.'' @ str_of type @ [CHR 0x0A])) [0 ..< nat (num_asics g)])
                   else snprintf MAX_BUF_SIZE (token @ ''='' @ str_of service_name @ ''.'' @ str_of type @ [CHR 0x0A]))
        in if service_name \<noteq> None \<and> hd word = CHR ''.'' then None else Some out)"

function dep_words :: "ssg_globals \<Rightarrow> string \<Rightarrow> string \<Rightarrow> string option" where
  "dep_words g token s =
     (case strtok (\<lambda>ch. ch = CHR '' '') s of
        None \<Rightarrow> Some []
      | Some (word, rest) \<Rightarrow>
          (case dep_word g token word of
             None \<Rightarrow> None
           | Some out \<Rightarrow> map_option (\<lambda>r. out @ r) (dep_words g token rest)))"
  by pat_completeness auto
termination
  by (relation "measure (\<lambda>(g, t, s). length s)") (auto dest: strtok_shorter)

declare dep_words.simps [simp del]

text \<open>One line: the flag \<open>section_done\<close> and what is written.\<close>

definition dep_line :: "ssg_globals \<Rightarrow> bool \<Rightarrow> string \<Rightarrow> (bool \<times> string) option" where
  "dep_line g section_done line =
     (if strstr line ''[Service]'' \<or> strstr line ''[Timer]'' then Some (True, line)
      else if strstr line ''[Install]'' then Some (False, line)
      else if strstr line ''[Unit]'' \<or> strstr line ''Description'' \<or> section_done then Some (section_done, line)
      else case strtok (\<lambda>ch. ch = CHR ''='') line of
        None \<Rightarrow> Some (section_done, [])
      | Some (token, rest) \<Rightarrow> map_option (\<lambda>out. (section_done, out)) (dep_words g token rest))"

fun dep_lines :: "ssg_globals \<Rightarrow> bool \<Rightarrow> string list \<Rightarrow> string option" where
  "dep_lines g section_done [] = Some []"
| "dep_lines g section_done (line # ls) =
     (case dep_line g section_done line of
        None \<Rightarrow> None
      | Some (section_done', out) \<Rightarrow> map_option (\<lambda>r. out @ r) (dep_lines g section_done' ls))"

definition replace_multi_inst_dep :: "refusal \<Rightarrow> ssg_globals \<Rightarrow> string \<Rightarrow> fs \<Rightarrow> fs option" where
  "replace_multi_inst_dep no g src fs = do {
     text \<leftarrow> fopen_r no fs src;
     let tmp_file_path = snprintf PATH_MAX (src @ ''.tmp'');
     out \<leftarrow> dep_lines g False (file_lines text);
     fs \<leftarrow> write_file no fs tmp_file_path out;
     let fs = snd (unlink_path no src fs);
     Some (rename no tmp_file_path src fs) }"

section \<open>Targets of a unit\<close>

text \<open>The suffix that the next line inherits, and the targets of this one.\<close>

function line_targets :: "bool \<Rightarrow> string option \<Rightarrow> nat \<Rightarrow> string \<Rightarrow> (string option \<times> string list) option" where
  "line_targets first target_suffix n line =
     (case strtok (\<lambda>ch. ch = CHR ''='') line of
        None \<Rightarrow> Some (target_suffix, [])
      | Some (token, rest) \<Rightarrow>
          if first then
            line_targets False
              (if strstr token ''RequiredBy'' then Some ''.requires''
               else if strstr token ''WantedBy'' then Some ''.wants'' else target_suffix) n rest
          else
            (case get_install_targets_from_line token target_suffix n of
               None \<Rightarrow> None
             | Some ts \<Rightarrow> map_option (\<lambda>(suf, us). (suf, ts @ us))
                 (line_targets False target_suffix (n + length ts) rest)))"
  by pat_completeness auto
termination
  by (relation "measure (\<lambda>(f, suf, n, s). length s)") (auto dest: strtok_shorter)

declare line_targets.simps [simp del]

fun lines_targets :: "string option \<Rightarrow> nat \<Rightarrow> string list \<Rightarrow> string list option" where
  "lines_targets target_suffix n [] = Some []"
| "lines_targets target_suffix n (line # ls) =
     (case line_targets True target_suffix n line of
        None \<Rightarrow> None
      | Some (suf, ts) \<Rightarrow> map_option (\<lambda>us. ts @ us) (lines_targets suf (n + length ts) ls))"

text \<open>The inner option is the return value, \<open>None\<close> for -1.\<close>

definition get_install_targets ::
    "refusal \<Rightarrow> ssg_globals \<Rightarrow> string \<Rightarrow> fs \<Rightarrow> (string list option \<times> fs) option" where
  "get_install_targets no g unit_file fs = do {
     let file_path = UNIT_FILE_PREFIX @ unit_file;
     if length file_path \<ge> PATH_MAX \<or> CHR ''.'' \<notin> set unit_file then None
     else do {
       let instance_name = takeWhile (\<lambda>ch. ch \<noteq> CHR ''.'') unit_file;
       fs \<leftarrow> (if num_asics g > 1 \<and> \<not> is_multi_instance_service g instance_name
             then replace_multi_inst_dep no g file_path fs else Some fs);
       case get_target_lines no fs file_path of
         None \<Rightarrow> Some (None, fs)
       | Some target_lines \<Rightarrow> do {
           ts \<leftarrow> lines_targets None 0 target_lines;
           Some (Some ts, fs) } } }"

section \<open>The list of units\<close>

text \<open>The units and the multi-instance services; storing behind either array is a fault.\<close>

fun unit_lines :: "int \<Rightarrow> string list \<Rightarrow> string list \<Rightarrow> string list \<Rightarrow> (string list \<times> string list) option" where
  "unit_lines asics units multi [] = Some (units, multi)"
| "unit_lines asics units multi (l # ls) =
     (if length units \<ge> MAX_NUM_UNITS then Some (units, multi)
      else
        let line = strip_trailing_newline l;
            multi' = (if CHR ''@'' \<in> set line then multi @ [takeWhile (\<lambda>ch. ch \<noteq> CHR ''@'') line] else multi)
        in if length multi' > MAX_NUM_UNITS then None
           else if line = ''topology.service'' \<and> asics = 1 then unit_lines asics units multi' ls
           else unit_lines asics (units @ [line]) multi' ls)"

text \<open>A missing list ends the process.\<close>

definition get_unit_files :: "refusal \<Rightarrow> int \<Rightarrow> fs \<Rightarrow> (string list \<times> string list) option option" where
  "get_unit_files no asics fs =
     (case fopen_r no fs CONFIG_FILE of
        None \<Rightarrow> Some None
      | Some text \<Rightarrow> map_option Some (unit_lines asics [] [] (file_lines text)))"

section \<open>Installing\<close>

definition insert_instance_number :: "string \<Rightarrow> nat \<Rightarrow> string option" where
  "insert_instance_number unit_file i =
     (if CHR ''@'' \<in> set unit_file
      then Some (takeWhile (\<lambda>ch. ch \<noteq> CHR ''@'') unit_file @ ''@'' @ dec_string i @
                 tl (dropWhile (\<lambda>ch. ch \<noteq> CHR ''@'') unit_file))
      else None)"

definition create_symlink ::
    "refusal \<Rightarrow> string \<Rightarrow> string \<Rightarrow> string \<Rightarrow> nat option \<Rightarrow> fs \<Rightarrow> (int \<times> fs) option" where
  "create_symlink no unit_file target install_dir inst fs = do {
     let src_path = UNIT_FILE_PREFIX @ unit_file;
     unit_instance \<leftarrow> (case inst of None \<Rightarrow> Some unit_file | Some i \<Rightarrow> insert_instance_number unit_file i);
     let final_install_dir = install_dir @ target;
     let dest_path = final_install_dir @ ''/'' @ unit_instance;
     if length src_path \<ge> PATH_MAX \<or> length dest_path \<ge> PATH_MAX then None
     else
       let (ok, fs) =
             (case stat fs final_install_dir of
                None \<Rightarrow> mkdir no final_install_dir fs
              | Some (Reg _) \<Rightarrow>
                  let (ok, fs) = unlink_path no final_install_dir fs
                  in if ok then mkdir no final_install_dir fs else (False, fs)
              | Some Dir \<Rightarrow> (\<not> no Chmod final_install_dir, fs)
              | Some (Link _) \<Rightarrow> (True, fs))
       in Some (if \<not> ok then (-1, fs)
                else if fs dest_path \<noteq> None then (0, fs)
                else if no Symlink dest_path then (-1, fs)
                else (0, fs(dest_path \<mapsto> Link src_path))) }"

fun install_instances ::
    "refusal \<Rightarrow> string \<Rightarrow> string \<Rightarrow> string \<Rightarrow> nat list \<Rightarrow> fs \<Rightarrow> fs option" where
  "install_instances no unit_file target install_dir [] fs = Some fs"
| "install_instances no unit_file target install_dir (i # is) fs = do {
     target_instance \<leftarrow> (if CHR ''@'' \<in> set target then insert_instance_number target i else Some target);
     (r, fs) \<leftarrow> create_symlink no unit_file target_instance install_dir (Some i) fs;
     install_instances no unit_file target install_dir is fs }"

definition install_unit_file ::
    "refusal \<Rightarrow> ssg_globals \<Rightarrow> string \<Rightarrow> string \<Rightarrow> string \<Rightarrow> fs \<Rightarrow> fs option" where
  "install_unit_file no g unit_file target install_dir fs =
     (if num_asics g > 1 \<and> strstr unit_file ''@''
      then install_instances no unit_file target install_dir [0 ..< nat (num_asics g)] fs
      else map_option snd (create_symlink no unit_file target install_dir None fs))"

section \<open>The number of ASICs\<close>

text \<open>The value behind the first equals sign of a line, without its newline.\<close>

definition line_value :: "string \<Rightarrow> string option" where
  "line_value line = do {
     (_, r) \<leftarrow> strtok (\<lambda>ch. ch = CHR ''='') line;
     (v, _) \<leftarrow> strtok (\<lambda>ch. ch = CHR ''='') r;
     Some (strip_trailing_newline v) }"

text \<open>\<open>sscanf\<close> with \<open>%d\<close> leaves the variable alone when no number starts the text.\<close>

definition sscanf_d :: "string \<Rightarrow> int \<Rightarrow> int" where
  "sscanf_d s x =
     (let r = dropWhile c_isspace s;
          r = (if r \<noteq> [] \<and> (hd r = CHR ''-'' \<or> hd r = CHR ''+'') then tl r else r)
      in if r \<noteq> [] \<and> is_digit (hd r) then atoi s else x)"

definition get_num_of_asic :: "refusal \<Rightarrow> fs \<Rightarrow> int option option" where
  "get_num_of_asic no fs =
     (case fopen_r no fs MACHINE_CONF_FILE of
        None \<Rightarrow> Some None
      | Some text \<Rightarrow> do {
          line \<leftarrow> find (\<lambda>l. strstr l ''onie_platform'' \<or> strstr l ''aboot_platform'') (file_lines text);
          platform \<leftarrow> line_value line;
          case fopen_r no fs (snprintf 512 (asic_conf platform)) of
            None \<Rightarrow> Some (Some 1)
          | Some text \<Rightarrow>
              (case find (\<lambda>l. strstr l ''NUM_ASIC'') (file_lines text) of
                 None \<Rightarrow> Some (Some 1)
               | Some line \<Rightarrow> do { v \<leftarrow> line_value line; Some (Some (sscanf_d v 1)) }) })"

section \<open>The generator\<close>

definition instance_of_unit :: "ssg_globals \<Rightarrow> string \<Rightarrow> string option" where
  "instance_of_unit g unit_file =
     (if num_asics g = 1 \<and> strstr unit_file ''@'' then do {
        (prefix, r) \<leftarrow> strtok (\<lambda>ch. ch = CHR ''@'') unit_file;
        (suffix, _) \<leftarrow> strtok (\<lambda>ch. ch = CHR ''@'') r;
        Some (prefix @ suffix) }
      else Some unit_file)"

fun install_targets :: "refusal \<Rightarrow> ssg_globals \<Rightarrow> string \<Rightarrow> string \<Rightarrow> string list \<Rightarrow> fs \<Rightarrow> fs option" where
  "install_targets no g unit_instance install_dir [] fs = Some fs"
| "install_targets no g unit_instance install_dir (t # ts) fs = do {
     fs \<leftarrow> install_unit_file no g unit_instance t install_dir fs;
     install_targets no g unit_instance install_dir ts fs }"

fun install_units :: "refusal \<Rightarrow> ssg_globals \<Rightarrow> string \<Rightarrow> string list \<Rightarrow> fs \<Rightarrow> fs option" where
  "install_units no g install_dir [] fs = Some fs"
| "install_units no g install_dir (u # us) fs = do {
     unit_instance \<leftarrow> instance_of_unit g u;
     (targets, fs) \<leftarrow> get_install_targets no g unit_instance fs;
     fs \<leftarrow> (case targets of
             None \<Rightarrow> Some fs
           | Some ts \<Rightarrow> install_targets no g unit_instance install_dir ts fs);
     install_units no g install_dir us fs }"

definition ssg_main :: "refusal \<Rightarrow> string list \<Rightarrow> fs \<Rightarrow> (int \<times> fs) option" where
  "ssg_main no argv fs =
     (if length argv \<le> 1 then Some (1, fs)
      else do {
        asics \<leftarrow> get_num_of_asic no fs;
        case asics of
          None \<Rightarrow> Some (1, fs)
        | Some n \<Rightarrow>
            let install_dir = argv ! 1 @ ''/''
            in if length install_dir \<ge> PATH_MAX then None
               else do {
                 files \<leftarrow> get_unit_files no n fs;
                 case files of
                   None \<Rightarrow> Some (1, fs)
                 | Some (units, multi) \<Rightarrow>
                     map_option (\<lambda>fs. (0, fs))
                       (install_units no \<lparr> num_asics = n, multi_instance_services = multi \<rparr> install_dir units fs) } })"

section \<open>Bounds of the tables\<close>

lemma unit_lines_bounded:
  assumes "length multi \<le> length units" "length units \<le> 128"
  shows "\<exists>us ms. unit_lines asics units multi ls = Some (us, ms) \<and> length ms \<le> length us \<and> length us \<le> 128"
  using assms
proof (induction ls arbitrary: units multi)
  case (Cons l ls)
  let ?line = "strip_trailing_newline l"
  show ?case
  proof (cases "length units \<ge> 128 \<or> ?line = ''topology.service'' \<and> asics = 1")
    case True
    thus ?thesis using Cons by (auto simp: Let_def)
  next
    case False
    thus ?thesis using Cons.IH [of "multi @ [takeWhile (\<lambda>ch. ch \<noteq> CHR ''@'') ?line]" "units @ [?line]"]
        Cons.IH [of multi "units @ [?line]"] Cons.prems by (auto simp: Let_def)
  qed
qed simp

lemma from_line_bounded:
  "get_install_targets_from_line s ty n = Some ts \<Longrightarrow> n \<le> 48 \<Longrightarrow> n + length ts \<le> 48"
proof (induction s ty n arbitrary: ts rule: get_install_targets_from_line.induct)
  case (1 s ty n)
  show ?case using "1.prems" "1.IH"
    by (subst (asm) get_install_targets_from_line.simps)
       (fastforce split: option.splits if_splits prod.splits)
qed

lemma line_targets_bounded:
  "line_targets first suf n s = Some (suf', ts) \<Longrightarrow> n \<le> 48 \<Longrightarrow> n + length ts \<le> 48"
proof (induction first suf n s arbitrary: suf' ts rule: line_targets.induct)
  case (1 first suf n s)
  show ?case
  proof (cases "strtok (\<lambda>ch. ch = CHR ''='') s")
    case None
    thus ?thesis using "1.prems" by (simp add: line_targets.simps [of first suf n s])
  next
    case (Some tr)
    obtain token rest where tr: "tr = (token, rest)" by (cases tr)
    show ?thesis
    proof (cases first)
      case True
      thus ?thesis using "1.prems" "1.IH"(1) [OF Some tr [symmetric] True]
        by (simp add: line_targets.simps [of True suf n s] Some tr)
    next
      case False
      then obtain us where us: "get_install_targets_from_line token suf n = Some us"
        using "1.prems" by (auto simp: line_targets.simps [of False suf n s] Some tr split: option.splits)
      then obtain vs where "line_targets False suf (n + length us) rest = Some (suf', vs)" "ts = us @ vs"
        using "1.prems" False by (auto simp: line_targets.simps [of False suf n s] Some tr)
      thus ?thesis
        using "1.IH"(2) [OF Some tr [symmetric] _ us] False from_line_bounded [OF us "1.prems"(2)] by fastforce
    qed
  qed
qed

lemma lines_targets_bounded: "lines_targets suf n ls = Some ts \<Longrightarrow> n \<le> 48 \<Longrightarrow> n + length ts \<le> 48"
proof (induction ls arbitrary: suf n ts)
  case (Cons l ls)
  then obtain suf' us vs where 1: "line_targets True suf n l = Some (suf', us)"
      "lines_targets suf' (n + length us) ls = Some vs" "ts = us @ vs"
    by (auto split: option.splits)
  thus ?case using Cons.IH [OF 1(2)] line_targets_bounded [OF 1(1) Cons.prems(2)] by simp
qed simp

text \<open>
  The fixed arrays are large enough.  Reading the list of services never stores behind the
  arrays of units and of multi-instance services, whatever the file holds, and no unit file yields
  more targets than the array of the main function holds.
\<close>

theorem tables_bounded:
  "(\<exists>r. get_unit_files no n fs = Some r \<and>
      (case r of None \<Rightarrow> True | Some (us, ms) \<Rightarrow> length ms \<le> length us \<and> length us \<le> MAX_NUM_UNITS)) \<and>
   (case get_install_targets no g u fs of Some (Some ts, _) \<Rightarrow> length ts \<le> MAX_NUM_TARGETS | _ \<Rightarrow> True)"
proof
  have "\<exists>us ms. unit_lines n [] [] ls = Some (us, ms) \<and> length ms \<le> length us \<and> length us \<le> 128" for ls
    by (rule unit_lines_bounded) simp_all
  thus "\<exists>r. get_unit_files no n fs = Some r \<and>
      (case r of None \<Rightarrow> True | Some (us, ms) \<Rightarrow> length ms \<le> length us \<and> length us \<le> MAX_NUM_UNITS)"
    by (cases "fopen_r no fs CONFIG_FILE") (force simp: get_unit_files_def)+
  have "length ts \<le> 48" if "get_install_targets no g u fs = Some (Some ts, fs')" for ts fs'
  proof -
    have "\<exists>ls. lines_targets None 0 ls = Some ts"
      using that by (auto simp: get_install_targets_def Let_def bind_eq_Some_conv split: if_splits option.splits)
    then obtain ls where "lines_targets None 0 ls = Some ts" ..
    from lines_targets_bounded [OF this] show ?thesis by simp
  qed
  thus "case get_install_targets no g u fs of Some (Some ts, _) \<Rightarrow> length ts \<le> MAX_NUM_TARGETS | _ \<Rightarrow> True"
    by (auto split: option.split)
qed

section \<open>What a run installs\<close>

text \<open>
  The specification.  A list of links, each with the name of its target directory, its own name and
  the file it leads to, is laid over the file system: the directories exist, the first link of a
  name wins, everything else is as before.
\<close>

type_synonym links = "((string \<times> string) \<times> string) list"

definition link_path :: "string \<Rightarrow> string \<times> string \<Rightarrow> string" where
  "link_path dir tn = dir @ fst tn @ ''/'' @ snd tn"

definition overlay :: "string \<Rightarrow> links \<Rightarrow> fs \<Rightarrow> fs" where
  "overlay dir L fs = (\<lambda>p.
     if p \<in> set (map (\<lambda>l. dir @ fst (fst l)) L) then Some Dir
     else case map_of (map (\<lambda>l. (link_path dir (fst l), snd l)) L) p of Some src \<Rightarrow> Some (Link src) | None \<Rightarrow> fs p)"

definition inst :: "string \<Rightarrow> nat \<Rightarrow> string" where
  "inst name i = (case insert_instance_number name i of None \<Rightarrow> name | Some s \<Rightarrow> s)"

definition target_links :: "ssg_globals \<Rightarrow> string \<Rightarrow> string \<Rightarrow> links" where
  "target_links g u t =
     (if num_asics g > 1 \<and> strstr u ''@''
      then map (\<lambda>i. ((inst t i, inst u i), UNIT_FILE_PREFIX @ u)) [0 ..< nat (num_asics g)]
      else [((t, u), UNIT_FILE_PREFIX @ u)])"

text \<open>Whether the dependencies of a unit are rewritten, and its text afterwards.\<close>

definition dep_rewritten :: "ssg_globals \<Rightarrow> string \<Rightarrow> bool" where
  "dep_rewritten g u \<longleftrightarrow> num_asics g > 1 \<and> \<not> is_multi_instance_service g (takeWhile (\<lambda>ch. ch \<noteq> CHR ''.'') u)"

definition new_text :: "ssg_globals \<Rightarrow> fs \<Rightarrow> string \<Rightarrow> string option" where
  "new_text g fs u =
     (case fs (UNIT_FILE_PREFIX @ u) of
        Some (Reg text) \<Rightarrow> if dep_rewritten g u then dep_lines g False (file_lines text) else Some text
      | _ \<Rightarrow> None)"

definition rewrite_unit :: "ssg_globals \<Rightarrow> string \<Rightarrow> fs \<Rightarrow> fs" where
  "rewrite_unit g u fs =
     (case new_text g fs u of None \<Rightarrow> fs | Some text \<Rightarrow> fs(UNIT_FILE_PREFIX @ u \<mapsto> Reg text))"

definition unit_targets :: "ssg_globals \<Rightarrow> fs \<Rightarrow> string \<Rightarrow> string list option" where
  "unit_targets g fs u =
     Option.bind (new_text g fs u) (\<lambda>text. lines_targets None 0 (install_lines False 0 (file_lines text)))"

definition unit_links :: "ssg_globals \<Rightarrow> fs \<Rightarrow> string \<Rightarrow> links" where
  "unit_links g fs u = (case unit_targets g fs u of None \<Rightarrow> [] | Some ts \<Rightarrow> concat (map (target_links g u) ts))"

text \<open>
  A unit is well-formed if its file is there and can be read, its name has a suffix, no name has a
  slash, no path is too long, and the temporary file does not exist and is not below the
  installation directory.
\<close>

definition link_ok :: "string \<Rightarrow> (string \<times> string) \<times> string \<Rightarrow> bool" where
  "link_ok dir l \<longleftrightarrow> CHR ''/'' \<notin> set (fst (fst l)) \<and> CHR ''/'' \<notin> set (snd (fst l)) \<and>
     length (link_path dir (fst l)) < PATH_MAX \<and> length (snd l) < PATH_MAX"

definition unit_ready :: "ssg_globals \<Rightarrow> string \<Rightarrow> fs \<Rightarrow> string \<Rightarrow> bool" where
  "unit_ready g dir fs u \<longleftrightarrow>
     (let src = UNIT_FILE_PREFIX @ u; tmp = src @ ''.tmp''
      in CHR ''.'' \<in> set u \<and> length tmp < PATH_MAX \<and> take (length dir) tmp \<noteq> dir \<and>
         take (length dir) src \<noteq> dir \<and> fs tmp = None \<and>
         (case unit_targets g fs u of None \<Rightarrow> False | Some _ \<Rightarrow> True) \<and>
         list_all (link_ok dir) (unit_links g fs u))"

definition permits :: "refusal \<Rightarrow> bool" where
  "permits no \<longleftrightarrow> (\<forall>op p. \<not> no op p)"

lemma permitsD [simp]: "permits no \<Longrightarrow> \<not> no op p"
  by (simp add: permits_def)

definition fresh :: "string \<Rightarrow> fs \<Rightarrow> bool" where
  "fresh dir fs \<longleftrightarrow> (\<forall>p. fs (dir @ p) = None)"

text \<open>One link.\<close>

lemma overlay_beyond: "take (length dir) p \<noteq> dir \<Longrightarrow> overlay dir L fs p = fs p"
proof -
  assume a: "take (length dir) p \<noteq> dir"
  hence "p \<notin> set (map (\<lambda>l. dir @ fst (fst l)) L)" "p \<notin> fst ` set (map (\<lambda>l. (link_path dir (fst l), snd l)) L)"
    by (auto simp: link_path_def)
  thus ?thesis unfolding overlay_def by (simp add: map_of_eq_None_iff [THEN iffD2])
qed

lemma stat_plain: "(\<And>q. fs p \<noteq> Some (Link q)) \<Longrightarrow> stat fs p = fs p"
proof -
  assume a: "\<And>q. fs p \<noteq> Some (Link q)"
  hence "follow (Suc n) fs p = Some p" for n by (auto split: option.splits node.splits)
  from this [of 40] show ?thesis by (simp add: stat_def)
qed

lemma overlay_dir:
  assumes "fresh dir fs" "CHR ''/'' \<notin> set t"
  shows "overlay dir L fs (dir @ t) = (if t \<in> set (map (\<lambda>l. fst (fst l)) L) then Some Dir else None)"
proof -
  have "dir @ t \<notin> fst ` set (map (\<lambda>l. (link_path dir (fst l), snd l)) L)"
    using assms(2) by (auto simp: link_path_def)
  thus ?thesis using assms(1) unfolding overlay_def fresh_def by (auto simp: map_of_eq_None_iff [THEN iffD2])
qed

lemma overlay_snoc:
  assumes "fresh dir fs" "list_all (link_ok dir) L" "link_ok dir ((t, n), s)"
  shows "overlay dir (L @ [((t, n), s)]) fs =
    (let o1 = (overlay dir L fs)(dir @ t \<mapsto> Dir); dest = link_path dir (t, n)
     in if o1 dest = None then o1(dest \<mapsto> Link s) else o1)"
proof -
  let ?D = "set (map (\<lambda>l. dir @ fst (fst l)) L)" let ?m = "map_of (map (\<lambda>l. (link_path dir (fst l), snd l)) L)"
  let ?dest = "link_path dir (t, n)"
  have dest: "?dest \<noteq> dir @ t" "?dest \<notin> ?D"
    using assms(2) by (fastforce simp: link_path_def list_all_iff link_ok_def)+
  have f: "fs ?dest = None" using assms(1) by (simp add: fresh_def link_path_def)
  have app: "overlay dir (L @ [((t, n), s)]) fs p =
      (if p \<in> ?D \<or> p = dir @ t then Some Dir
       else case ?m p of Some src \<Rightarrow> Some (Link src)
         | None \<Rightarrow> if p = ?dest then Some (Link s) else fs p)" for p
    by (simp add: overlay_def map_add_def split: option.split)
  have base: "overlay dir L fs p =
      (if p \<in> ?D then Some Dir else case ?m p of Some src \<Rightarrow> Some (Link src) | None \<Rightarrow> fs p)" for p
    by (simp add: overlay_def)
  show ?thesis
  proof (cases "?m ?dest")
    case None
    have "overlay dir L fs ?dest = None" using None dest f by (simp add: base)
    thus ?thesis using dest None by (auto simp: app base Let_def fun_eq_iff split: option.split)
  next
    case (Some src)
    have "overlay dir L fs ?dest \<noteq> None" using Some dest by (simp add: base)
    thus ?thesis using dest Some by (auto simp: app base Let_def fun_eq_iff split: option.split)
  qed
qed

lemma create_symlink_overlay:
  assumes "permits no" "fresh dir fs" "list_all (link_ok dir) L" "link_ok dir ((t, n), UNIT_FILE_PREFIX @ u)"
    and "(case i of None \<Rightarrow> Some u | Some i \<Rightarrow> insert_instance_number u i) = Some n"
  shows "create_symlink no u t dir i (overlay dir L fs) =
    Some (0, overlay dir (L @ [((t, n), UNIT_FILE_PREFIX @ u)]) fs)"
proof -
  let ?o = "overlay dir L fs"
  have d: "?o (dir @ t) = (if t \<in> set (map (\<lambda>l. fst (fst l)) L) then Some Dir else None)"
    using overlay_dir [OF assms(2)] assms(4) by (simp add: link_ok_def)
  hence st: "stat ?o (dir @ t) = ?o (dir @ t)" by (intro stat_plain) simp
  have len: "length (UNIT_FILE_PREFIX @ u) < PATH_MAX" "length (link_path dir (t, n)) < PATH_MAX"
    using assms(4) by (simp_all add: link_ok_def)
  have p: "link_path dir (t, n) = (dir @ t) @ ''/'' @ n" by (simp add: link_path_def)
  show ?thesis unfolding overlay_snoc [OF assms(2-4)]
  proof (cases "?o (dir @ t)")
    case None
    show "create_symlink no u t dir i ?o = Some (0, let o1 = ?o(dir @ t \<mapsto> Dir); dest = link_path dir (t, n)
        in if o1 dest = None then o1(dest \<mapsto> Link (UNIT_FILE_PREFIX @ u)) else o1)"
      using None st len assms(1,5) by (simp add: create_symlink_def mkdir_def p Let_def)
  next
    case (Some x)
    hence x: "?o (dir @ t) = Some Dir" using d by (simp split: if_splits)
    hence "?o(dir @ t \<mapsto> Dir) = ?o" by (simp add: fun_upd_idem)
    thus "create_symlink no u t dir i ?o = Some (0, let o1 = ?o(dir @ t \<mapsto> Dir); dest = link_path dir (t, n)
        in if o1 dest = None then o1(dest \<mapsto> Link (UNIT_FILE_PREFIX @ u)) else o1)"
      using x st len assms(1,5) by (simp add: create_symlink_def p Let_def)
  qed
qed

lemma overlay_upd:
  assumes "take (length dir) p \<noteq> dir"
  shows "(overlay dir L fs)(p \<mapsto> x) = overlay dir L (fs(p \<mapsto> x))"
proof
  fix q
  show "((overlay dir L fs)(p \<mapsto> x)) q = overlay dir L (fs(p \<mapsto> x)) q"
    using overlay_beyond [OF assms] by (cases "q = p") (simp_all add: overlay_def split: option.split)
qed

lemma inst_target:
  "(if CHR ''@'' \<in> set t then insert_instance_number t i else Some t) = Some (inst t i)"
  by (simp add: inst_def insert_instance_number_def)

lemma install_instances_overlay:
  assumes "permits no" "fresh dir fs" "CHR ''@'' \<in> set u"
    and "list_all (link_ok dir) (L @ map (\<lambda>i. ((inst t i, inst u i), UNIT_FILE_PREFIX @ u)) is)"
  shows "install_instances no u t dir is (overlay dir L fs) =
    Some (overlay dir (L @ map (\<lambda>i. ((inst t i, inst u i), UNIT_FILE_PREFIX @ u)) is) fs)"
  using assms(4)
proof (induction "is" arbitrary: L)
  case (Cons i "is")
  have "insert_instance_number u i = Some (inst u i)"
    using inst_target [of u i] assms(3) by simp
  hence "create_symlink no u (inst t i) dir (Some i) (overlay dir L fs) =
      Some (0, overlay dir (L @ [((inst t i, inst u i), UNIT_FILE_PREFIX @ u)]) fs)"
    using Cons.prems by (intro create_symlink_overlay [OF assms(1,2)]) simp_all
  thus ?case using Cons by (simp add: inst_target)
qed simp

lemma install_unit_file_overlay:
  assumes "permits no" "fresh dir fs" "list_all (link_ok dir) (L @ target_links g u t)"
  shows "install_unit_file no g u t dir (overlay dir L fs) = Some (overlay dir (L @ target_links g u t) fs)"
proof (cases "num_asics g > 1 \<and> strstr u ''@''")
  case True
  thus ?thesis using assms install_instances_overlay [OF assms(1,2), of u L t]
    by (simp add: install_unit_file_def target_links_def strstr_single)
next
  case False
  thus ?thesis using assms(3) create_symlink_overlay [OF assms(1,2), of L t u u None]
    by (auto simp: install_unit_file_def target_links_def)
qed

lemma install_targets_overlay:
  assumes "permits no" "fresh dir fs" "list_all (link_ok dir) (L @ concat (map (target_links g u) ts))"
  shows "install_targets no g u dir ts (overlay dir L fs) =
    Some (overlay dir (L @ concat (map (target_links g u) ts)) fs)"
  using assms(3)
proof (induction ts arbitrary: L)
  case (Cons t ts)
  have "install_unit_file no g u t dir (overlay dir L fs) = Some (overlay dir (L @ target_links g u t) fs)"
    using Cons.prems by (intro install_unit_file_overlay [OF assms(1,2)]) simp
  thus ?case using Cons.IH [of "L @ target_links g u t"] Cons.prems by simp
qed simp

lemma unit_read:
  assumes "permits no" "fs src = Some (Reg text)"
  shows "fopen_r no fs src = Some text"
  using assms stat_plain [of fs src] by (simp add: fopen_r_def)

lemma replace_overlay:
  assumes "permits no" "fs src = Some (Reg text)" "fs (src @ ''.tmp'') = None" "length (src @ ''.tmp'') < PATH_MAX"
    and "dep_lines g False (file_lines text) = Some out"
  shows "replace_multi_inst_dep no g src fs = Some (fs(src \<mapsto> Reg out))"
proof -
  let ?tmp = "src @ ''.tmp''"
  have "follow 41 fs ?tmp = Some ?tmp" using assms(3) by (simp add: numeral_eq_Suc)
  hence w: "write_file no fs ?tmp out = Some (fs(?tmp \<mapsto> Reg out))" using assms(1,3) by (simp add: write_file_def)
  have ne: "src \<noteq> ?tmp" by simp
  have "(fs(src := None, src \<mapsto> Reg out))(?tmp := None) = fs(src \<mapsto> Reg out)" using assms(3) by auto
  thus ?thesis using assms(1,2,4,5) ne w unit_read [of no fs src]
    by (simp add: replace_multi_inst_dep_def unlink_path_def rename_def snprintf_short fun_upd_twist [OF ne] Let_def)
qed

lemma get_install_targets_overlay:
  assumes "permits no" "unit_ready g dir fs u"
  shows "get_install_targets no g u (overlay dir L fs) =
    Some (unit_targets g fs u, overlay dir L (rewrite_unit g u fs))"
proof -
  let ?src = "UNIT_FILE_PREFIX @ u" let ?o = "overlay dir L fs"
  have r: "CHR ''.'' \<in> set u" "length (?src @ ''.tmp'') < PATH_MAX" "take (length dir) (?src @ ''.tmp'') \<noteq> dir"
      "take (length dir) ?src \<noteq> dir" "fs (?src @ ''.tmp'') = None"
    using assms(2) by (simp_all add: unit_ready_def Let_def)
  obtain new ts where new: "new_text g fs u = Some new"
      and ts: "lines_targets None 0 (install_lines False 0 (file_lines new)) = Some ts"
    using assms(2) by (auto simp: unit_ready_def unit_targets_def Let_def bind_eq_Some_conv split: option.splits)
  then obtain old where old: "fs ?src = Some (Reg old)"
    by (auto simp: new_text_def split: option.splits node.splits)
  have ov: "?o ?src = Some (Reg old)" "?o (?src @ ''.tmp'') = None"
    using overlay_beyond [OF r(4)] overlay_beyond [OF r(3)] old r(5) by simp_all
  have "(if dep_rewritten g u then replace_multi_inst_dep no g ?src ?o else Some ?o) = Some (?o(?src \<mapsto> Reg new))"
    using replace_overlay [OF assms(1) ov r(2), of g new] new old ov(1)
    by (auto simp: new_text_def fun_upd_idem)
  moreover have "get_target_lines no (?o(?src \<mapsto> Reg new)) ?src = Some (install_lines False 0 (file_lines new))"
    using unit_read [OF assms(1), of "?o(?src \<mapsto> Reg new)" ?src new] by (simp add: get_target_lines_def)
  moreover have "?o(?src \<mapsto> Reg new) = overlay dir L (rewrite_unit g u fs)"
    using overlay_upd [OF r(4)] by (simp add: rewrite_unit_def new)
  ultimately show ?thesis using r(1,2) ts new
    by (simp add: get_install_targets_def dep_rewritten_def unit_targets_def Let_def)
qed

lemma ready_file: "unit_ready g dir fs u \<Longrightarrow> fs (UNIT_FILE_PREFIX @ u) \<noteq> None"
  by (auto simp: unit_ready_def unit_targets_def new_text_def Let_def split: option.splits)

lemma rewrite_unit_apply:
  "p \<noteq> UNIT_FILE_PREFIX @ u \<Longrightarrow> rewrite_unit g u fs p = fs p"
  by (simp add: rewrite_unit_def split: option.split)

lemma rewrite_unit_other:
  assumes "unit_ready g dir fs u" "unit_ready g dir fs v" "u \<noteq> v"
  shows "unit_links g (rewrite_unit g u fs) v = unit_links g fs v" "unit_ready g dir (rewrite_unit g u fs) v"
proof -
  have "UNIT_FILE_PREFIX @ v @ ''.tmp'' \<noteq> UNIT_FILE_PREFIX @ u"
    using ready_file [OF assms(1)] assms(2) by (auto simp: unit_ready_def Let_def)
  hence tmp: "rewrite_unit g u fs (UNIT_FILE_PREFIX @ v @ ''.tmp'') = fs (UNIT_FILE_PREFIX @ v @ ''.tmp'')"
    by (rule rewrite_unit_apply)
  have "new_text g (rewrite_unit g u fs) v = new_text g fs v"
    using assms(3) by (simp add: new_text_def rewrite_unit_apply)
  hence t: "unit_targets g (rewrite_unit g u fs) v = unit_targets g fs v" by (simp add: unit_targets_def)
  thus l: "unit_links g (rewrite_unit g u fs) v = unit_links g fs v" by (simp add: unit_links_def)
  show "unit_ready g dir (rewrite_unit g u fs) v" using assms(2) tmp unfolding unit_ready_def Let_def t l by simp
qed

lemma rewrite_unit_fresh: "fresh dir fs \<Longrightarrow> unit_ready g dir fs u \<Longrightarrow> fresh dir (rewrite_unit g u fs)"
  unfolding fresh_def
proof
  fix p
  assume f: "\<forall>p. fs (dir @ p) = None" and r: "unit_ready g dir fs u"
  have "dir @ p \<noteq> UNIT_FILE_PREFIX @ u"
    using ready_file [OF r] f by (metis)
  thus "rewrite_unit g u fs (dir @ p) = None" using f by (simp add: rewrite_unit_apply)
qed

lemma install_units_overlay:
  assumes "permits no" "map (instance_of_unit g) us = map Some vs" "distinct vs"
    and "list_all (unit_ready g dir fs) vs" "fresh dir fs" "list_all (link_ok dir) L"
  shows "install_units no g dir us (overlay dir L fs) =
    Some (overlay dir (L @ concat (map (unit_links g fs) vs)) (fold (rewrite_unit g) vs fs))"
  using assms(2-6)
proof (induction vs arbitrary: us L fs)
  case (Cons v vs)
  obtain u us' where us: "us = u # us'" "instance_of_unit g u = Some v" "map (instance_of_unit g) us' = map Some vs"
    using Cons.prems(1) by (cases us) auto
  have ready: "unit_ready g dir fs v" using Cons.prems(3) by simp
  let ?fs = "rewrite_unit g v fs" let ?L = "L @ unit_links g fs v"
  have ok: "list_all (link_ok dir) ?L" using ready Cons.prems(5) by (simp add: unit_ready_def Let_def)
  have fresh: "fresh dir ?fs" using rewrite_unit_fresh Cons.prems(4) ready by blast
  have rest: "list_all (unit_ready g dir ?fs) vs" "map (unit_links g ?fs) vs = map (unit_links g fs) vs"
    using rewrite_unit_other [OF ready] Cons.prems(2,3) by (auto simp: list_all_iff)
  obtain ts where ts: "unit_targets g fs v = Some ts"
    using ready by (auto simp: unit_ready_def Let_def split: option.splits)
  have "install_targets no g v dir ts (overlay dir L ?fs) = Some (overlay dir ?L ?fs)"
    using install_targets_overlay [OF assms(1) fresh, of L g v ts] ok by (simp add: unit_links_def ts)
  hence "install_units no g dir us (overlay dir L fs) = install_units no g dir us' (overlay dir ?L ?fs)"
    using get_install_targets_overlay [OF assms(1) ready, of L] by (simp add: us ts)
  also have "... = Some (overlay dir (?L @ concat (map (unit_links g ?fs) vs)) (fold (rewrite_unit g) vs ?fs))"
    using Cons.IH [OF us(3) _ rest(1) fresh ok] Cons.prems(2) by simp
  finally show ?case by (simp add: rest(2))
qed simp

text \<open>
  C38. A run of the generator installs exactly the units of the image.  On a switch with any positive
  number of ASICs whose unit files are well-formed, starting from an empty installation directory,
  it returns 0, and the file system afterwards is the former one with these changes: below the
  installation directory there is, for every unit and every target its \<open>[Install]\<close> section names, the
  directory of the target and in it a link of the unit's name to the unit file (on several ASICs one
  link per ASIC for a template unit); and the unit files of services that are not multi-instance
  have their dependencies rewritten if there are several ASICs.
\<close>

theorem generator_installs:
  assumes "permits no" "get_num_of_asic no fs = Some (Some n)" "get_unit_files no n fs = Some (Some (us, ms))"
    and "g = \<lparr> num_asics = n, multi_instance_services = ms \<rparr>" "dir = d @ ''/''" "length dir < PATH_MAX"
    and "map (instance_of_unit g) us = map Some vs" "distinct vs"
    and "list_all (unit_ready g dir fs) vs" "fresh dir fs"
  shows "ssg_main no [prog, d] fs =
    Some (0, overlay dir (concat (map (unit_links g fs) vs)) (fold (rewrite_unit g) vs fs))"
proof -
  have "overlay dir [] fs = fs" by (simp add: overlay_def)
  hence "install_units no g dir us fs =
      Some (overlay dir (concat (map (unit_links g fs) vs)) (fold (rewrite_unit g) vs fs))"
    using install_units_overlay [OF assms(1,7-10), of "[]"] by simp
  thus ?thesis using assms(2-6) by (simp add: ssg_main_def Let_def)
qed

text \<open>
  A unit file that is missing is an error message on a switch with one ASIC, where the generator
  goes on with the next unit; with several ASICs a missing service that is not multi-instance makes
  it read through a null file pointer, and no later unit is installed.
\<close>

theorem missing_unit:
  assumes "fs (UNIT_FILE_PREFIX @ u) = None" "CHR ''.'' \<in> set u" "length (UNIT_FILE_PREFIX @ u) < PATH_MAX"
    and "instance_of_unit g v = Some u"
  shows "install_units no g dir (v # us) fs =
    (if num_asics g > 1 \<and> \<not> is_multi_instance_service g (takeWhile (\<lambda>ch. ch \<noteq> CHR ''.'') u)
     then None else install_units no g dir us fs)"
proof -
  have "fopen_r no fs (UNIT_FILE_PREFIX @ u) = None"
    using assms(1) stat_plain [of fs "UNIT_FILE_PREFIX @ u"] by (simp add: fopen_r_def)
  thus ?thesis using assms(2-4)
    by (simp add: get_install_targets_def replace_multi_inst_dep_def get_target_lines_def Let_def)
qed

section \<open>Unit files as text\<close>

text \<open>
  The unit files of the image: descriptions and lists of unit names, each a name and a type, in the
  sections \<open>[Unit]\<close> and \<open>[Install]\<close>, and any lines in the section between them.
\<close>

datatype unit_line = Descr string | Names string "(string \<times> string) list"

fun unwords :: "string list \<Rightarrow> string" where
  "unwords [] = []"
| "unwords [w] = w"
| "unwords (w # ws) = w @ '' '' @ unwords ws"

definition unit_name :: "string \<times> string \<Rightarrow> string" where
  "unit_name w = fst w @ ''.'' @ snd w"

fun print_line :: "unit_line \<Rightarrow> string" where
  "print_line (Descr s) = ''Description='' @ s"
| "print_line (Names key ws) = key @ ''='' @ unwords (map unit_name ws)"

definition newline :: "string \<Rightarrow> string" where
  "newline l = l @ [CHR 0x0A]"

definition unit_lines_of :: "unit_line list \<Rightarrow> string list \<Rightarrow> unit_line list \<Rightarrow> string list" where
  "unit_lines_of us body ins =
     ''[Unit]'' # map print_line us @ ''[Service]'' # body @ ''[Install]'' # map print_line ins"

definition unit_file_text :: "unit_line list \<Rightarrow> string list \<Rightarrow> unit_line list \<Rightarrow> string" where
  "unit_file_text us body ins = concat (map newline (unit_lines_of us body ins))"

text \<open>The specification of the rewriting: one line per name, and one per ASIC for a multi-instance service.\<close>

definition name_instances :: "ssg_globals \<Rightarrow> string \<times> string \<Rightarrow> (string \<times> string) list" where
  "name_instances g w =
     (if is_multi_instance_service g (unit_name w)
      then map (\<lambda>i. (fst w @ ''@'' @ dec_string i, snd w)) [0 ..< nat (num_asics g)] else [w])"

fun expand :: "ssg_globals \<Rightarrow> unit_line \<Rightarrow> unit_line list" where
  "expand g (Descr s) = [Descr s]"
| "expand g (Names key ws) = map (\<lambda>w. Names key [w]) (concat (map (name_instances g) ws))"

text \<open>What the names and lines may consist of.\<close>

definition plain :: "string \<Rightarrow> bool" where
  "plain s \<longleftrightarrow> s \<noteq> [] \<and> CHR 0x00 \<notin> set s \<and> CHR 0x0A \<notin> set s \<and> CHR '' '' \<notin> set s \<and> CHR ''='' \<notin> set s \<and>
     CHR ''['' \<notin> set s \<and> CHR ''%'' \<notin> set s"

definition name_ok :: "string \<times> string \<Rightarrow> bool" where
  "name_ok w \<longleftrightarrow> plain (fst w) \<and> plain (snd w) \<and> CHR ''.'' \<notin> set (fst w) \<and> CHR ''@'' \<notin> set (unit_name w) \<and>
     length (unit_name w) < 200"

definition line_ok :: "string \<Rightarrow> bool" where
  "line_ok l \<longleftrightarrow> CHR 0x00 \<notin> set l \<and> CHR 0x0A \<notin> set l \<and> \<not> strstr l ''[Install]''"

fun unit_line_ok :: "unit_line \<Rightarrow> bool" where
  "unit_line_ok (Descr s) = (CHR 0x00 \<notin> set s \<and> CHR 0x0A \<notin> set s \<and> CHR ''['' \<notin> set s)"
| "unit_line_ok (Names key ws) =
     (plain key \<and> length key < 100 \<and> ws \<noteq> [] \<and> list_all name_ok ws \<and>
      \<not> strstr (print_line (Names key ws)) ''Description'')"

lemma getlines_newlines:
  "list_all (\<lambda>l. CHR 0x0A \<notin> set l) ls \<Longrightarrow> getlines (concat (map newline ls)) = map newline ls"
proof (induction ls)
  case (Cons l ls)
  have "getlines (l @ CHR 0x0A # concat (map newline ls)) = (l @ [CHR 0x0A]) # getlines (concat (map newline ls))"
    using Cons.prems by (intro getlines_line) auto
  thus ?case using Cons by (simp add: newline_def [of l])
qed simp

lemma file_lines_newlines:
  assumes "list_all (\<lambda>l. CHR 0x00 \<notin> set l \<and> CHR 0x0A \<notin> set l) ls"
  shows "file_lines (concat (map newline ls)) = map newline ls"
proof -
  have "list_all (\<lambda>l. CHR 0x0A \<notin> set l) ls" using assms by (auto simp: list_all_iff)
  hence "file_lines (concat (map newline ls)) = map (\<lambda>l. c_str (newline l)) ls"
    by (simp add: file_lines_def getlines_newlines comp_def)
  also have "... = map newline ls"
    using assms by (auto simp: list_all_iff c_str_def newline_def takeWhile_eq_all_conv)
  finally show ?thesis .
qed

lemma strstr_needs: "strstr s t \<Longrightarrow> ch \<in> set t \<Longrightarrow> ch \<in> set s"
  by (auto simp: strstr_iff)

lemma unwords_chars: "set (unwords ws) \<subseteq> insert (CHR '' '') (\<Union> (set ` set ws))"
  by (induction ws rule: unwords.induct) auto

lemma unwords_append: "ws \<noteq> [] \<Longrightarrow> unwords (w # ws) = w @ '' '' @ unwords ws"
  by (cases ws) simp_all

text \<open>Reading the words of a line.\<close>

lemma strtok_newline_word:
  assumes "plain w"
  shows "strtok (\<lambda>ch. ch = CHR '' '') (newline w) = Some (newline w, [])"
  using strtok_token(2) [of "newline w" "\<lambda>ch. ch = CHR '' ''" "CHR '' ''"] assms
  by (auto simp: newline_def plain_def)

lemma strtok_word:
  assumes "plain w"
  shows "strtok (\<lambda>ch. ch = CHR '' '') (w @ CHR '' '' # r) = Some (w, r)"
  using strtok_token(1) [of w "\<lambda>ch. ch = CHR '' ''" "CHR '' ''"] assms
  by (auto simp: plain_def)

lemma strip_newline [simp]: "strip_trailing_newline (newline w) = w"
  by (simp add: strip_trailing_newline_def newline_def)

lemma strip_plain: "plain w \<Longrightarrow> strip_trailing_newline w = w"
  unfolding strip_trailing_newline_def plain_def by (metis last_in_set)

lemma final_target_plain:
  assumes "plain w" "length w + length ty < PATH_MAX" "strip_trailing_newline w' = w"
  shows "final_target w' (Some ty) = Some (w @ ty)"
proof -
  have "\<not> strstr w ''%''" using assms(1) by (simp add: strstr_single plain_def)
  thus ?thesis using assms(2,3) by (simp add: final_target_def Let_def)
qed

lemma from_line_words:
  assumes "ws \<noteq> []" "list_all plain ws" "list_all (\<lambda>w. length w + length ty < PATH_MAX) ws" "n + length ws \<le> 48"
  shows "get_install_targets_from_line (newline (unwords ws)) (Some ty) n = Some (map (\<lambda>w. w @ ty) ws)"
  using assms
proof (induction ws arbitrary: n rule: unwords.induct)
  case (2 w)
  have "get_install_targets_from_line [] (Some ty) (n + 1) = Some []"
    by (simp add: get_install_targets_from_line.simps [of "[]"] strtok_def)
  thus ?case using 2 final_target_plain [of w ty "newline w"]
    by (simp add: get_install_targets_from_line.simps [of "newline w"] strtok_newline_word)
next
  case (3 w v vs)
  have "newline (unwords (w # v # vs)) = w @ CHR '' '' # newline (unwords (v # vs))" by (simp add: newline_def)
  thus ?case using 3 final_target_plain [of w ty w]
    by (simp add: strip_plain
        get_install_targets_from_line.simps [of "w @ CHR '' '' # newline (unwords (v # vs))"] strtok_word)
qed simp

text \<open>The directories a line of the \<open>[Install]\<close> section asks for.\<close>

definition suffix_of :: "string \<Rightarrow> string" where
  "suffix_of key = (if strstr key ''RequiredBy'' then ''.requires'' else ''.wants'')"

fun line_dirs :: "unit_line \<Rightarrow> string list" where
  "line_dirs (Descr s) = []"
| "line_dirs (Names key ws) = map (\<lambda>w. unit_name w @ suffix_of key) ws"

fun install_line_ok :: "unit_line \<Rightarrow> bool" where
  "install_line_ok (Descr s) = False"
| "install_line_ok (Names key ws) =
     (plain key \<and> (strstr key ''RequiredBy'' \<or> strstr key ''WantedBy'') \<and> ws \<noteq> [] \<and>
      list_all (\<lambda>w. plain (unit_name w) \<and> length (unit_name w) < 4000) ws)"

lemma plain_words: "ws \<noteq> [] \<Longrightarrow> list_all plain ws \<Longrightarrow> CHR ''='' \<notin> set (unwords ws) \<and> CHR ''['' \<notin> set (unwords ws) \<and>
    CHR 0x00 \<notin> set (unwords ws) \<and> CHR 0x0A \<notin> set (unwords ws)"
  by (induction ws rule: unwords.induct) (simp_all add: plain_def)

lemma line_targets_names:
  assumes "install_line_ok l" "n + length (line_dirs l) \<le> 48"
  shows "\<exists>suf'. line_targets True suf n (newline (print_line l)) = Some (suf', line_dirs l)"
proof (cases l)
  case (Names key ws)
  let ?eq = "\<lambda>ch. ch = CHR ''=''" let ?ns = "map unit_name ws" let ?r = "newline (unwords ?ns)"
  have ok: "plain key" "?ns \<noteq> []" "list_all plain ?ns" "list_all (\<lambda>w. length w < 4000) ?ns"
    using assms(1) by (simp_all add: Names list_all_iff)
  have key: "strtok ?eq (key @ CHR ''='' # ?r) = Some (key, ?r)"
    using strtok_token(1) [of key ?eq "CHR ''=''"] ok(1) by (auto simp: plain_def)
  have rest: "strtok ?eq ?r = Some (?r, [])"
    using strtok_token(2) [of ?r ?eq "CHR ''=''"] plain_words [OF ok(2,3)] by (auto simp: newline_def)
  have "list_all (\<lambda>w. length w + length (suffix_of key) < PATH_MAX) ?ns"
    using ok(4) by (auto simp: list_all_iff suffix_of_def)
  hence targets: "get_install_targets_from_line ?r (Some (suffix_of key)) n = Some (map (\<lambda>w. w @ suffix_of key) ?ns)"
    using ok(2,3) assms(2) by (intro from_line_words) (simp_all add: Names)
  have nil: "line_targets False suf k [] = Some (suf, [])" for suf k
    by (simp add: line_targets.simps [of _ _ _ "[]"] strtok_def)
  have suf: "(if strstr key ''RequiredBy'' then Some ''.requires''
      else if strstr key ''WantedBy'' then Some ''.wants'' else suf) = Some (suffix_of key)"
    using assms(1) by (auto simp: Names suffix_of_def)
  have "line_targets True suf n (key @ CHR ''='' # ?r) = Some (Some (suffix_of key), map (\<lambda>w. w @ suffix_of key) ?ns)"
    unfolding line_targets.simps [of True suf n "key @ CHR ''='' # ?r"] key
    by (simp add: suf line_targets.simps [of False _ n ?r] rest targets nil)
  thus ?thesis by (simp add: Names newline_def comp_def)
qed (use assms in simp)

lemma lines_targets_names:
  assumes "list_all install_line_ok ls" "n + length (concat (map line_dirs ls)) \<le> 48"
  shows "lines_targets suf n (map (\<lambda>l. newline (print_line l)) ls) = Some (concat (map line_dirs ls))"
  using assms
proof (induction ls arbitrary: suf n)
  case (Cons l ls)
  obtain suf' where "line_targets True suf n (newline (print_line l)) = Some (suf', line_dirs l)"
    using line_targets_names [of l n suf] Cons.prems by auto
  thus ?case using Cons by simp
qed simp

lemma install_line_no_header: "install_line_ok l \<Longrightarrow> CHR ''['' \<notin> set (newline (print_line l))"
  using plain_words [of "map unit_name ws" for ws] by (cases l) (auto simp: newline_def plain_def list_all_iff)

lemma install_lines_pre:
  "list_all (\<lambda>l. \<not> strstr l ''[Install]'') ls \<Longrightarrow> install_lines False n (ls @ ms) = install_lines False n ms"
  by (induction ls) simp_all

lemma install_lines_post:
  "list_all (\<lambda>l. \<not> strstr l ''[Install]'') ls \<Longrightarrow> n + length ls \<le> 48 \<Longrightarrow> install_lines True n ls = ls"
  by (induction ls arbitrary: n) simp_all

lemma strstr_newline:
  assumes "CHR 0x0A \<notin> set t"
  shows "strstr (newline s) t = strstr s t"
proof
  assume "strstr (newline s) t"
  then obtain a b where ab: "s @ [CHR 0x0A] = a @ t @ b" by (auto simp: strstr_iff newline_def)
  show "strstr s t"
  proof (cases b rule: rev_cases)
    case Nil
    hence "t = []" using ab assms by (cases t rule: rev_cases) (auto simp flip: append_assoc)
    thus ?thesis by (auto simp: strstr_iff)
  next
    case (snoc b' ch)
    hence "s = a @ t @ b'" using ab by (simp flip: append_assoc)
    thus ?thesis unfolding strstr_iff by blast
  qed
next
  assume "strstr s t"
  thus "strstr (newline s) t" unfolding strstr_iff newline_def by fastforce
qed

lemma print_line_chars:
  "install_line_ok l \<or> unit_line_ok l \<Longrightarrow> CHR 0x00 \<notin> set (print_line l) \<and> CHR 0x0A \<notin> set (print_line l)"
proof (cases l)
  case (Names key ws)
  assume "install_line_ok l \<or> unit_line_ok l"
  hence "plain key" "map unit_name ws \<noteq> []" "list_all plain (map unit_name ws)"
    by (auto simp: Names list_all_iff name_ok_def plain_def unit_name_def)
  thus ?thesis using plain_words [of "map unit_name ws"] by (simp add: Names plain_def)
qed auto

lemma install_section_targets:
  assumes "list_all line_ok pre" "list_all install_line_ok ins" "length ins \<le> 48"
    and "length (concat (map line_dirs ins)) \<le> 48"
  shows "lines_targets None 0 (install_lines False 0
      (file_lines (concat (map newline (pre @ ''[Install]'' # map print_line ins))))) = Some (concat (map line_dirs ins))"
proof -
  have "list_all (\<lambda>l. CHR 0x00 \<notin> set l \<and> CHR 0x0A \<notin> set l) (pre @ ''[Install]'' # map print_line ins)"
    using print_line_chars assms(1,2) by (auto simp: list_all_iff line_ok_def)
  from file_lines_newlines [OF this]
  have "file_lines (concat (map newline (pre @ ''[Install]'' # map print_line ins))) =
      map newline pre @ newline ''[Install]'' # map (\<lambda>l. newline (print_line l)) ins"
    by (simp add: comp_def)
  moreover have "list_all (\<lambda>l. \<not> strstr l ''[Install]'') (map newline pre)"
    using assms(1) by (simp add: list_all_iff line_ok_def strstr_newline)
  moreover have "list_all (\<lambda>l. \<not> strstr l ''[Install]'') (map (\<lambda>l. newline (print_line l)) ins)"
    using assms(2) install_line_no_header strstr_needs [of _ "''[Install]''" "CHR ''[''"] by (auto simp: list_all_iff)
  moreover have "strstr (newline ''[Install]'') ''[Install]''" by (simp add: newline_def)
  ultimately have "install_lines False 0 (file_lines (concat (map newline (pre @ ''[Install]'' # map print_line ins)))) =
      map (\<lambda>l. newline (print_line l)) ins"
    using assms(3) by (simp add: install_lines_pre install_lines_post del: strstr.simps)
  thus ?thesis using lines_targets_names [of ins 0 None] assms(2,4) by simp
qed

text \<open>
  C40. The targets of a unit are the ones its file names.  For every unit file that is printed from
  lines of names behind \<open>WantedBy\<close> and \<open>RequiredBy\<close> and whose dependencies are not rewritten, the
  generator finds the directory of each name, in the order of the file, and changes nothing.
\<close>

theorem install_section_read:
  assumes "permits no" "fs (UNIT_FILE_PREFIX @ u) = Some (Reg (concat (map newline (pre @ ''[Install]'' # map print_line ins))))"
    and "CHR ''.'' \<in> set u" "length (UNIT_FILE_PREFIX @ u) < PATH_MAX" "\<not> dep_rewritten g u"
    and "list_all line_ok pre" "list_all install_line_ok ins" "length ins \<le> 48" "length (concat (map line_dirs ins)) \<le> 48"
  shows "get_install_targets no g u fs = Some (Some (concat (map line_dirs ins)), fs)"
  using unit_read [of no fs "UNIT_FILE_PREFIX @ u"] install_section_targets [OF assms(6-9)] assms(1-5)
  by (auto simp: get_install_targets_def get_target_lines_def dep_rewritten_def Let_def)

section \<open>Rewritten unit files\<close>

lemma dec_string_length: "length (dec_string n) \<le> n + 1"
proof (induction n rule: dec_string.induct)
  case (1 n)
  thus ?case by (cases "n < 10") (auto simp: dec_string.simps [of n])
qed

definition services_ok :: "ssg_globals \<Rightarrow> bool" where
  "services_ok g \<longleftrightarrow> num_asics g \<le> 100 \<and> list_all (\<lambda>m. CHR 0x0A \<notin> set m) (multi_instance_services g)"

lemma multi_newline: "services_ok g \<Longrightarrow> is_multi_instance_service g (newline s) = is_multi_instance_service g s"
  by (auto simp: is_multi_instance_service_def services_ok_def list_ex_iff list_all_iff strstr_newline)

definition expanded :: "ssg_globals \<Rightarrow> string \<Rightarrow> string \<times> string \<Rightarrow> string" where
  "expanded g key w = concat (map (\<lambda>v. newline (print_line (Names key [v]))) (name_instances g w))"

lemma dep_word_name:
  assumes "services_ok g" "name_ok w" "length key < 100" "w' = unit_name w \<or> w' = newline (unit_name w)"
  shows "dep_word g key w' = Some (expanded g key w)"
proof -
  obtain n t where w: "w = (n, t)" by (cases w)
  have n: "n \<noteq> []" "CHR ''.'' \<notin> set n" "plain t" "CHR ''@'' \<notin> set n" "CHR ''@'' \<notin> set t" "length n + length t < 200"
    using assms(2) by (auto simp: name_ok_def w unit_name_def plain_def)
  have name: "strtok (\<lambda>ch. ch = CHR ''.'') (n @ CHR ''.'' # r) = Some (n, r)" for r
    using strtok_token(1) [of n "\<lambda>ch. ch = CHR ''.''" "CHR ''.''"] n(1,2) by auto
  have type: "strtok (\<lambda>ch. ch = CHR 0x0A) t = Some (t, [])" "strtok (\<lambda>ch. ch = CHR 0x0A) (t @ [CHR 0x0A]) = Some (t, [])"
    using strtok_token [of t "\<lambda>ch. ch = CHR 0x0A" "CHR 0x0A"] n(3) by (auto simp: plain_def)
  have multi: "is_multi_instance_service g w' = is_multi_instance_service g (unit_name w)"
    using assms(4) multi_newline [OF assms(1)] by auto
  have "snprintf 512 (key @ ''='' @ n @ ''.'' @ t @ [CHR 0x0A]) = newline (print_line (Names key [w]))"
    using n(6) assms(3) by (simp add: snprintf_short newline_def w unit_name_def)
  moreover have "snprintf 512 (key @ ''='' @ n @ ''@'' @ dec_string i @ ''.'' @ t @ [CHR 0x0A]) =
      newline (print_line (Names key [(n @ ''@'' @ dec_string i, t)]))" if "i < nat (num_asics g)" for i
  proof -
    have "i < 100" using that assms(1) by (auto simp: services_ok_def)
    thus ?thesis using n(6) assms(3) dec_string_length [of i]
      by (simp add: snprintf_short newline_def unit_name_def)
  qed
  ultimately have out: "(if is_multi_instance_service g w'
       then concat (map (\<lambda>i. snprintf MAX_BUF_SIZE (key @ ''='' @ n @ ''@'' @ dec_string i @ ''.'' @ t @ [CHR 0x0A]))
              [0 ..< nat (num_asics g)])
       else snprintf MAX_BUF_SIZE (key @ ''='' @ n @ ''.'' @ t @ [CHR 0x0A])) = expanded g key w"
    by (auto simp: expanded_def name_instances_def multi w intro!: arg_cong [where f = concat])
  have "w' = n @ CHR ''.'' # t \<or> w' = n @ CHR ''.'' # t @ [CHR 0x0A]"
    using assms(4) by (auto simp: w unit_name_def newline_def)
  moreover have "hd n \<noteq> CHR ''.''" using n(1,2) hd_in_set [of n] by metis
  ultimately show ?thesis
    using n name type out by (auto simp: dep_word_def str_of_def hd_append Let_def split: if_splits)
qed

lemma dep_words_names:
  assumes "services_ok g" "ws \<noteq> []" "list_all name_ok ws" "length key < 100"
  shows "dep_words g key (newline (unwords (map unit_name ws))) = Some (concat (map (expanded g key) ws))"
  using assms(2,3)
proof (induction ws)
  case (Cons w ws)
  have plain: "plain (unit_name w)" using Cons.prems by (auto simp: name_ok_def plain_def unit_name_def)
  have w: "dep_word g key (unit_name w) = Some (expanded g key w)"
      "dep_word g key (newline (unit_name w)) = Some (expanded g key w)"
    using dep_word_name [OF assms(1) _ assms(4)] Cons.prems(2) by simp_all
  show ?case
  proof (cases ws)
    case Nil
    have "dep_words g key [] = Some []" by (simp add: dep_words.simps [of g key "[]"] strtok_def)
    thus ?thesis
      by (simp add: Nil dep_words.simps [of g key "newline (unit_name w)"] strtok_newline_word [OF plain] w)
  next
    case (Cons v vs)
    let ?r = "newline (unwords (map unit_name ws))"
    have "newline (unwords (map unit_name (w # ws))) = unit_name w @ CHR '' '' # ?r"
      by (simp add: Cons newline_def)
    moreover have "dep_words g key (unit_name w @ CHR '' '' # ?r) = map_option (\<lambda>r. expanded g key w @ r) (dep_words g key ?r)"
      by (subst dep_words.simps) (simp add: strtok_word [OF plain] w)
    ultimately show ?thesis using Cons.IH Cons.prems Cons by simp
  qed
qed simp

definition expansion :: "ssg_globals \<Rightarrow> unit_line \<Rightarrow> string" where
  "expansion g l = concat (map (\<lambda>l. newline (print_line l)) (expand g l))"

lemma dep_line_expands:
  assumes "services_ok g" "unit_line_ok l"
  shows "dep_line g False (newline (print_line l)) = Some (False, expansion g l)"
proof (cases l)
  case (Descr s)
  have "CHR ''['' \<notin> set (newline (print_line l))" using assms(2) by (auto simp: Descr newline_def)
  hence "\<not> strstr (newline (print_line l)) t" if "CHR ''['' \<in> set t" for t using that strstr_needs by blast
  moreover have "strstr (newline (print_line l)) ''Description''" by (simp add: Descr newline_def)
  ultimately show ?thesis by (simp add: dep_line_def expansion_def Descr)
next
  case (Names key ws)
  have ok: "plain key" "length key < 100" "ws \<noteq> []" "list_all name_ok ws"
    using assms(2) by (simp_all add: Names)
  have names: "map unit_name ws \<noteq> []" "list_all plain (map unit_name ws)"
    using ok by (auto simp: list_all_iff name_ok_def plain_def unit_name_def)
  have "CHR ''['' \<notin> set (newline (print_line l))"
    using plain_words [OF names] ok(1) by (simp add: Names newline_def plain_def)
  hence head: "\<not> strstr (newline (print_line l)) t" if "CHR ''['' \<in> set t" for t using that strstr_needs by blast
  have descr: "\<not> strstr (newline (print_line l)) ''Description''"
    using assms(2) unfolding Names by (subst strstr_newline) simp_all
  have "newline (print_line l) = key @ CHR ''='' # newline (unwords (map unit_name ws))"
    by (simp add: Names newline_def)
  hence "strtok (\<lambda>ch. ch = CHR ''='') (newline (print_line l)) = Some (key, newline (unwords (map unit_name ws)))"
    using strtok_token(1) [of key "\<lambda>ch. ch = CHR ''=''" "CHR ''=''"] ok(1) by (auto simp: plain_def)
  moreover have "concat (map (expanded g key) vs) = expansion g (Names key vs)" for vs
    by (induction vs) (simp_all add: expansion_def expanded_def comp_def)
  ultimately show ?thesis using dep_words_names [OF assms(1) ok(3,4,2)] descr
    by (simp add: dep_line_def head [unfolded Names] Names del: print_line.simps)
qed

lemma dep_lines_map:
  assumes "\<And>l. l \<in> set ls \<Longrightarrow> dep_line g b (f l) = Some (b, h l)"
  shows "dep_lines g b (map f ls @ rest) = map_option (\<lambda>r. concat (map h ls) @ r) (dep_lines g b rest)"
  using assms by (induction ls) (cases "dep_lines g b rest", simp_all)+

lemma dep_lines_unit_file:
  assumes "services_ok g" "list_all unit_line_ok us" "list_all line_ok body" "list_all unit_line_ok ins"
  shows "dep_lines g False (file_lines (unit_file_text us body ins)) =
    Some (unit_file_text (concat (map (expand g) us)) body (concat (map (expand g) ins)))"
proof -
  let ?p = "\<lambda>l. newline (print_line l)"
  have "list_all (\<lambda>l. CHR 0x00 \<notin> set l \<and> CHR 0x0A \<notin> set l) (unit_lines_of us body ins)"
    using assms(2-4) print_line_chars by (auto simp: unit_lines_of_def list_all_iff line_ok_def)
  hence fl: "file_lines (unit_file_text us body ins) = newline ''[Unit]'' # map ?p us @
      newline ''[Service]'' # map newline body @ newline ''[Install]'' # map ?p ins"
    by (simp add: unit_file_text_def file_lines_newlines) (simp add: unit_lines_of_def comp_def)
  have heads: "dep_line g False (newline ''[Unit]'') = Some (False, newline ''[Unit]'')"
      "dep_line g False (newline ''[Service]'') = Some (True, newline ''[Service]'')"
      "dep_line g True (newline ''[Install]'') = Some (False, newline ''[Install]'')"
    by (simp_all add: dep_line_def newline_def)
  have us: "dep_lines g False (map ?p us @ rest) = map_option (\<lambda>r. concat (map (expansion g) us) @ r) (dep_lines g False rest)" for rest
    using assms(1,2) by (intro dep_lines_map dep_line_expands) (auto simp: list_all_iff)
  have "dep_lines g False (map ?p ins @ []) = map_option (\<lambda>r. concat (map (expansion g) ins) @ r) (dep_lines g False [])"
    using assms(1,4) by (intro dep_lines_map dep_line_expands) (auto simp: list_all_iff)
  hence ins: "dep_lines g False (map ?p ins) = Some (concat (map (expansion g) ins))" by simp
  have body: "dep_lines g True (map newline body @ rest) = map_option (\<lambda>r. concat (map newline body) @ r) (dep_lines g True rest)" for rest
    using assms(3) by (intro dep_lines_map) (auto simp: list_all_iff line_ok_def dep_line_def strstr_newline)
  have exp: "concat (map (expansion g) ls) = concat (map ?p (concat (map (expand g) ls)))" for ls
    by (induction ls) (simp_all add: expansion_def)
  show ?thesis unfolding fl
    by (simp add: heads us body ins unit_file_text_def unit_lines_of_def exp comp_def)
qed

lemma name_instance_plain:
  assumes "services_ok g" "name_ok w" "v \<in> set (name_instances g w)"
  shows "plain (unit_name v) \<and> length (unit_name v) < 4000"
proof -
  have digits: "\<forall>ch \<in> set (dec_string i). is_digit ch" for i using dec_string_digits by blast
  have "length (dec_string i) \<le> 101" if "i < nat (num_asics g)" for i
    using dec_string_length [of i] that assms(1) by (auto simp: services_ok_def)
  moreover have "ch \<notin> set (dec_string i)" if "\<not> is_digit ch" for ch i using digits [of i] that by blast
  ultimately show ?thesis using assms(2,3)
    by (fastforce simp: name_instances_def name_ok_def plain_def unit_name_def is_digit_def split: if_splits)
qed

fun install_key :: "unit_line \<Rightarrow> bool" where
  "install_key (Descr s) = False"
| "install_key (Names key ws) = (strstr key ''RequiredBy'' \<or> strstr key ''WantedBy'')"

lemma expand_names:
  assumes "services_ok g" "unit_line_ok l" "l' \<in> set (expand g l)"
  shows "CHR ''['' \<notin> set (print_line l') \<and> CHR 0x00 \<notin> set (print_line l') \<and> CHR 0x0A \<notin> set (print_line l') \<and>
    (install_key l \<longrightarrow> install_line_ok l')"
proof (cases l)
  case (Descr s)
  thus ?thesis using assms by auto
next
  case (Names key ws)
  then obtain w v where l': "w \<in> set ws" "v \<in> set (name_instances g w)" "l' = Names key [v]" using assms(3) by auto
  moreover have "plain key" "name_ok w" using assms(2) l'(1) by (auto simp: Names list_all_iff)
  ultimately show ?thesis using name_instance_plain [OF assms(1), of w v] by (auto simp: Names plain_def)
qed

text \<open>
  C39. On a switch with several ASICs the file of a service that is not multi-instance is rewritten:
  each dependency gets a line of its own, one on a multi-instance service becomes one line per
  ASIC, descriptions and the middle section stay as they are.  The targets the generator then reads
  are those of the rewritten \<open>[Install]\<close> section, with an instance per ASIC where the target is a
  multi-instance service.
\<close>

theorem unit_file_rewritten:
  assumes "permits no" "dep_rewritten g u" "services_ok g" "CHR ''.'' \<in> set u"
    and "fs (UNIT_FILE_PREFIX @ u) = Some (Reg (unit_file_text us body ins))"
    and "fs (UNIT_FILE_PREFIX @ u @ ''.tmp'') = None" "length (UNIT_FILE_PREFIX @ u @ ''.tmp'') < PATH_MAX"
    and "list_all unit_line_ok us" "list_all line_ok body" "list_all unit_line_ok ins" "list_all install_key ins"
    and "us' = concat (map (expand g) us)" "ins' = concat (map (expand g) ins)" "length ins' \<le> 48"
    and "length (concat (map line_dirs ins')) \<le> 48"
  shows "get_install_targets no g u fs =
    Some (Some (concat (map line_dirs ins')), fs(UNIT_FILE_PREFIX @ u \<mapsto> Reg (unit_file_text us' body ins')))"
proof -
  let ?src = "UNIT_FILE_PREFIX @ u" let ?new = "unit_file_text us' body ins'"
  let ?pre = "''[Unit]'' # map print_line us' @ ''[Service]'' # body"
  have ins: "list_all install_line_ok ins'"
  proof -
    have "install_line_ok l'" if "l \<in> set ins" "l' \<in> set (expand g l)" for l l'
    proof -
      have "unit_line_ok l" "install_key l" using that(1) assms(10,11) by (auto simp: list_all_iff)
      thus ?thesis using expand_names [OF assms(3) _ that(2)] by blast
    qed
    thus ?thesis unfolding assms(13) by (auto simp: list_all_iff)
  qed
  have "line_ok (print_line l')" if "l \<in> set us" "l' \<in> set (expand g l)" for l l'
    using expand_names [OF assms(3) _ that(2)] that(1) assms(8) strstr_needs [of "print_line l'" "''[Install]''" "CHR ''[''"]
    by (auto simp: list_all_iff line_ok_def)
  hence pre: "list_all line_ok ?pre" using assms(9) unfolding assms(12) by (auto simp: list_all_iff line_ok_def)
  have new: "?new = concat (map newline (?pre @ ''[Install]'' # map print_line ins'))"
    by (simp add: unit_file_text_def unit_lines_of_def)
  have "replace_multi_inst_dep no g ?src fs = Some (fs(?src \<mapsto> Reg ?new))"
    using replace_overlay [of no fs ?src "unit_file_text us body ins" g ?new]
      dep_lines_unit_file [OF assms(3,8-10)] assms(1,5-7,12,13) by simp
  moreover have "get_target_lines no (fs(?src \<mapsto> Reg ?new)) ?src = Some (install_lines False 0 (file_lines ?new))"
    using unit_read [OF assms(1), of "fs(?src \<mapsto> Reg ?new)" ?src ?new] by (simp add: get_target_lines_def)
  moreover have "lines_targets None 0 (install_lines False 0 (file_lines ?new)) = Some (concat (map line_dirs ins'))"
    unfolding new by (rule install_section_targets [OF pre ins assms(14,15)])
  ultimately show ?thesis using assms(2,4,7) by (simp add: get_install_targets_def dep_rewritten_def Let_def)
qed

section \<open>A switch with two ASICs\<close>

definition sample_fs :: fs where
  "sample_fs = map_of
     [(MACHINE_CONF_FILE, Reg (newline ''onie_platform=x86'')),
      (asic_conf ''x86'', Reg (newline ''NUM_ASIC=2'')),
      (CONFIG_FILE, Reg (newline ''swss@.service'' @ newline ''lldp.service'')),
      (UNIT_FILE_PREFIX @ ''swss@.service'', Reg (concat (map newline [''[Unit]'', ''[Install]'', ''WantedBy=multi-user.target'']))),
      (UNIT_FILE_PREFIX @ ''lldp.service'', Reg (unit_file_text [Names ''After'' [(''swss'', ''service'')]]
         [''ExecStart=/usr/bin/lldp.sh''] [Names ''WantedBy'' [(''multi-user'', ''target'')]]))]"

definition sample_globals :: ssg_globals where
  "sample_globals = \<lparr> num_asics = 2, multi_instance_services = [''swss''] \<rparr>"

abbreviation (input) nothing_refused :: refusal where "nothing_refused \<equiv> \<lambda>_ _. False"

lemma sample_asics: "get_num_of_asic nothing_refused sample_fs = Some (Some 2)"
  by code_simp

lemma sample_units: "get_unit_files nothing_refused 2 sample_fs = Some (Some ([''swss@.service'', ''lldp.service''], [''swss'']))"
  by code_simp

lemma sample_targets: "unit_targets sample_globals sample_fs ''swss@.service'' = Some [''multi-user.target.wants'']"
  "unit_targets sample_globals sample_fs ''lldp.service'' = Some [''multi-user.target.wants'']"
  by code_simp+

lemma sample_permits: "permits nothing_refused"
  by (simp add: permits_def)

lemma sample_fresh: "fresh ''/run/'' sample_fs"
  by (simp add: fresh_def sample_fs_def MACHINE_CONF_FILE_def asic_conf_def CONFIG_FILE_def UNIT_FILE_PREFIX_def)

lemma sample_ready: "list_all (unit_ready sample_globals ''/run/'' sample_fs) [''swss@.service'', ''lldp.service'']"
  by code_simp

theorem generator_installs_witness:
  "\<exists>fs'. ssg_main nothing_refused [''generator'', ''/run''] sample_fs = Some (0, fs') \<and>
     fs' ''/run/multi-user.target.wants/swss@1.service'' = Some (Link ''/usr/lib/systemd/system/swss@.service'') \<and>
     fs' ''/run/multi-user.target.wants/lldp.service'' = Some (Link ''/usr/lib/systemd/system/lldp.service'')"
proof -
  let ?L = "concat (map (unit_links sample_globals sample_fs) [''swss@.service'', ''lldp.service''])"
  have "ssg_main nothing_refused [''generator'', ''/run''] sample_fs =
      Some (0, overlay ''/run/'' ?L (fold (rewrite_unit sample_globals) [''swss@.service'', ''lldp.service''] sample_fs))"
    by (rule generator_installs [OF sample_permits sample_asics sample_units sample_globals_def _ _ _ _ sample_ready sample_fresh])
      (simp_all add: instance_of_unit_def sample_globals_def)
  moreover have "unit_links sample_globals sample_fs ''swss@.service'' =
      [((''multi-user.target.wants'', ''swss@0.service''), UNIT_FILE_PREFIX @ ''swss@.service''),
       ((''multi-user.target.wants'', ''swss@1.service''), UNIT_FILE_PREFIX @ ''swss@.service'')]"
    and "unit_links sample_globals sample_fs ''lldp.service'' =
      [((''multi-user.target.wants'', ''lldp.service''), UNIT_FILE_PREFIX @ ''lldp.service'')]"
    by code_simp+
  ultimately show ?thesis by (simp add: overlay_def link_path_def UNIT_FILE_PREFIX_def)
qed

theorem missing_unit_witness:
  "install_units nothing_refused sample_globals ''/run/'' [''bgp.service'', ''lldp.service''] sample_fs = None"
  by (subst missing_unit [where u = "''bgp.service''"])
    (simp_all add: sample_fs_def sample_globals_def instance_of_unit_def is_multi_instance_service_def
      MACHINE_CONF_FILE_def asic_conf_def CONFIG_FILE_def UNIT_FILE_PREFIX_def)

lemma sample_file: "sample_fs (UNIT_FILE_PREFIX @ ''swss@.service'') =
    Some (Reg (concat (map newline ([''[Unit]''] @ ''[Install]'' # map print_line [Names ''WantedBy'' [(''multi-user'', ''target'')]]))))"
  "sample_fs (UNIT_FILE_PREFIX @ ''lldp.service'') =
     Some (Reg (unit_file_text [Names ''After'' [(''swss'', ''service'')]]
       [''ExecStart=/usr/bin/lldp.sh''] [Names ''WantedBy'' [(''multi-user'', ''target'')]]))"
  "sample_fs (UNIT_FILE_PREFIX @ ''lldp.service'' @ ''.tmp'') = None"
  by code_simp+

theorem install_section_read_witness:
  "get_install_targets nothing_refused sample_globals ''swss@.service'' sample_fs =
     Some (Some [''multi-user.target.wants''], sample_fs)"
proof -
  have "get_install_targets nothing_refused sample_globals ''swss@.service'' sample_fs =
      Some (Some (concat (map line_dirs [Names ''WantedBy'' [(''multi-user'', ''target'')]])), sample_fs)"
    by (rule install_section_read [where pre = "[''[Unit]'']"])
      (rule sample_permits sample_file(1) | simp add: dep_rewritten_def sample_globals_def
        is_multi_instance_service_def line_ok_def plain_def unit_name_def UNIT_FILE_PREFIX_def suffix_of_def)+
  thus ?thesis by (simp add: unit_name_def suffix_of_def)
qed

theorem unit_file_rewritten_witness:
  "\<exists>fs'. get_install_targets nothing_refused sample_globals ''lldp.service'' sample_fs = Some (Some [''multi-user.target.wants''], fs') \<and>
     fs' (UNIT_FILE_PREFIX @ ''lldp.service'') = Some (Reg (concat (map newline
       [''[Unit]'', ''After=swss@0.service'', ''After=swss@1.service'', ''[Service]'', ''ExecStart=/usr/bin/lldp.sh'',
        ''[Install]'', ''WantedBy=multi-user.target''])))"
proof -
  let ?us = "[Names ''After'' [(''swss'', ''service'')]]" let ?ins = "[Names ''WantedBy'' [(''multi-user'', ''target'')]]"
  let ?us' = "concat (map (expand sample_globals) ?us)" let ?ins' = "concat (map (expand sample_globals) ?ins)"
  have "get_install_targets nothing_refused sample_globals ''lldp.service'' sample_fs =
      Some (Some (concat (map line_dirs ?ins')),
        sample_fs(UNIT_FILE_PREFIX @ ''lldp.service'' \<mapsto> Reg (unit_file_text ?us' [''ExecStart=/usr/bin/lldp.sh''] ?ins')))"
    by (rule unit_file_rewritten [OF sample_permits _ _ _ sample_file(2,3)])
      (simp_all add: dep_rewritten_def services_ok_def sample_globals_def is_multi_instance_service_def line_ok_def name_ok_def
        plain_def unit_name_def UNIT_FILE_PREFIX_def name_instances_def)
  moreover have "concat (map line_dirs ?ins') = [''multi-user.target.wants'']"
    and "unit_file_text ?us' [''ExecStart=/usr/bin/lldp.sh''] ?ins' = concat (map newline
       [''[Unit]'', ''After=swss@0.service'', ''After=swss@1.service'', ''[Service]'', ''ExecStart=/usr/bin/lldp.sh'',
        ''[Install]'', ''WantedBy=multi-user.target''])"
    by code_simp+
  ultimately show ?thesis by simp
qed

end
