(* ===== verification/Spec2Isabelle.thy ===== *)
theory Spec2Isabelle
  imports DhcpMon Relay6 Iccp_Handshake Iccp_Session Iccp_NeighSync NssRadius Ssg
begin

text \<open>
  Verification of the control-plane daemons of the SONiC image: the DHCP relay monitor
  \<open>dhcpmon\<close>, the DHCPv6 relay agent \<open>dhcp6relay\<close> and the inter-chassis communication daemon
  \<open>iccpd\<close>, and of two tools of the image, the name service module \<open>libnss-radius\<close> and the unit
  generator \<open>systemd-sonic-generator\<close>.  They are separate programs and meet only in what they share
  of a style: packets and messages are byte buffers that structures are laid over, handlers run to
  completion from an event loop, and text is cut with \<open>strtok\<close> and \<open>snprintf\<close>.

  \<^bold>\<open>How code is modelled.\<close>  A handler is a function from the state of its module and an event to the
  new state.  A structure is a record with the members of the source, an enumeration a datatype, a
  machine integer a word of its width where it can wrap.  A buffer is a list of bytes, and a load or
  store outside it gives the result \<open>None\<close> (\<open>Fault\<close> where a loop may also not end or may block);
  this result never stands for an error the code reports, which is a return value as in the source.
  Answers of the kernel, of libevent, of the C library and of other processes are arguments; what a
  daemon asks of them is part of the result (datagrams, log lines, the events in \<open>trace\<close>).

  \<^item> \<open>Prelude\<close>: memory blocks, loads and stores in both byte orders, \<open>atoi\<close>, and four interfaces:
    \<open>tlv_codec\<close> (items of a type-length-value stream), \<open>fifo_queue\<close> (the \<open>TAILQ\<close> message queues),
    \<open>invariant_system\<close> (a transition system with an invariant) and \<open>event_system\<close> (event handlers that
    keep an invariant, which gives an invariant system).
  \<^item> \<open>Bpf\<close>: the classic BPF language, in which both packet filters are written.
  \<^item> \<open>DhcpDevice\<close>: \<open>dhcpmon/src/dhcp_device.c\<close>.  The capture filter, the parsing of frames
    (\<open>read_callback\<close> with its option loops), counters and health checks.  Shown: the filter accepts
    exactly DHCP; which message each frame counts; bounds of the option loops and the three ways out
    of the buffer; the verdict of a monitoring window.  The locale \<open>relay_health\<close> holds the part that
    DHCPv4 and DHCPv6 share.
  \<^item> \<open>DhcpMon\<close>: \<open>dhcp_devman.c\<close>, \<open>dhcp_mon.c\<close> and \<open>main.c\<close>.  Interfaces, the timer, alerts, the
    command line.  Shown: aggregate counters are the sums of the interface counters in every
    reachable state; exactly when an alert is raised; the configuration of a daemon that starts.
  \<^item> \<open>Relay6\<close>: \<open>dhcp6relay/src/relay.cpp\<close> and \<open>configInterface.cpp\<close>.  Shown: the filter; what a
    client message and a relay-reply become; the option area of a forwarded message; termination of
    the callback for filtered frames; the inputs that make it fault.
  \<^item> \<open>Iccp_Msg\<close>: \<open>iccpd/include/msg_format.h\<close>.  Headers and parameters as bytes, the ring of sent
    messages.
  \<^item> \<open>Iccp_Csm\<close>: \<open>iccp_csm.c\<close> and \<open>app_csm.c\<close>.  The record \<open>CSM\<close> and the operations that build,
    queue and interpret messages.  The three queues are interpretations of \<open>fifo_queue\<close>.
  \<^item> \<open>Iccp_Sched\<close>: \<open>scheduler.c\<close> and \<open>iccp_csm_transit\<close>.  Connecting, accepting, receiving, the
    heartbeat, the transition of the machine, disconnecting.  Shown: messages are reassembled from
    the stream in order.
  \<^item> \<open>Iccp_Handshake\<close>: two machines at the ends of one session refine an abstract handshake, which
    completes under every fair schedule.
  \<^item> \<open>Iccp_Cli\<close>: \<open>iccp_cli.c\<close>, \<open>iccp_cmd.c\<close> and the binding of interfaces.
  \<^item> \<open>Iccp_Session\<close>: what a disconnect keeps and clears; the daemon as a transition system
    (\<open>iccpd_step\<close>), an interpretation of \<open>invariant_system\<close>; roles, the silent peer, refusals,
    identifiers of domains.
  \<^item> \<open>Iccp_Mac\<close>, \<open>Iccp_MacSafe\<close>, \<open>Iccp_MacSync\<close>: the MAC table of \<open>mlacp_link_handler.c\<close>,
    \<open>mlacp_sync_update.c\<close>, \<open>mlacp_sync_prepare.c\<close> and \<open>mlacp_fsm.c\<close> over an explicit heap, because the
    tree and the queue share entries and every handler frees them itself.  Shown: no run of events
    touches a freed entry and the tree and queue stay well-formed (\<open>event_system\<close>); the queue is
    sent in order in batches that decode to the entries; an address learnt on one switch reaches the
    other and ages out on both; the two places where the entry and the queue or the chip disagree.
  \<^item> \<open>Iccp_Batch\<close>: messages that carry a number of entries of one size.  The locale \<open>info_codec\<close> has
    the contract of a kind of entry and is interpreted for MAC, ARP and ND entries.
  \<^item> \<open>Iccp_Neigh\<close>, \<open>Iccp_NeighSync\<close>: ARP and ND entries, from the bytes of kernel messages and packets
    (\<open>iccp_ifm.c\<close>, \<open>iccp_netlink.c\<close>) over the lists and queues to the messages and the peer's kernel
    (\<open>mlacp_fsm.c\<close>, \<open>mlacp_sync_prepare.c\<close>, \<open>mlacp_sync_update.c\<close>, \<open>mlacp_link_handler.c\<close>).  Shown: every
    run of events stays in bounds and keeps one well-formed entry per address (\<open>event_system\<close>); the
    queues are sent in batches that decode to the entries; an entry learnt or dropped by one kernel
    is so by the other; which advertisements are read and which overrun the buffer; where ND differs
    from ARP.
  \<^item> \<open>CStr\<close>: strings and text files of the C library: searching, tokens, lines, decimal numbers.
  \<^item> \<open>NssRadius\<close>: \<open>radius/nss/libnss-radius\<close>.  The configuration file, the cache of privilege
    levels, the accounts made for remote users.  Shown: levels index an existing row; the cache
    round trip; who gets an account and which accounts are never touched; which unconfirmed accounts
    are cleared; what the caller's buffer holds.
  \<^item> \<open>Ssg\<close>: \<open>systemd-sonic-generator.c\<close> over a file system of files, directories and links.  Shown: a
    run installs exactly the units of the image and changes nothing else; how unit files are read
    and rewritten; the fixed arrays suffice; what a missing unit file does.

  \<^bold>\<open>Loops and bounds.\<close>  No definition uses fuel.  Loops over buffers are recursive functions with a
  termination proof; the walk over IPv6 extension headers, which need not end, is a partial function
  in the option monad whose value \<open>None\<close> is divergence.  The receive loops end because every call
  consumes part of the announced length or one of ten retries.  The transition system
  \<open>iccpd_step\<close> lets the part of \<open>mlacp_fsm_transit\<close> that runs with the session up put the
  synchronisation into any state.

  \<^bold>\<open>Not modelled.\<close>  Text written to syslog beyond alerts and status dumps; the event loops; of
  \<open>iccpd\<close> the synchronisation TLVs other than the MAC, ARP and ND information with the stages that
  exchange them, the link and address messages of netlink and the show commands; and the kernel drivers of the platforms.
\<close>

end
